(* ===== verification/Prelude.thy ===== *)
theory Prelude
  imports Complex_Main "HOL-Library.Word" "HOL-Library.State_Monad" "HOL-Library.Monad_Syntax"
begin

text \<open>
  Shared vocabulary of the development.

  \<^item> Go error values (sentinels, and the two \<^verbatim>\<open>fmt.Errorf\<close> wrapping shapes the code uses),
    with \<^verbatim>\<open>errors.Is\<close> and \<^verbatim>\<open>Error()\<close>.
  \<^item> A weakest-precondition reading of the state monad of the library: \<open>wp m Q s\<close> says that
    running \<open>m\<close> from \<open>s\<close> gives a result and a state in \<open>Q\<close>; \<open>preserves I m\<close> says that \<open>m\<close>
    keeps \<open>I\<close>. The collection \<open>wp_simps\<close> executes a program symbolically, the collection
    \<open>pres_intros\<close> takes an invariant through one.
  \<^item> \<open>zoom\<close>, which runs a component's program on its part of a larger state.
\<close>

named_theorems wp_simps
named_theorems pres_intros
named_theorems key_simps

section \<open>Errors\<close>

text \<open>The sentinel errors of \<^verbatim>\<open>internal/service/service.go\<close>.\<close>

datatype sentinel =
  ErrQuota | ErrAnonymous | ErrNotFound | ErrForbidden | ErrDiskFull | ErrCapacity | ErrSSH

text \<open>
  \<open>Prefix s e\<close> is \<^verbatim>\<open>fmt.Errorf("s: %w", e)\<close>, \<open>Suffix e s\<close> is
  \<^verbatim>\<open>fmt.Errorf("%w: s", e)\<close>; \<open>Foreign s\<close> is any other error with message \<open>s\<close>.
\<close>

datatype goerr = Sentinel sentinel | Foreign string | Prefix string goerr | Suffix goerr string

fun sentinel_text :: "sentinel \<Rightarrow> string" where
  "sentinel_text ErrQuota = ''user already has an active sandbox''"
| "sentinel_text ErrAnonymous = ''anonymous users cannot create VM sandboxes''"
| "sentinel_text ErrNotFound = ''sandbox not found''"
| "sentinel_text ErrForbidden = ''forbidden''"
| "sentinel_text ErrDiskFull = ''host disk capacity reached''"
| "sentinel_text ErrCapacity = ''host VM capacity reached''"
| "sentinel_text ErrSSH = ''cloud SSH unavailable''"

fun err_text :: "goerr \<Rightarrow> string" where
  "err_text (Sentinel s) = sentinel_text s"
| "err_text (Foreign s) = s"
| "err_text (Prefix s e) = s @ '': '' @ err_text e"
| "err_text (Suffix e s) = err_text e @ '': '' @ s"

fun errors_is :: "goerr \<Rightarrow> sentinel \<Rightarrow> bool" where
  "errors_is (Sentinel s) t \<longleftrightarrow> s = t"
| "errors_is (Foreign _) t \<longleftrightarrow> False"
| "errors_is (Prefix _ e) t \<longleftrightarrow> errors_is e t"
| "errors_is (Suffix e _) t \<longleftrightarrow> errors_is e t"

section \<open>State programs\<close>

abbreviation ret :: "'a \<Rightarrow> ('s, 'a) state" where
  "ret \<equiv> State_Monad.return"

definition gets :: "('s \<Rightarrow> 'a) \<Rightarrow> ('s, 'a) state" where
  "gets f = State (\<lambda>s. (f s, s))"

definition modify :: "('s \<Rightarrow> 's) \<Rightarrow> ('s, unit) state" where
  "modify f = State (\<lambda>s. ((), f s))"

lemma run_gets [simp]: "run_state (gets f) s = (f s, s)"
  by (simp add: gets_def)

lemma run_modify [simp]: "run_state (modify f) s = ((), f s)"
  by (simp add: modify_def)

text \<open>Run a program of a component on the field of a larger state that holds it.\<close>

definition zoom :: "('w \<Rightarrow> 's) \<Rightarrow> ('s \<Rightarrow> 'w \<Rightarrow> 'w) \<Rightarrow> ('s, 'a) state \<Rightarrow> ('w, 'a) state" where
  "zoom get put m = State (\<lambda>w. case run_state m (get w) of (a, s) \<Rightarrow> (a, put s w))"

lemma run_zoom [simp]:
  "run_state (zoom get put m) w = (case run_state m (get w) of (a, s) \<Rightarrow> (a, put s w))"
  by (simp add: zoom_def)

text \<open>A loop over a list whose body cannot stop the loop.\<close>

fun for_each :: "'a list \<Rightarrow> ('a \<Rightarrow> ('s, unit) state) \<Rightarrow> ('s, unit) state" where
  "for_each [] f = ret ()"
| "for_each (x # xs) f = do { _ \<leftarrow> f x; for_each xs f }"

text \<open>A loop over a list that returns at the first error.\<close>

fun for_each_err :: "'a list \<Rightarrow> ('a \<Rightarrow> ('s, goerr option) state) \<Rightarrow> ('s, goerr option) state" where
  "for_each_err [] f = ret None"
| "for_each_err (x # xs) f =
     do { r \<leftarrow> f x; case r of Some e \<Rightarrow> ret (Some e) | None \<Rightarrow> for_each_err xs f }"

section \<open>Weakest preconditions\<close>

definition wp :: "('s, 'a) state \<Rightarrow> ('a \<Rightarrow> 's \<Rightarrow> bool) \<Rightarrow> 's \<Rightarrow> bool" where
  "wp m Q s \<longleftrightarrow> Q (fst (run_state m s)) (snd (run_state m s))"

lemma wp_return [wp_simps]: "wp (ret a) Q s \<longleftrightarrow> Q a s"
  by (simp add: wp_def)

lemma wp_bind [wp_simps]: "wp (m \<bind> f) Q s \<longleftrightarrow> wp m (\<lambda>a. wp (f a) Q) s"
  by (simp add: wp_def split_beta)

lemma wp_gets [wp_simps]: "wp (gets f) Q s \<longleftrightarrow> Q (f s) s"
  by (simp add: wp_def)

lemma wp_modify [wp_simps]: "wp (modify f) Q s \<longleftrightarrow> Q () (f s)"
  by (simp add: wp_def)

lemma wp_State [wp_simps]: "wp (State f) Q s \<longleftrightarrow> Q (fst (f s)) (snd (f s))"
  by (simp add: wp_def)

lemma wp_zoom [wp_simps]: "wp (zoom g p m) Q w \<longleftrightarrow> wp m (\<lambda>a s. Q a (p s w)) (g w)"
  by (simp add: wp_def split_beta)

lemma wp_if [wp_simps]: "wp (if b then m else n) Q s \<longleftrightarrow> (if b then wp m Q s else wp n Q s)"
  by simp

lemma wp_case_sum [wp_simps]:
  "wp (case x of Inl a \<Rightarrow> f a | Inr b \<Rightarrow> g b) Q s \<longleftrightarrow>
     (case x of Inl a \<Rightarrow> wp (f a) Q s | Inr b \<Rightarrow> wp (g b) Q s)"
  by (cases x) auto

lemma wp_case_option [wp_simps]:
  "wp (case x of None \<Rightarrow> m | Some a \<Rightarrow> f a) Q s \<longleftrightarrow>
     (case x of None \<Rightarrow> wp m Q s | Some a \<Rightarrow> wp (f a) Q s)"
  by (cases x) auto

lemma wp_case_prod [wp_simps]:
  "wp (case x of (a, b) \<Rightarrow> f a b) Q s \<longleftrightarrow> (case x of (a, b) \<Rightarrow> wp (f a b) Q s)"
  by (cases x) auto

lemma wp_Let [wp_simps]: "wp (let x = a in f x) Q s \<longleftrightarrow> (let x = a in wp (f x) Q s)"
  by (simp add: Let_def)

lemma wp_mono: "wp m P s \<Longrightarrow> (\<And>a s'. P a s' \<Longrightarrow> Q a s') \<Longrightarrow> wp m Q s"
  by (simp add: wp_def)

text \<open>The step of a symbolic execution: a known outcome of the first program.\<close>

lemma wp_bindI: "wp m P s \<Longrightarrow> (\<And>a s'. P a s' \<Longrightarrow> wp (f a) Q s') \<Longrightarrow> wp (m \<bind> f) Q s"
  by (simp add: wp_bind wp_mono)

lemma wp_conj: "wp m P s \<Longrightarrow> wp m Q s \<Longrightarrow> wp m (\<lambda>a s'. P a s' \<and> Q a s') s"
  by (simp add: wp_def)

lemma wp_runI: "wp m (\<lambda>a s'. P a s') s \<Longrightarrow> run_state m s = (a, s') \<Longrightarrow> P a s'"
  by (simp add: wp_def)

lemma wp_run: "run_state m s = (a, s') \<Longrightarrow> wp m Q s \<longleftrightarrow> Q a s'"
  by (simp add: wp_def)

section \<open>Invariants of programs\<close>

definition preserves :: "('s \<Rightarrow> bool) \<Rightarrow> ('s, 'a) state \<Rightarrow> bool" where
  "preserves I m \<longleftrightarrow> (\<forall>s. I s \<longrightarrow> wp m (\<lambda>_. I) s)"

lemma preservesD: "preserves I m \<Longrightarrow> I s \<Longrightarrow> I (snd (run_state m s))"
  by (simp add: preserves_def wp_def)

lemma preservesI: "(\<And>s. I s \<Longrightarrow> I (snd (run_state m s))) \<Longrightarrow> preserves I m"
  by (simp add: preserves_def wp_def)

lemma preserves_return [pres_intros]: "preserves I (ret a)"
  by (simp add: preserves_def wp_simps)

lemma preserves_gets [pres_intros]: "preserves I (gets f)"
  by (simp add: preserves_def wp_simps)

lemma preserves_modify: "(\<And>s. I s \<Longrightarrow> I (f s)) \<Longrightarrow> preserves I (modify f)"
  by (simp add: preserves_def wp_simps)

lemma preserves_bind [pres_intros]:
  "preserves I m \<Longrightarrow> (\<And>a. preserves I (f a)) \<Longrightarrow> preserves I (m \<bind> f)"
  unfolding preserves_def wp_bind by (blast intro: wp_mono)

lemma preserves_if [pres_intros]:
  "(b \<Longrightarrow> preserves I m) \<Longrightarrow> (\<not> b \<Longrightarrow> preserves I n) \<Longrightarrow> preserves I (if b then m else n)"
  by simp

lemma preserves_case_sum [pres_intros]:
  "(\<And>a. x = Inl a \<Longrightarrow> preserves I (f a)) \<Longrightarrow> (\<And>b. x = Inr b \<Longrightarrow> preserves I (g b)) \<Longrightarrow>
   preserves I (case x of Inl a \<Rightarrow> f a | Inr b \<Rightarrow> g b)"
  by (cases x) auto

lemma preserves_case_option [pres_intros]:
  "(x = None \<Longrightarrow> preserves I m) \<Longrightarrow> (\<And>a. x = Some a \<Longrightarrow> preserves I (f a)) \<Longrightarrow>
   preserves I (case x of None \<Rightarrow> m | Some a \<Rightarrow> f a)"
  by (cases x) auto

lemma preserves_case_prod [pres_intros]:
  "(\<And>a b. x = (a, b) \<Longrightarrow> preserves I (f a b)) \<Longrightarrow> preserves I (case x of (a, b) \<Rightarrow> f a b)"
  by (cases x) auto

lemma preserves_case_bool [pres_intros]:
  "(x \<Longrightarrow> preserves I m) \<Longrightarrow> (\<not> x \<Longrightarrow> preserves I n) \<Longrightarrow>
   preserves I (case x of True \<Rightarrow> m | False \<Rightarrow> n)"
  by (cases x) auto

lemma preserves_wp: "preserves I m \<Longrightarrow> I s \<Longrightarrow> wp m (\<lambda>_. I) s"
  by (simp add: preserves_def)

lemma preserves_zoom:
  "preserves J m \<Longrightarrow> (\<And>w. I w \<Longrightarrow> J (g w)) \<Longrightarrow> (\<And>w s. I w \<Longrightarrow> J s \<Longrightarrow> I (p s w)) \<Longrightarrow>
   preserves I (zoom g p m)"
  unfolding preserves_def wp_zoom by (blast intro: wp_mono)

lemma preserves_for_each [pres_intros]:
  "(\<And>x. preserves I (f x)) \<Longrightarrow> preserves I (for_each xs f)"
  by (induction xs) (auto intro!: pres_intros)

lemma preserves_for_each_err [pres_intros]:
  "(\<And>x. preserves I (f x)) \<Longrightarrow> preserves I (for_each_err xs f)"
  by (induction xs) (auto intro!: pres_intros)

end
