(* ===== verification/Redis.thy ===== *)
theory Redis
  imports Go_Strings
begin

text \<open>
  The interface between \<^verbatim>\<open>internal/store\<close> and its Redis/Dragonfly server. The server is not
  part of the repository: it is a parameter \<open>exec\<close>, the effect of one command on an abstract
  server state \<open>'r\<close>. The locale \<open>redis_server\<close> states what the Redis documentation says
  of the eleven commands the program issues, over an observation \<open>ks\<close> of the server state
  (the keys, their types and values, and the messages published so far).

  A client talks to the server in round trips (\<open>roundtrip\<close>). A round trip is one command, one
  \<^verbatim>\<open>MULTI\<close> block or one script, so it is atomic; before it the environment may have changed the
  server (\<open>others\<close>), it may fail before or after reaching the server (\<open>fault\<close>), and it fails at
  once when it runs under a context that is over (\<open>expired\<close>). All three are arbitrary functions
  of the number of the round trip, so a theorem for every environment covers every interleaving
  with other requests and every pattern of failures. The client is taken to send a request once.
\<close>

section \<open>Values, commands, replies\<close>

text \<open>
  JSON texts are represented by their syntax tree. A string value of the server is \<open>Json\<close> when
  it is the text of a JSON object, \<open>Text\<close> otherwise. Sets have no order.
\<close>

datatype json =
  JNull | JBool bool | JInt int | JDec rat | JStr string | JArr "json list" | JObj "(string \<times> json) list"

datatype bulk = Text string | Json json

datatype rval = RStr bulk | RSet "string set" | RHash "string \<rightharpoonup> string"

record keyspace =
  kv :: "string \<rightharpoonup> rval"
  pubs :: "(string \<times> bulk) list"

datatype rcmd =
  CGet string | CSet string bulk | CSetNX string bulk | CDel "string list"
| CSAdd string string | CSRem string string | CSMembers string
| CHGet string string | CHMGet string "string list"
| CIncr string | CPublish string bulk

datatype reply =
  RNil | ROk | RInt int | RBulk bulk | RArr "string list" | RVals "string option list"
| RErr string

abbreviation wrong_type :: reply where
  "wrong_type \<equiv> RErr ''WRONGTYPE Operation against a key holding the wrong kind of value''"

section \<open>What the documentation says of each command\<close>

text \<open>
  \<open>redis_spec c s rep s'\<close>: issuing \<open>c\<close> in keyspace \<open>s\<close> may answer \<open>rep\<close> and leave \<open>s'\<close>. Every
  command but \<^verbatim>\<open>SMEMBERS\<close> has one outcome; \<^verbatim>\<open>SMEMBERS\<close> lists the set in any order.
\<close>

fun redis_spec :: "rcmd \<Rightarrow> keyspace \<Rightarrow> reply \<Rightarrow> keyspace \<Rightarrow> bool" where
  "redis_spec (CGet k) s rep s' \<longleftrightarrow> s' = s \<and>
     rep = (case kv s k of None \<Rightarrow> RNil | Some (RStr v) \<Rightarrow> RBulk v | Some _ \<Rightarrow> wrong_type)"
| "redis_spec (CSet k v) s rep s' \<longleftrightarrow> s' = s\<lparr>kv := (kv s)(k \<mapsto> RStr v)\<rparr> \<and> rep = ROk"
| "redis_spec (CSetNX k v) s rep s' \<longleftrightarrow>
     (if kv s k = None then s' = s\<lparr>kv := (kv s)(k \<mapsto> RStr v)\<rparr> \<and> rep = ROk
      else s' = s \<and> rep = RNil)"
| "redis_spec (CDel ks) s rep s' \<longleftrightarrow>
     s' = s\<lparr>kv := (\<lambda>k. if k \<in> set ks then None else kv s k)\<rparr> \<and>
     rep = RInt (int (card {k \<in> set ks. kv s k \<noteq> None}))"
| "redis_spec (CSAdd k x) s rep s' \<longleftrightarrow>
     (case kv s k of
        None \<Rightarrow> s' = s\<lparr>kv := (kv s)(k \<mapsto> RSet {x})\<rparr> \<and> rep = RInt 1
      | Some (RSet A) \<Rightarrow>
          s' = s\<lparr>kv := (kv s)(k \<mapsto> RSet (insert x A))\<rparr> \<and> rep = RInt (if x \<in> A then 0 else 1)
      | Some _ \<Rightarrow> s' = s \<and> rep = wrong_type)"
| "redis_spec (CSRem k x) s rep s' \<longleftrightarrow>
     (case kv s k of
        None \<Rightarrow> s' = s \<and> rep = RInt 0
      | Some (RSet A) \<Rightarrow>
          s' = s\<lparr>kv := (kv s)(k := (if A - {x} = {} then None else Some (RSet (A - {x}))))\<rparr> \<and>
          rep = RInt (if x \<in> A then 1 else 0)
      | Some _ \<Rightarrow> s' = s \<and> rep = wrong_type)"
| "redis_spec (CSMembers k) s rep s' \<longleftrightarrow> s' = s \<and>
     (case kv s k of
        None \<Rightarrow> rep = RArr []
      | Some (RSet A) \<Rightarrow> (\<exists>xs. rep = RArr xs \<and> distinct xs \<and> set xs = A)
      | Some _ \<Rightarrow> rep = wrong_type)"
| "redis_spec (CHGet k f) s rep s' \<longleftrightarrow> s' = s \<and>
     rep = (case kv s k of
              None \<Rightarrow> RNil
            | Some (RHash h) \<Rightarrow> (case h f of None \<Rightarrow> RNil | Some v \<Rightarrow> RBulk (Text v))
            | Some _ \<Rightarrow> wrong_type)"
| "redis_spec (CHMGet k fs) s rep s' \<longleftrightarrow> s' = s \<and>
     rep = (case kv s k of
              None \<Rightarrow> RVals (map (\<lambda>_. None) fs)
            | Some (RHash h) \<Rightarrow> RVals (map h fs)
            | Some _ \<Rightarrow> wrong_type)"
| "redis_spec (CIncr k) s rep s' \<longleftrightarrow>
     (case kv s k of
        None \<Rightarrow> s' = s\<lparr>kv := (kv s)(k \<mapsto> RStr (Text (dec_int 1)))\<rparr> \<and> rep = RInt 1
      | Some (RStr (Text t)) \<Rightarrow>
          (case atoi t of
             None \<Rightarrow> s' = s \<and> rep = RErr ''ERR value is not an integer or out of range''
           | Some i \<Rightarrow>
               if in_int64 (i + 1)
               then s' = s\<lparr>kv := (kv s)(k \<mapsto> RStr (Text (dec_int (i + 1))))\<rparr> \<and> rep = RInt (i + 1)
               else s' = s \<and> rep = RErr ''ERR increment or decrement would overflow'')
      | Some (RStr (Json _)) \<Rightarrow> s' = s \<and> rep = RErr ''ERR value is not an integer or out of range''
      | Some _ \<Rightarrow> s' = s \<and> rep = wrong_type)"
| "redis_spec (CPublish ch v) s rep s' \<longleftrightarrow>
     s' = s\<lparr>pubs := pubs s @ [(ch, v)]\<rparr> \<and> (\<exists>n. rep = RInt (int n))"

locale redis_server =
  fixes exec :: "rcmd \<Rightarrow> 'r \<Rightarrow> reply \<times> 'r"
    and ks :: "'r \<Rightarrow> keyspace"
  assumes exec_spec: "redis_spec c (ks r) (fst (exec c r)) (ks (snd (exec c r)))"
begin

lemma get_spec:
  "fst (exec (CGet k) r) =
     (case kv (ks r) k of None \<Rightarrow> RNil | Some (RStr v) \<Rightarrow> RBulk v | Some _ \<Rightarrow> wrong_type)"
  "ks (snd (exec (CGet k) r)) = ks r"
  using exec_spec [of "CGet k" r] by simp_all

lemma set_spec:
  "fst (exec (CSet k v) r) = ROk"
  "ks (snd (exec (CSet k v) r)) = (ks r)\<lparr>kv := (kv (ks r))(k \<mapsto> RStr v)\<rparr>"
  using exec_spec [of "CSet k v" r] by simp_all

lemma setnx_spec:
  "fst (exec (CSetNX k v) r) = (if kv (ks r) k = None then ROk else RNil)"
  "ks (snd (exec (CSetNX k v) r)) =
     (if kv (ks r) k = None then (ks r)\<lparr>kv := (kv (ks r))(k \<mapsto> RStr v)\<rparr> else ks r)"
  using exec_spec [of "CSetNX k v" r] by (simp_all split: if_splits)

lemma del_spec:
  "fst (exec (CDel kl) r) = RInt (int (card {k \<in> set kl. kv (ks r) k \<noteq> None}))"
  "ks (snd (exec (CDel kl) r)) = (ks r)\<lparr>kv := (\<lambda>k. if k \<in> set kl then None else kv (ks r) k)\<rparr>"
  using exec_spec [of "CDel kl" r] by simp_all

lemma sadd_spec:
  "fst (exec (CSAdd k x) r) =
     (case kv (ks r) k of None \<Rightarrow> RInt 1 | Some (RSet A) \<Rightarrow> RInt (if x \<in> A then 0 else 1)
                        | Some _ \<Rightarrow> wrong_type)"
  "ks (snd (exec (CSAdd k x) r)) =
     (case kv (ks r) k of None \<Rightarrow> (ks r)\<lparr>kv := (kv (ks r))(k \<mapsto> RSet {x})\<rparr>
                        | Some (RSet A) \<Rightarrow> (ks r)\<lparr>kv := (kv (ks r))(k \<mapsto> RSet (insert x A))\<rparr>
                        | Some _ \<Rightarrow> ks r)"
  using exec_spec [of "CSAdd k x" r] by (simp_all split: option.splits rval.splits)

lemma srem_spec:
  "fst (exec (CSRem k x) r) =
     (case kv (ks r) k of None \<Rightarrow> RInt 0 | Some (RSet A) \<Rightarrow> RInt (if x \<in> A then 1 else 0)
                        | Some _ \<Rightarrow> wrong_type)"
  "ks (snd (exec (CSRem k x) r)) =
     (case kv (ks r) k of
        None \<Rightarrow> ks r
      | Some (RSet A) \<Rightarrow>
          (ks r)\<lparr>kv := (kv (ks r))(k := (if A - {x} = {} then None else Some (RSet (A - {x}))))\<rparr>
      | Some _ \<Rightarrow> ks r)"
  using exec_spec [of "CSRem k x" r] by (simp_all split: option.splits rval.splits)

lemma smembers_keeps: "ks (snd (exec (CSMembers k) r)) = ks r"
  using exec_spec [of "CSMembers k" r] by simp

lemma smembers_spec:
  "case kv (ks r) k of
     None \<Rightarrow> fst (exec (CSMembers k) r) = RArr []
   | Some (RSet A) \<Rightarrow> (\<exists>xs. fst (exec (CSMembers k) r) = RArr xs \<and> distinct xs \<and> set xs = A)
   | Some _ \<Rightarrow> fst (exec (CSMembers k) r) = wrong_type"
  using exec_spec [of "CSMembers k" r] by simp

lemma hget_spec:
  "fst (exec (CHGet k f) r) =
     (case kv (ks r) k of
        None \<Rightarrow> RNil
      | Some (RHash h) \<Rightarrow> (case h f of None \<Rightarrow> RNil | Some v \<Rightarrow> RBulk (Text v))
      | Some _ \<Rightarrow> wrong_type)"
  "ks (snd (exec (CHGet k f) r)) = ks r"
  using exec_spec [of "CHGet k f" r] by simp_all

lemma hmget_spec:
  "fst (exec (CHMGet k fs) r) =
     (case kv (ks r) k of
        None \<Rightarrow> RVals (map (\<lambda>_. None) fs)
      | Some (RHash h) \<Rightarrow> RVals (map h fs)
      | Some _ \<Rightarrow> wrong_type)"
  "ks (snd (exec (CHMGet k fs) r)) = ks r"
  using exec_spec [of "CHMGet k fs" r] by simp_all

lemma publish_spec:
  "ks (snd (exec (CPublish ch v) r)) = (ks r)\<lparr>pubs := pubs (ks r) @ [(ch, v)]\<rparr>"
  "\<exists>n. fst (exec (CPublish ch v) r) = RInt (int n)"
  using exec_spec [of "CPublish ch v" r] by simp_all

lemma incr_spec:
  "redis_spec (CIncr k) (ks r) (fst (exec (CIncr k) r)) (ks (snd (exec (CIncr k) r)))"
  by (rule exec_spec)

end

section \<open>Scripts and transactions on the server\<close>

text \<open>
  \<^verbatim>\<open>redis.call\<close> of a Lua script: an error reply aborts the script (what it did before stays).
\<close>

definition redis_call ::
  "(rcmd \<Rightarrow> 'r \<Rightarrow> reply \<times> 'r) \<Rightarrow> rcmd \<Rightarrow> (reply \<Rightarrow> ('r, reply) state) \<Rightarrow> ('r, reply) state" where
  "redis_call ex c k =
     do { r \<leftarrow> State (ex c);
          case r of RErr e \<Rightarrow> ret (RErr e) | _ \<Rightarrow> k r }"

text \<open>\<^verbatim>\<open>MULTI ... EXEC\<close>: every command runs, also after one that failed; the first error is kept.\<close>

fun tx_exec ::
  "(rcmd \<Rightarrow> 'r \<Rightarrow> reply \<times> 'r) \<Rightarrow> rcmd list \<Rightarrow> ('r, goerr option) state" where
  "tx_exec ex [] = ret None"
| "tx_exec ex (c # cs) =
     do { r \<leftarrow> State (ex c);
          e \<leftarrow> tx_exec ex cs;
          ret (case r of RErr m \<Rightarrow> Some (Foreign m) | _ \<Rightarrow> e) }"

lemma wp_case_reply [wp_simps]:
  "wp (case r of RNil \<Rightarrow> a | ROk \<Rightarrow> b | RInt i \<Rightarrow> c i | RBulk v \<Rightarrow> d v | RArr xs \<Rightarrow> e xs
       | RVals vs \<Rightarrow> f vs | RErr m \<Rightarrow> g m) Q s \<longleftrightarrow>
     (case r of RNil \<Rightarrow> wp a Q s | ROk \<Rightarrow> wp b Q s | RInt i \<Rightarrow> wp (c i) Q s | RBulk v \<Rightarrow> wp (d v) Q s
       | RArr xs \<Rightarrow> wp (e xs) Q s | RVals vs \<Rightarrow> wp (f vs) Q s | RErr m \<Rightarrow> wp (g m) Q s)"
  by (cases r) auto

lemma wp_redis_call [wp_simps]:
  "wp (redis_call ex c k) Q s \<longleftrightarrow>
     (case fst (ex c s) of RErr e \<Rightarrow> Q (RErr e) (snd (ex c s)) | r \<Rightarrow> wp (k r) Q (snd (ex c s)))"
  by (cases "fst (ex c s)") (simp_all add: redis_call_def wp_simps)

section \<open>Round trips of a client\<close>

text \<open>The caller's context, or one detached from it with a deadline of its own.\<close>

datatype ctx = Caller | Detached

datatype fault = Delivered | Refused | ReplyLost

record 'r redis_env =
  exec :: "rcmd \<Rightarrow> 'r \<Rightarrow> reply \<times> 'r"
  fault :: "nat \<Rightarrow> fault"
  expired :: "nat \<Rightarrow> bool"
  others :: "nat \<Rightarrow> 'r \<Rightarrow> 'r"

record 'r conn =
  server :: 'r
  calls :: nat

abbreviation ctx_error :: goerr where
  "ctx_error \<equiv> Foreign ''context deadline exceeded''"

abbreviation net_error :: goerr where
  "net_error \<equiv> Foreign ''connection refused''"

definition roundtrip ::
  "'r redis_env \<Rightarrow> ctx \<Rightarrow> ('r, 'a) state \<Rightarrow> ('r conn, goerr + 'a) state" where
  "roundtrip E cx m = State (\<lambda>c.
     let n = calls c; r0 = others E n (server c); (a, r1) = run_state m r0
     in if cx = Caller \<and> expired E n
        then (Inl ctx_error, \<lparr>server = r0, calls = Suc n\<rparr>)
        else (case fault E n of
                Delivered \<Rightarrow> (Inr a, \<lparr>server = r1, calls = Suc n\<rparr>)
              | Refused \<Rightarrow> (Inl net_error, \<lparr>server = r0, calls = Suc n\<rparr>)
              | ReplyLost \<Rightarrow> (Inl net_error, \<lparr>server = r1, calls = Suc n\<rparr>)))"

lemma run_roundtrip:
  "run_state (roundtrip E cx m) c =
     (let n = calls c; r0 = others E n (server c); (a, r1) = run_state m r0
      in if cx = Caller \<and> expired E n
         then (Inl ctx_error, \<lparr>server = r0, calls = Suc n\<rparr>)
         else (case fault E n of
                 Delivered \<Rightarrow> (Inr a, \<lparr>server = r1, calls = Suc n\<rparr>)
               | Refused \<Rightarrow> (Inl net_error, \<lparr>server = r0, calls = Suc n\<rparr>)
               | ReplyLost \<Rightarrow> (Inl net_error, \<lparr>server = r1, calls = Suc n\<rparr>)))"
  by (simp add: roundtrip_def)

text \<open>
  Whatever the environment does, a round trip either answers with what the request returned on
  the server as the environment left it, or fails having left the server untouched or changed by
  the whole request.
\<close>

lemma wp_roundtripI:
  assumes "wp m (\<lambda>a r1. Q (Inr a) \<lparr>server = r1, calls = Suc (calls c)\<rparr> \<and>
                       (\<forall>e. Q (Inl e) \<lparr>server = r1, calls = Suc (calls c)\<rparr>))
             (others E (calls c) (server c))"
    and "\<And>e. Q (Inl e) \<lparr>server = others E (calls c) (server c), calls = Suc (calls c)\<rparr>"
  shows "wp (roundtrip E cx m) Q c"
  using assms by (auto simp: wp_def run_roundtrip Let_def split_beta split: fault.splits)

text \<open>An environment in which nothing fails and nobody else acts.\<close>

definition calm :: "'r redis_env \<Rightarrow> bool" where
  "calm E \<longleftrightarrow> (\<forall>n. fault E n = Delivered \<and> \<not> expired E n \<and> (\<forall>r. others E n r = r))"

lemma wp_roundtrip_calm:
  "calm E \<Longrightarrow> wp (roundtrip E cx m) Q c \<longleftrightarrow>
     wp m (\<lambda>a r1. Q (Inr a) \<lparr>server = r1, calls = Suc (calls c)\<rparr>) (server c)"
  by (simp add: wp_def run_roundtrip Let_def split_beta calm_def)

text \<open>
  A property of the keyspace that the other clients keep and the request keeps, whatever it
  answers, is kept by the round trip.
\<close>

definition rely :: "'r redis_env \<Rightarrow> ('r \<Rightarrow> bool) \<Rightarrow> bool" where
  "rely E I \<longleftrightarrow> (\<forall>n r. I r \<longrightarrow> I (others E n r))"

lemma preserves_roundtrip:
  assumes "rely E I" and "preserves I m"
  shows "preserves (\<lambda>c. I (server c)) (roundtrip E cx m)"
proof (unfold preserves_def, intro allI impI)
  fix c :: "'a conn"
  assume "I (server c)"
  with assms(1) have r0: "I (others E (calls c) (server c))" by (simp add: rely_def)
  with assms(2) have "wp m (\<lambda>_. I) (others E (calls c) (server c))" by (simp add: preserves_def)
  with r0 show "wp (roundtrip E cx m) (\<lambda>_ c. I (server c)) c"
    by (auto intro!: wp_roundtripI elim: wp_mono)
qed

section \<open>A server to evaluate on\<close>

text \<open>
  The commands on a table in memory, as the test double of the repository's own tests has them.
  It shows that the documented behaviour can be met, and it is what the witnesses compute with.
\<close>

datatype mval = MStr bulk | MSet "string list" | MHash "(string \<times> string) list"

record mem =
  tbl :: "string \<rightharpoonup> mval"
  sent :: "(string \<times> bulk) list"

fun mval_rval :: "mval \<Rightarrow> rval" where
  "mval_rval (MStr v) = RStr v"
| "mval_rval (MSet xs) = RSet (set xs)"
| "mval_rval (MHash h) = RHash (map_of h)"

definition mem_ks :: "mem \<Rightarrow> keyspace" where
  "mem_ks m = \<lparr>kv = (\<lambda>k. map_option mval_rval (tbl m k)), pubs = sent m\<rparr>"

definition empty_mem :: mem where
  "empty_mem = \<lparr>tbl = Map.empty, sent = []\<rparr>"

fun mem_exec :: "rcmd \<Rightarrow> mem \<Rightarrow> reply \<times> mem" where
  "mem_exec (CGet k) m =
     (case tbl m k of None \<Rightarrow> RNil | Some (MStr v) \<Rightarrow> RBulk v | Some _ \<Rightarrow> wrong_type, m)"
| "mem_exec (CSet k v) m = (ROk, m\<lparr>tbl := (tbl m)(k \<mapsto> MStr v)\<rparr>)"
| "mem_exec (CSetNX k v) m =
     (case tbl m k of None \<Rightarrow> (ROk, m\<lparr>tbl := (tbl m)(k \<mapsto> MStr v)\<rparr>) | Some _ \<Rightarrow> (RNil, m))"
| "mem_exec (CDel kl) m =
     (RInt (int (length (filter (\<lambda>k. tbl m k \<noteq> None) (remdups kl)))),
      m\<lparr>tbl := (\<lambda>k. if k \<in> set kl then None else tbl m k)\<rparr>)"
| "mem_exec (CSAdd k x) m =
     (case tbl m k of
        None \<Rightarrow> (RInt 1, m\<lparr>tbl := (tbl m)(k \<mapsto> MSet [x])\<rparr>)
      | Some (MSet xs) \<Rightarrow>
          (RInt (if x \<in> set xs then 0 else 1), m\<lparr>tbl := (tbl m)(k \<mapsto> MSet (List.insert x xs))\<rparr>)
      | Some _ \<Rightarrow> (wrong_type, m))"
| "mem_exec (CSRem k x) m =
     (case tbl m k of
        None \<Rightarrow> (RInt 0, m)
      | Some (MSet xs) \<Rightarrow>
          (RInt (if x \<in> set xs then 1 else 0),
           m\<lparr>tbl := (tbl m)(k := (let ys = removeAll x xs in if ys = [] then None else Some (MSet ys)))\<rparr>)
      | Some _ \<Rightarrow> (wrong_type, m))"
| "mem_exec (CSMembers k) m =
     (case tbl m k of None \<Rightarrow> RArr [] | Some (MSet xs) \<Rightarrow> RArr (remdups xs) | Some _ \<Rightarrow> wrong_type, m)"
| "mem_exec (CHGet k f) m =
     (case tbl m k of
        None \<Rightarrow> RNil
      | Some (MHash h) \<Rightarrow> (case map_of h f of None \<Rightarrow> RNil | Some v \<Rightarrow> RBulk (Text v))
      | Some _ \<Rightarrow> wrong_type, m)"
| "mem_exec (CHMGet k fs) m =
     (case tbl m k of
        None \<Rightarrow> RVals (map (\<lambda>_. None) fs)
      | Some (MHash h) \<Rightarrow> RVals (map (map_of h) fs)
      | Some _ \<Rightarrow> wrong_type, m)"
| "mem_exec (CIncr k) m =
     (case tbl m k of
        None \<Rightarrow> (RInt 1, m\<lparr>tbl := (tbl m)(k \<mapsto> MStr (Text (dec_int 1)))\<rparr>)
      | Some (MStr (Text t)) \<Rightarrow>
          (case atoi t of
             None \<Rightarrow> (RErr ''ERR value is not an integer or out of range'', m)
           | Some i \<Rightarrow>
               if in_int64 (i + 1)
               then (RInt (i + 1), m\<lparr>tbl := (tbl m)(k \<mapsto> MStr (Text (dec_int (i + 1))))\<rparr>)
               else (RErr ''ERR increment or decrement would overflow'', m))
      | Some (MStr (Json _)) \<Rightarrow> (RErr ''ERR value is not an integer or out of range'', m)
      | Some _ \<Rightarrow> (wrong_type, m))"
| "mem_exec (CPublish ch v) m = (RInt 0, m\<lparr>sent := sent m @ [(ch, v)]\<rparr>)"

lemma mem_kv [simp]: "kv (mem_ks m) k = map_option mval_rval (tbl m k)"
  by (simp add: mem_ks_def)

lemma card_filter_set: "card {k \<in> set xs. P k} = length (filter P (remdups xs))"
proof -
  have "{k \<in> set xs. P k} = set (filter P (remdups xs))" by auto
  then show ?thesis using distinct_card [of "filter P (remdups xs)"] by simp
qed

lemma mem_upd: "mem_ks (m\<lparr>tbl := (tbl m)(k \<mapsto> v)\<rparr>) =
    (mem_ks m)\<lparr>kv := (kv (mem_ks m))(k \<mapsto> mval_rval v)\<rparr>"
  by (auto simp: mem_ks_def fun_eq_iff)

lemma mem_exec_spec: "redis_spec c (mem_ks m) (fst (mem_exec c m)) (mem_ks (snd (mem_exec c m)))"
proof (cases c)
  case (CDel kl)
  then show ?thesis by (auto simp: mem_ks_def fun_eq_iff card_filter_set)
next
  case (CSAdd k x)
  then show ?thesis by (auto simp: mem_ks_def fun_eq_iff split: option.split mval.split)
next
  case (CSRem k x)
  have *: "set xs \<subseteq> {x} \<Longrightarrow> xs \<noteq> [] \<Longrightarrow> x \<in> set xs" for xs
    by (cases xs) auto
  have **: "removeAll x xs = [] \<longleftrightarrow> set xs - {x} = {}" for xs
    using set_removeAll [of x xs] by (metis set_empty)
  show ?thesis
    using CSRem by (auto simp: mem_ks_def fun_eq_iff Let_def ** dest: * split: option.split mval.split)
next
  case (CIncr k)
  then show ?thesis
    by (auto simp: mem_ks_def fun_eq_iff split: option.split mval.split bulk.split)
qed (auto simp: mem_ks_def fun_eq_iff split: option.split mval.split)

interpretation mem: redis_server mem_exec mem_ks
  by unfold_locales (rule mem_exec_spec)

definition calm_env :: "mem redis_env" where
  "calm_env = \<lparr>exec = mem_exec, fault = (\<lambda>_. Delivered), expired = (\<lambda>_. False), others = (\<lambda>_ m. m)\<rparr>"

lemma calm_calm_env [simp]: "calm calm_env"
  by (simp add: calm_def calm_env_def)

lemma exec_calm_env [simp]: "exec calm_env = mem_exec"
  by (simp add: calm_env_def)

end
