(* ===== verification/Vm_Resources.thy ===== *)
theory Vm_Resources
  imports Go_Strings
begin

text \<open>
  Sizes and purchasable resources of a microVM (\<^verbatim>\<open>internal/vm/manager.go\<close>, lines 108--177): the
  machine a size stands for, the overrides a user's credit can buy, their clamping, and the Kata
  annotations that carry the result to the hypervisor.
\<close>

record resources =
  MemoryMiB :: "32 word"
  VCPUs :: "32 word"
  ResDiskMiB :: "64 word"

definition no_resources :: resources where
  "no_resources = \<lparr>MemoryMiB = 0, VCPUs = 0, ResDiskMiB = 0\<rparr>"

definition MaxMemoryMiB :: "32 word" where "MaxMemoryMiB = 16 * 1024"
definition MaxVCPUs :: "32 word" where "MaxVCPUs = 4"
definition MaxDiskMiB :: "64 word" where "MaxDiskMiB = 50 * 1024"

definition Clamp :: "resources \<Rightarrow> resources" where
  "Clamp r = r\<lparr>MemoryMiB := min (MemoryMiB r) MaxMemoryMiB,
               VCPUs := min (VCPUs r) MaxVCPUs,
               ResDiskMiB := min (ResDiskMiB r) MaxDiskMiB\<rparr>"

record machineResources =
  memoryMiB :: "32 word"
  vCPUs :: "32 word"

definition machineResourcesForSize :: "string \<Rightarrow> machineResources" where
  "machineResourcesForSize sz =
     (if sz = ''small'' then \<lparr>memoryMiB = 256, vCPUs = 1\<rparr>
      else if sz = ''large'' then \<lparr>memoryMiB = 1024, vCPUs = 2\<rparr>
      else if sz = ''xlarge'' then \<lparr>memoryMiB = 2048, vCPUs = 4\<rparr>
      else \<lparr>memoryMiB = 512, vCPUs = 1\<rparr>)"

definition machineResourcesFor :: "string \<Rightarrow> resources \<Rightarrow> machineResources" where
  "machineResourcesFor sz r =
     (let m = machineResourcesForSize sz
      in m\<lparr>memoryMiB := max (memoryMiB m) (MemoryMiB r), vCPUs := max (vCPUs m) (VCPUs r)\<rparr>)"

definition MemoryFor :: "string \<Rightarrow> resources \<Rightarrow> 32 word" where
  "MemoryFor sz r = memoryMiB (machineResourcesFor sz r)"

definition kataDefaultVCPUsAnnotation :: string where
  "kataDefaultVCPUsAnnotation = ''io.katacontainers.config.hypervisor.default_vcpus''"
definition kataDefaultMaxVCPUsAnnotation :: string where
  "kataDefaultMaxVCPUsAnnotation = ''io.katacontainers.config.hypervisor.default_max_vcpus''"
definition kataDefaultMemoryAnnotation :: string where
  "kataDefaultMemoryAnnotation = ''io.katacontainers.config.hypervisor.default_memory''"

definition machineResourceAnnotations :: "string \<Rightarrow> resources \<Rightarrow> string \<rightharpoonup> string" where
  "machineResourceAnnotations sz r =
     (let m = machineResourcesFor sz r; cpus = dec_nat (unat (vCPUs m))
      in [kataDefaultVCPUsAnnotation \<mapsto> cpus,
          kataDefaultMaxVCPUsAnnotation \<mapsto> cpus,
          kataDefaultMemoryAnnotation \<mapsto> dec_nat (unat (memoryMiB m))])"

section \<open>Facts\<close>

lemma Clamp_idem [simp]: "Clamp (Clamp r) = Clamp r"
  by (simp add: Clamp_def)

lemma Clamp_le:
  "MemoryMiB (Clamp r) \<le> MaxMemoryMiB" "VCPUs (Clamp r) \<le> MaxVCPUs"
  "ResDiskMiB (Clamp r) \<le> MaxDiskMiB"
  by (simp_all add: Clamp_def)

lemma machineResourcesForSize_cases:
  "machineResourcesForSize sz \<in>
     {\<lparr>memoryMiB = 256, vCPUs = 1\<rparr>, \<lparr>memoryMiB = 512, vCPUs = 1\<rparr>,
      \<lparr>memoryMiB = 1024, vCPUs = 2\<rparr>, \<lparr>memoryMiB = 2048, vCPUs = 4\<rparr>}"
  by (simp add: machineResourcesForSize_def)

lemma size_memory_bounds:
  "256 \<le> memoryMiB (machineResourcesForSize sz)"
  "memoryMiB (machineResourcesForSize sz) \<le> MaxMemoryMiB"
  "1 \<le> vCPUs (machineResourcesForSize sz)"
  "vCPUs (machineResourcesForSize sz) \<le> MaxVCPUs"
  by (simp_all add: machineResourcesForSize_def MaxMemoryMiB_def MaxVCPUs_def)

lemma annotation_names_distinct [simp]:
  "kataDefaultVCPUsAnnotation \<noteq> kataDefaultMaxVCPUsAnnotation"
  "kataDefaultVCPUsAnnotation \<noteq> kataDefaultMemoryAnnotation"
  "kataDefaultMaxVCPUsAnnotation \<noteq> kataDefaultMemoryAnnotation"
  by (simp_all add: kataDefaultVCPUsAnnotation_def kataDefaultMaxVCPUsAnnotation_def
      kataDefaultMemoryAnnotation_def)

text \<open>
  The machine of every size with every purchasable override is one that Kata accepts and that
  the host sells: memory between Kata's minimum of 256 MiB and the ceiling of 16 GiB, one to four
  virtual CPUs, never less than what the size alone gives.
\<close>

theorem machine_within_limits:
  fixes sz :: string and r :: resources
  defines "m \<equiv> machineResourcesFor sz (Clamp r)"
  shows "256 \<le> memoryMiB m \<and> memoryMiB m \<le> MaxMemoryMiB \<and> 1 \<le> vCPUs m \<and> vCPUs m \<le> MaxVCPUs \<and>
         memoryMiB (machineResourcesForSize sz) \<le> memoryMiB m \<and>
         vCPUs (machineResourcesForSize sz) \<le> vCPUs m \<and>
         MemoryFor sz (Clamp r) = memoryMiB m"
  using size_memory_bounds [of sz] Clamp_le [of r]
  unfolding m_def MemoryFor_def machineResourcesFor_def Let_def
  by (auto simp: le_max_iff_disj)

text \<open>
  C40. What the hypervisor reads back from the annotations is the machine that was computed: the
  default and the maximum number of CPUs agree, and both numbers survive the decimal encoding.
\<close>

theorem annotations_roundtrip:
  "map_option atoi (machineResourceAnnotations sz r kataDefaultVCPUsAnnotation) =
     Some (Some (int (unat (vCPUs (machineResourcesFor sz r)))))
   \<and> machineResourceAnnotations sz r kataDefaultMaxVCPUsAnnotation =
     machineResourceAnnotations sz r kataDefaultVCPUsAnnotation
   \<and> map_option atoi (machineResourceAnnotations sz r kataDefaultMemoryAnnotation) =
     Some (Some (int (unat (MemoryFor sz r))))"
proof -
  have "in_int64 (uint (w :: 32 word))" for w
    using unsigned_less [of w, where ?'a = int]
    by (simp add: in_int64_def order_trans [OF _ unsigned_greater_eq])
  then have "atoi (dec_nat (unat (w :: 32 word))) = Some (uint w)" for w
    using atoi_dec_nat [of "unat w"] by simp
  then show ?thesis
    by (simp add: machineResourceAnnotations_def Let_def MemoryFor_def)
qed

end
