(* ===== verification/Sandbox_Record.thy ===== *)
theory Sandbox_Record
  imports Redis Vm_Resources
begin

text \<open>
  The inventory record of \<^verbatim>\<open>internal/store/store.go\<close> (lines 14--79): the lifecycle states, the
  record itself, which states count against the quota, and the wire format its struct tags define
  (\<^verbatim>\<open>json.Marshal\<close> and \<^verbatim>\<open>json.Unmarshal\<close> on the syntax tree of the JSON text). Field names of an
  object are matched exactly; of repeated names the last one counts. A \<^verbatim>\<open>float64\<close> is a rational
  number and an \<^verbatim>\<open>int64\<close> a 64-bit word read as two's complement.
\<close>

type_synonym i64 = "64 word"

definition StateCreating :: string where "StateCreating = ''creating''"
definition StateRunning :: string where "StateRunning = ''running''"
definition StateTerminating :: string where "StateTerminating = ''terminating''"
definition StateError :: string where "StateError = ''error''"

record sandbox =
  ID :: string
  UserID :: string
  Template :: string
  Size :: string
  Kind :: string
  SbState :: string
  IPAddress :: string
  CostPerMin :: rat
  SbResources :: resources
  DiskMiB :: "64 word"
  Error :: string
  DeviceID :: string
  CreatedAt :: i64
  LastActivity :: i64
  SSHConnections :: i64

definition IsActive :: "sandbox \<Rightarrow> bool" where
  "IsActive s \<longleftrightarrow> SbState s = StateRunning \<or> SbState s = StateCreating \<or> SbState s = StateTerminating"

record identity =
  IdUserID :: string
  Role :: string
  IsAnonymous :: bool
  ScopeUserID :: string

definition IsAdmin :: "identity \<Rightarrow> bool" where
  "IsAdmin i \<longleftrightarrow> Role i = ''admin''"

lemma state_names_distinct [simp]:
  "StateCreating \<noteq> StateRunning" "StateRunning \<noteq> StateCreating"
  "StateCreating \<noteq> StateTerminating" "StateTerminating \<noteq> StateCreating"
  "StateCreating \<noteq> StateError" "StateError \<noteq> StateCreating"
  "StateRunning \<noteq> StateTerminating" "StateTerminating \<noteq> StateRunning"
  "StateRunning \<noteq> StateError" "StateError \<noteq> StateRunning"
  "StateTerminating \<noteq> StateError" "StateError \<noteq> StateTerminating"
  by (simp_all add: StateCreating_def StateRunning_def StateTerminating_def StateError_def)

section \<open>Encoding\<close>

type_synonym fields = "(string \<times> json) list"

definition enc_json :: "string \<Rightarrow> json \<Rightarrow> fields" where
  "enc_json name j = [(name, j)]"

definition enc_str :: "string \<Rightarrow> string \<Rightarrow> fields" where
  "enc_str name s = [(name, JStr s)]"

text \<open>A field with the tag \<^verbatim>\<open>omitempty\<close>.\<close>

definition omit_str :: "string \<Rightarrow> string \<Rightarrow> fields" where
  "omit_str name s = (if s = [] then [] else [(name, JStr s)])"

definition omit_uint :: "string \<Rightarrow> 'a::len word \<Rightarrow> fields" where
  "omit_uint name w = (if w = 0 then [] else [(name, JInt (uint w))])"

definition omit_int :: "string \<Rightarrow> i64 \<Rightarrow> fields" where
  "omit_int name w = (if w = 0 then [] else [(name, JInt (sint w))])"

definition resources_json :: "resources \<Rightarrow> json" where
  "resources_json r = JObj
     (omit_uint ''memory_mib'' (MemoryMiB r) @ omit_uint ''vcpus'' (VCPUs r) @
      omit_uint ''disk_mib'' (ResDiskMiB r))"

definition sandbox_json :: "sandbox \<Rightarrow> json" where
  "sandbox_json s = JObj
     (enc_str ''id'' (ID s) @ enc_str ''user_id'' (UserID s) @ enc_str ''template'' (Template s) @
      enc_str ''size'' (Size s) @ enc_str ''kind'' (Kind s) @ enc_str ''state'' (SbState s) @
      omit_str ''ip_address'' (IPAddress s) @
      enc_json ''cost_per_minute'' (JDec (CostPerMin s)) @
      enc_json ''resources'' (resources_json (SbResources s)) @
      omit_uint ''disk_mib'' (DiskMiB s) @ omit_str ''error'' (Error s) @
      omit_str ''device_id'' (DeviceID s) @
      enc_json ''created_at'' (JInt (sint (CreatedAt s))) @
      enc_json ''last_activity'' (JInt (sint (LastActivity s))) @
      omit_int ''ssh_connections'' (SSHConnections s))"

section \<open>Decoding\<close>

text \<open>
  Each decoder returns the zero value for a field that is missing or \<^verbatim>\<open>null\<close>, and fails on a value
  of another type or out of the field's range.
\<close>

definition json_field :: "string \<Rightarrow> fields \<Rightarrow> json option" where
  "json_field name ob = map_of (rev ob) name"

definition dec_str :: "string \<Rightarrow> fields \<Rightarrow> string option" where
  "dec_str name ob =
     (case json_field name ob of
        None \<Rightarrow> Some [] | Some JNull \<Rightarrow> Some [] | Some (JStr s) \<Rightarrow> Some s | _ \<Rightarrow> None)"

definition dec_uint :: "string \<Rightarrow> fields \<Rightarrow> 'a::len word option" where
  "dec_uint name ob =
     (case json_field name ob of
        None \<Rightarrow> Some 0 | Some JNull \<Rightarrow> Some 0
      | Some (JInt i) \<Rightarrow> if 0 \<le> i \<and> i < 2 ^ LENGTH('a) then Some (word_of_int i) else None
      | _ \<Rightarrow> None)"

definition dec_i64 :: "string \<Rightarrow> fields \<Rightarrow> i64 option" where
  "dec_i64 name ob =
     (case json_field name ob of
        None \<Rightarrow> Some 0 | Some JNull \<Rightarrow> Some 0
      | Some (JInt i) \<Rightarrow> if in_int64 i then Some (word_of_int i) else None
      | _ \<Rightarrow> None)"

definition dec_float :: "string \<Rightarrow> fields \<Rightarrow> rat option" where
  "dec_float name ob =
     (case json_field name ob of
        None \<Rightarrow> Some 0 | Some JNull \<Rightarrow> Some 0
      | Some (JDec q) \<Rightarrow> Some q | Some (JInt i) \<Rightarrow> Some (of_int i) | _ \<Rightarrow> None)"

definition dec_resources :: "string \<Rightarrow> fields \<Rightarrow> resources option" where
  "dec_resources name ob =
     (case json_field name ob of
        None \<Rightarrow> Some no_resources | Some JNull \<Rightarrow> Some no_resources
      | Some (JObj r) \<Rightarrow> do {
          mem \<leftarrow> dec_uint ''memory_mib'' r;
          cpu \<leftarrow> dec_uint ''vcpus'' r;
          disk \<leftarrow> dec_uint ''disk_mib'' r;
          Some \<lparr>MemoryMiB = mem, VCPUs = cpu, ResDiskMiB = disk\<rparr> }
      | _ \<Rightarrow> None)"

definition sandbox_of_fields :: "fields \<Rightarrow> sandbox option" where
  "sandbox_of_fields ob = do {
     i \<leftarrow> dec_str ''id'' ob;
     u \<leftarrow> dec_str ''user_id'' ob;
     t \<leftarrow> dec_str ''template'' ob;
     sz \<leftarrow> dec_str ''size'' ob;
     k \<leftarrow> dec_str ''kind'' ob;
     st \<leftarrow> dec_str ''state'' ob;
     ip \<leftarrow> dec_str ''ip_address'' ob;
     cost \<leftarrow> dec_float ''cost_per_minute'' ob;
     res \<leftarrow> dec_resources ''resources'' ob;
     disk \<leftarrow> dec_uint ''disk_mib'' ob;
     er \<leftarrow> dec_str ''error'' ob;
     dev \<leftarrow> dec_str ''device_id'' ob;
     cr \<leftarrow> dec_i64 ''created_at'' ob;
     la \<leftarrow> dec_i64 ''last_activity'' ob;
     ssh \<leftarrow> dec_i64 ''ssh_connections'' ob;
     Some \<lparr>ID = i, UserID = u, Template = t, Size = sz, Kind = k, SbState = st, IPAddress = ip,
           CostPerMin = cost, SbResources = res, DiskMiB = disk, Error = er, DeviceID = dev,
           CreatedAt = cr, LastActivity = la, SSHConnections = ssh\<rparr> }"

definition unmarshal_sandbox :: "bulk \<Rightarrow> sandbox option" where
  "unmarshal_sandbox v = (case v of Json (JObj ob) \<Rightarrow> sandbox_of_fields ob | _ \<Rightarrow> None)"

section \<open>The codec is lossless\<close>

lemma json_field_append:
  "json_field n (xs @ ys) = (case json_field n ys of None \<Rightarrow> json_field n xs | Some v \<Rightarrow> Some v)"
  by (simp add: json_field_def map_add_def split: option.split)

lemma json_field_segments:
  "json_field n [] = None"
  "json_field n (enc_json m v) = (if n = m then Some v else None)"
  "json_field n (enc_str m s) = (if n = m then Some (JStr s) else None)"
  "json_field n (omit_str m s) = (if n = m \<and> s \<noteq> [] then Some (JStr s) else None)"
  "json_field n (omit_uint m w) = (if n = m \<and> w \<noteq> 0 then Some (JInt (uint w)) else None)"
  "json_field n (omit_int m x) = (if n = m \<and> x \<noteq> 0 then Some (JInt (sint x)) else None)"
  by (simp_all add: json_field_def enc_json_def enc_str_def omit_str_def omit_uint_def omit_int_def)

lemmas json_fields = json_field_append json_field_segments

lemma in_int64_sint [simp]: "in_int64 (sint (w :: i64))"
  using sint_lt [of w] sint_ge [of w] by (simp add: in_int64_def)

lemma uint_range: "0 \<le> uint (w :: 'a::len word) \<and> uint w < 2 ^ LENGTH('a)"
  by simp

lemma dec_resources_json:
  "json_field name ob = Some (resources_json r) \<Longrightarrow> dec_resources name ob = Some r"
  using uint_range [of "MemoryMiB r"] uint_range [of "VCPUs r"] uint_range [of "ResDiskMiB r"]
  by (simp add: dec_resources_def resources_json_def dec_uint_def json_fields)

lemma unmarshal_marshal: "unmarshal_sandbox (Json (sandbox_json s)) = Some s"
  using uint_range [of "DiskMiB s"]
  by (simp add: unmarshal_sandbox_def sandbox_json_def sandbox_of_fields_def dec_str_def
      dec_i64_def dec_float_def dec_uint_def dec_resources_json json_fields)

end
