(* ===== verification/Store.thy ===== *)
theory Store
  imports Sandbox_Record
begin

text \<open>
  \<^verbatim>\<open>internal/store/store.go\<close>: the operations of \<^verbatim>\<open>Store\<close>, each a program over the connection to
  the server of theory \<open>Redis\<close>. A definition has the name of its Go method. Methods take the
  environment \<open>E\<close> (what the server and the network do) and the context they run under. A method
  that returns only an \<^verbatim>\<open>error\<close> has a result of type \<open>goerr option\<close>, one that returns a value and an
  error a sum; a nil pointer is \<open>None\<close>. The Lua scripts are programs over the server state, in the
  order of their lines, with their \<^verbatim>\<open>KEYS\<close> and \<^verbatim>\<open>ARGV\<close> as arguments.
\<close>

section \<open>Keys\<close>

definition rec_key :: "string \<Rightarrow> string" where "rec_key i = ''sandbox:'' @ i"
definition user_key :: "string \<Rightarrow> string" where "user_key u = ''sandbox:user:'' @ u"
definition slot_key :: "string \<Rightarrow> string" where "slot_key u = ''sandbox:user-slot:'' @ u"
definition sshPortKey :: "string \<Rightarrow> string" where "sshPortKey i = ''sandbox:ssh-port:'' @ i"
definition eventsChannel :: "string \<Rightarrow> string" where "eventsChannel u = ''sandbox:events:'' @ u"
definition allKey :: string where "allKey = ''sandbox:all''"
definition activeKey :: string where "activeKey = ''sandbox:active''"
definition createdKey :: string where "createdKey = ''stats:sandbox:created''"

section \<open>Single commands of the client\<close>

text \<open>
  \<^verbatim>\<open>rdb.Get(...)\<close>: \<open>redis.Nil\<close> is \<open>Inr None\<close>. The other commands are read in the same way.
\<close>

definition rdb_do :: "'r redis_env \<Rightarrow> ctx \<Rightarrow> rcmd \<Rightarrow> ('r conn, goerr + reply) state" where
  "rdb_do E cx c =
     do { r \<leftarrow> roundtrip E cx (State (exec E c));
          ret (case r of Inl e \<Rightarrow> Inl e | Inr (RErr m) \<Rightarrow> Inl (Foreign m) | Inr rep \<Rightarrow> Inr rep) }"

definition bad_reply :: goerr where
  "bad_reply = Foreign ''redis: unexpected type''"

definition rdb_get :: "'r redis_env \<Rightarrow> ctx \<Rightarrow> string \<Rightarrow> ('r conn, goerr + bulk option) state" where
  "rdb_get E cx k =
     do { r \<leftarrow> rdb_do E cx (CGet k);
          ret (case r of Inl e \<Rightarrow> Inl e | Inr RNil \<Rightarrow> Inr None | Inr (RBulk v) \<Rightarrow> Inr (Some v)
                       | Inr _ \<Rightarrow> Inl bad_reply) }"

definition rdb_err :: "'r redis_env \<Rightarrow> ctx \<Rightarrow> rcmd \<Rightarrow> ('r conn, goerr option) state" where
  "rdb_err E cx c =
     do { r \<leftarrow> rdb_do E cx c; ret (case r of Inl e \<Rightarrow> Some e | Inr _ \<Rightarrow> None) }"

definition rdb_smembers :: "'r redis_env \<Rightarrow> ctx \<Rightarrow> string \<Rightarrow> ('r conn, goerr + string list) state" where
  "rdb_smembers E cx k =
     do { r \<leftarrow> rdb_do E cx (CSMembers k);
          ret (case r of Inl e \<Rightarrow> Inl e | Inr (RArr xs) \<Rightarrow> Inr xs | Inr _ \<Rightarrow> Inl bad_reply) }"

text \<open>\<^verbatim>\<open>HMGet\<close> of two fields; \<^verbatim>\<open>v.(string)\<close> of a missing field is the empty string.\<close>

definition rdb_hmget2 ::
  "'r redis_env \<Rightarrow> ctx \<Rightarrow> string \<Rightarrow> string \<Rightarrow> string \<Rightarrow> ('r conn, goerr + string \<times> string) state" where
  "rdb_hmget2 E cx k f g =
     do { r \<leftarrow> rdb_do E cx (CHMGet k [f, g]);
          ret (case r of
                 Inl e \<Rightarrow> Inl e
               | Inr (RVals [a, b]) \<Rightarrow> Inr (case_option [] id a, case_option [] id b)
               | Inr _ \<Rightarrow> Inl bad_reply) }"

text \<open>\<^verbatim>\<open>anon, _ := HGet(...).Result()\<close>: the empty string on any error.\<close>

definition rdb_hget_or_empty :: "'r redis_env \<Rightarrow> ctx \<Rightarrow> string \<Rightarrow> string \<Rightarrow> ('r conn, string) state" where
  "rdb_hget_or_empty E cx k f =
     do { r \<leftarrow> rdb_do E cx (CHGet k f);
          ret (case r of Inr (RBulk (Text s)) \<Rightarrow> s | _ \<Rightarrow> []) }"

text \<open>A script run through the client, for its integer reply: \<^verbatim>\<open>script.Run(...).Int()\<close>.\<close>

definition run_script :: "'r redis_env \<Rightarrow> ctx \<Rightarrow> ('r, reply) state \<Rightarrow> ('r conn, goerr + int) state" where
  "run_script E cx sc =
     do { r \<leftarrow> roundtrip E cx sc;
          ret (case r of Inl e \<Rightarrow> Inl e | Inr (RErr m) \<Rightarrow> Inl (Foreign m) | Inr (RInt i) \<Rightarrow> Inr i
                       | Inr _ \<Rightarrow> Inl bad_reply) }"

section \<open>Identity\<close>

definition mk_identity :: "string \<Rightarrow> string \<Rightarrow> bool \<Rightarrow> identity" where
  "mk_identity u r a = \<lparr>IdUserID = u, Role = r, IsAnonymous = a, ScopeUserID = []\<rparr>"

definition strip_signature :: "string \<Rightarrow> string" where
  "strip_signature tok = takeWhile (\<lambda>c. c \<noteq> CHR ''.'') tok"

text \<open>
  The third source, a Better Auth session. \<open>parse_time\<close> is \<^verbatim>\<open>time.Parse(time.RFC3339, _)\<close> and \<open>now\<close>
  the clock, both in the same unit.
\<close>

definition resolve_session ::
  "'r redis_env \<Rightarrow> ctx \<Rightarrow> (string \<Rightarrow> int option) \<Rightarrow> int \<Rightarrow> string \<Rightarrow>
   ('r conn, goerr + identity option) state" where
  "resolve_session E cx parse_time now tok =
     do { sids \<leftarrow> rdb_smembers E cx (''session:idx:token:'' @ tok);
          case sids of
            Inl e \<Rightarrow> ret (Inl e)
          | Inr [] \<Rightarrow> ret (Inr None)
          | Inr (sid # _) \<Rightarrow>
              do { vals \<leftarrow> rdb_hmget2 E cx (''session:'' @ sid) ''userId'' ''expiresAt'';
                   case vals of
                     Inl e \<Rightarrow> ret (Inl e)
                   | Inr (uid, expiry) \<Rightarrow>
                       if uid = [] then ret (Inr None)
                       else if expiry \<noteq> [] \<and> (case parse_time expiry of None \<Rightarrow> False | Some t \<Rightarrow> t < now)
                       then ret (Inr None)
                       else do { anon \<leftarrow> rdb_hget_or_empty E cx (''user:'' @ uid) ''isAnonymous'';
                                 ret (Inr (Some (mk_identity uid ''user'' (anon = ''1'')))) } } }"

definition resolve_apikey ::
  "'r redis_env \<Rightarrow> ctx \<Rightarrow> string \<Rightarrow> ('r conn, identity option) state" where
  "resolve_apikey E cx tok =
     do { vals \<leftarrow> rdb_hmget2 E cx (''apikey:'' @ tok) ''userId'' ''role'';
          ret (case vals of
                 Inl _ \<Rightarrow> None
               | Inr (uid, role) \<Rightarrow>
                   if uid = [] then None
                   else Some (mk_identity uid (if role = [] then ''user'' else role) False)) }"

definition ResolveIdentity ::
  "'r redis_env \<Rightarrow> ctx \<Rightarrow> (string \<Rightarrow> int option) \<Rightarrow> int \<Rightarrow> string \<Rightarrow>
   ('r conn, goerr + identity option) state" where
  "ResolveIdentity E cx parse_time now token =
     (let tok = strip_signature token in
      do { r \<leftarrow> rdb_get E cx (''resource:token:'' @ tok);
           case r of
             Inl e \<Rightarrow> ret (Inl e)
           | Inr (Some (Json _)) \<Rightarrow> ret (Inl bad_reply)
           | Inr v \<Rightarrow>
               (case v of
                  Some (Text (c # cs)) \<Rightarrow> ret (Inr (Some (mk_identity (c # cs) ''user'' False)))
                | _ \<Rightarrow>
                    do { a \<leftarrow> resolve_apikey E cx tok;
                         case a of
                           Some i \<Rightarrow> ret (Inr (Some i))
                         | None \<Rightarrow> resolve_session E cx parse_time now tok }) })"

section \<open>Inventory\<close>

definition marshal :: "sandbox \<Rightarrow> bulk" where
  "marshal sb = Json (sandbox_json sb)"

text \<open>The transaction of \<^verbatim>\<open>Put\<close>, with the JSON text \<open>js\<close> of the record.\<close>

definition putTx :: "(rcmd \<Rightarrow> 'r \<Rightarrow> reply \<times> 'r) \<Rightarrow> sandbox \<Rightarrow> bulk \<Rightarrow> ('r, goerr option) state" where
  "putTx ex sb js = tx_exec ex
     [CSet (rec_key (ID sb)) js,
      CSAdd (user_key (UserID sb)) (ID sb),
      CSAdd allKey (ID sb),
      (if IsActive sb then CSAdd activeKey (ID sb) else CSRem activeKey (ID sb)),
      CPublish (eventsChannel (UserID sb)) js]"

definition Put :: "'r redis_env \<Rightarrow> ctx \<Rightarrow> sandbox \<Rightarrow> ('r conn, goerr option) state" where
  "Put E cx sb =
     (let js = marshal (sb\<lparr>SSHConnections := 0\<rparr>) in
      do { r \<leftarrow> roundtrip E cx (putTx (exec E) sb js);
           ret (case r of Inl e \<Rightarrow> Some e | Inr e \<Rightarrow> e) })"

text \<open>\<^verbatim>\<open>cjson.decode(record).state\<close>: a script error when the value is no JSON object.\<close>

definition cjson_state :: "bulk \<Rightarrow> json option option" where
  "cjson_state v = (case v of Json (JObj ob) \<Rightarrow> Some (json_field ''state'' ob) | _ \<Rightarrow> None)"

definition putRunning ::
  "(rcmd \<Rightarrow> 'r \<Rightarrow> reply \<times> 'r) \<Rightarrow> string \<Rightarrow> string \<Rightarrow> string \<Rightarrow> bulk \<Rightarrow> bulk \<Rightarrow> ('r, reply) state" where
  "putRunning ex k1 k2 k3 a1 a2 =
     redis_call ex (CGet k1) (\<lambda>slot.
       if slot \<noteq> RBulk a1 then ret (RInt 0)
       else redis_call ex (CGet k2) (\<lambda>rec.
         case rec of
           RBulk v \<Rightarrow>
             (case cjson_state v of
                None \<Rightarrow> ret (RErr ''ERR cjson.decode'')
              | Some st \<Rightarrow>
                  if st \<noteq> Some (JStr StateCreating) then ret (RInt 0)
                  else redis_call ex (CSet k2 a2) (\<lambda>_.
                       redis_call ex (CPublish k3 a2) (\<lambda>_. ret (RInt 1))))
         | _ \<Rightarrow> ret (RInt 0)))"

definition PutRunning :: "'r redis_env \<Rightarrow> ctx \<Rightarrow> sandbox \<Rightarrow> ('r conn, goerr option) state" where
  "PutRunning E cx sb =
     (let js = marshal (sb\<lparr>SSHConnections := 0\<rparr>) in
      do { n \<leftarrow> run_script E cx (putRunning (exec E) (slot_key (UserID sb)) (rec_key (ID sb))
                                  (eventsChannel (UserID sb)) (Text (ID sb)) js);
           ret (case n of
                  Inl e \<Rightarrow> Some e
                | Inr i \<Rightarrow> if i = 0
                           then Some (Foreign (''sandbox '' @ ID sb @ '' was deleted during creation''))
                           else None) })"

definition Get :: "'r redis_env \<Rightarrow> ctx \<Rightarrow> string \<Rightarrow> ('r conn, goerr + sandbox option) state" where
  "Get E cx i =
     do { js \<leftarrow> rdb_get E cx (rec_key i);
          ret (case js of
                 Inl e \<Rightarrow> Inl e
               | Inr None \<Rightarrow> Inr None
               | Inr (Some v) \<Rightarrow>
                   (case unmarshal_sandbox v of
                      None \<Rightarrow> Inl (Foreign ''json: cannot unmarshal'')
                    | Some sb \<Rightarrow> Inr (Some (if Kind sb = [] then sb\<lparr>Kind := ''vm''\<rparr> else sb)))) }"

definition deleteSandbox ::
  "(rcmd \<Rightarrow> 'r \<Rightarrow> reply \<times> 'r) \<Rightarrow> string \<Rightarrow> string \<Rightarrow> string \<Rightarrow> string \<Rightarrow> string \<Rightarrow> string \<Rightarrow> string \<Rightarrow>
   string \<Rightarrow> bulk \<Rightarrow> ('r, reply) state" where
  "deleteSandbox ex k1 k2 k3 k4 k5 k6 k7 a1 a2 =
     redis_call ex (CDel [k1, k2]) (\<lambda>_.
     redis_call ex (CSRem k3 a1) (\<lambda>_.
     redis_call ex (CSRem k4 a1) (\<lambda>_.
     redis_call ex (CSRem k5 a1) (\<lambda>_.
     redis_call ex (CGet k6) (\<lambda>slot.
       (if slot = RBulk (Text a1) then redis_call ex (CDel [k6]) else (\<lambda>k. k RNil)) (\<lambda>_.
     redis_call ex (CPublish k7 a2) (\<lambda>_. ret (RInt 1))))))))"

definition deleted_event :: "string \<Rightarrow> string \<Rightarrow> bulk" where
  "deleted_event i u = Json (JObj [(''deleted'', JBool True), (''id'', JStr i), (''user_id'', JStr u)])"

definition Delete :: "'r redis_env \<Rightarrow> ctx \<Rightarrow> string \<Rightarrow> ('r conn, goerr option) state" where
  "Delete E cx i =
     do { g \<leftarrow> Get E cx i;
          case g of
            Inl e \<Rightarrow> ret (Some e)
          | Inr None \<Rightarrow> ret None
          | Inr (Some sb) \<Rightarrow>
              do { r \<leftarrow> run_script E cx (deleteSandbox (exec E) (rec_key i) (sshPortKey i) activeKey
                          (user_key (UserID sb)) allKey (slot_key (UserID sb))
                          (eventsChannel (UserID sb)) i (deleted_event i (UserID sb)));
                   ret (case r of Inl e \<Rightarrow> Some e | Inr _ \<Rightarrow> None) } }"

definition SetSSHPort :: "'r redis_env \<Rightarrow> ctx \<Rightarrow> string \<Rightarrow> int \<Rightarrow> ('r conn, goerr option) state" where
  "SetSSHPort E cx i port = rdb_err E cx (CSet (sshPortKey i) (Text (dec_int port)))"

text \<open>The integer in a string value, as \<^verbatim>\<open>Get(...).Int()\<close> reads it.\<close>

definition bulk_int :: "bulk \<Rightarrow> int option" where
  "bulk_int v = (case v of Text s \<Rightarrow> atoi s | Json _ \<Rightarrow> None)"

definition rdb_get_int :: "'r redis_env \<Rightarrow> ctx \<Rightarrow> string \<Rightarrow> ('r conn, goerr + int) state" where
  "rdb_get_int E cx k =
     do { r \<leftarrow> rdb_get E cx k;
          ret (case r of
                 Inl e \<Rightarrow> Inl e
               | Inr None \<Rightarrow> Inr 0
               | Inr (Some v) \<Rightarrow>
                   (case bulk_int v of None \<Rightarrow> Inl (Foreign ''strconv.Atoi: invalid syntax'') | Some n \<Rightarrow> Inr n)) }"

definition SSHPort :: "'r redis_env \<Rightarrow> ctx \<Rightarrow> string \<Rightarrow> ('r conn, goerr + int) state" where
  "SSHPort E cx i = rdb_get_int E cx (sshPortKey i)"

definition PurgeUserIndexes :: "'r redis_env \<Rightarrow> ctx \<Rightarrow> string \<Rightarrow> ('r conn, goerr option) state" where
  "PurgeUserIndexes E cx u = rdb_err E cx (CDel [user_key u, slot_key u])"

text \<open>The loop of \<^verbatim>\<open>List\<close>: a record that cannot be read, or is gone, is skipped.\<close>

fun get_all :: "'r redis_env \<Rightarrow> ctx \<Rightarrow> string list \<Rightarrow> ('r conn, sandbox list) state" where
  "get_all E cx [] = ret []"
| "get_all E cx (i # is) =
     do { g \<leftarrow> Get E cx i;
          rest \<leftarrow> get_all E cx is;
          ret (case g of Inr (Some sb) \<Rightarrow> sb # rest | _ \<Rightarrow> rest) }"

definition ListSandboxes :: "'r redis_env \<Rightarrow> ctx \<Rightarrow> string \<Rightarrow> ('r conn, goerr + sandbox list) state" where
  "ListSandboxes E cx u =
     do { ids \<leftarrow> rdb_smembers E cx (if u \<noteq> [] then user_key u else allKey);
          case ids of
            Inl e \<Rightarrow> ret (Inl e)
          | Inr is \<Rightarrow> do { out \<leftarrow> get_all E cx is; ret (Inr out) } }"

definition ListByUserScan :: "'r redis_env \<Rightarrow> ctx \<Rightarrow> string \<Rightarrow> ('r conn, goerr + sandbox list) state" where
  "ListByUserScan E cx u =
     do { all \<leftarrow> ListSandboxes E cx [];
          ret (case all of Inl e \<Rightarrow> Inl e | Inr sbs \<Rightarrow> Inr (filter (\<lambda>sb. UserID sb = u) sbs)) }"

definition reserveUserSlot ::
  "(rcmd \<Rightarrow> 'r \<Rightarrow> reply \<times> 'r) \<Rightarrow> string \<Rightarrow> string \<Rightarrow> string \<Rightarrow> string \<Rightarrow> string \<Rightarrow> string \<Rightarrow>
   string \<Rightarrow> bulk \<Rightarrow> ('r, reply) state" where
  "reserveUserSlot ex k1 k2 k3 k4 k5 k6 a1 a2 =
     redis_call ex (CSetNX k1 (Text a1)) (\<lambda>r.
       if r = RNil then ret (RInt 0)
       else redis_call ex (CSet k2 a2) (\<lambda>_.
            redis_call ex (CSAdd k3 a1) (\<lambda>_.
            redis_call ex (CSAdd k4 a1) (\<lambda>_.
            redis_call ex (CSAdd k5 a1) (\<lambda>_.
            redis_call ex (CPublish k6 a2) (\<lambda>_. ret (RInt 1)))))))"

definition ReserveUserSlot :: "'r redis_env \<Rightarrow> ctx \<Rightarrow> sandbox \<Rightarrow> ('r conn, goerr + bool) state" where
  "ReserveUserSlot E cx sb =
     do { n \<leftarrow> run_script E cx (reserveUserSlot (exec E) (slot_key (UserID sb)) (rec_key (ID sb))
                 (user_key (UserID sb)) allKey activeKey (eventsChannel (UserID sb))
                 (ID sb) (marshal sb));
          ret (case n of Inl e \<Rightarrow> Inl e | Inr i \<Rightarrow> Inr (i = 1)) }"

definition UserSlot :: "'r redis_env \<Rightarrow> ctx \<Rightarrow> string \<Rightarrow> ('r conn, goerr + string) state" where
  "UserSlot E cx u =
     do { r \<leftarrow> rdb_get E cx (slot_key u);
          ret (case r of Inl e \<Rightarrow> Inl e | Inr None \<Rightarrow> Inr [] | Inr (Some (Text s)) \<Rightarrow> Inr s
                       | Inr (Some (Json _)) \<Rightarrow> Inl bad_reply) }"

definition relIfOwner :: "(rcmd \<Rightarrow> 'r \<Rightarrow> reply \<times> 'r) \<Rightarrow> string \<Rightarrow> bulk \<Rightarrow> ('r, reply) state" where
  "relIfOwner ex k1 a1 =
     redis_call ex (CGet k1) (\<lambda>r.
       if r = RBulk a1 then redis_call ex (CDel [k1]) ret else ret (RInt 0))"

definition ReleaseUserSlot :: "'r redis_env \<Rightarrow> ctx \<Rightarrow> string \<Rightarrow> string \<Rightarrow> ('r conn, goerr option) state" where
  "ReleaseUserSlot E cx u i =
     do { r \<leftarrow> run_script E cx (relIfOwner (exec E) (slot_key u) (Text i));
          ret (case r of Inl e \<Rightarrow> Some e | Inr _ \<Rightarrow> None) }"

definition IncCreated :: "'r redis_env \<Rightarrow> ctx \<Rightarrow> ('r conn, goerr option) state" where
  "IncCreated E cx = rdb_err E cx (CIncr createdKey)"

definition TotalCreated :: "'r redis_env \<Rightarrow> ctx \<Rightarrow> ('r conn, goerr + int) state" where
  "TotalCreated E cx = rdb_get_int E cx createdKey"

end
