(* ===== verification/Go_Net.thy ===== *)
theory Go_Net
  imports Go_Strings
begin

text \<open>
  The parts of Go's \<^verbatim>\<open>net\<close> package the program uses: \<^verbatim>\<open>net.ParseIP\<close> (with the parsers of
  \<^verbatim>\<open>net/netip\<close> for dotted IPv4, for IPv6, and for IPv4 embedded in IPv6), \<^verbatim>\<open>To4\<close>, \<^verbatim>\<open>String\<close>,
  \<^verbatim>\<open>IsPrivate\<close> and \<^verbatim>\<open>IsLoopback\<close> of an IPv4 address, and \<^verbatim>\<open>JoinHostPort\<close>. An address is the list of
  its bytes; a parsed one has sixteen, an IPv4 address behind ten zeros and two bytes 255.
\<close>

section \<open>IPv4\<close>

definition octet :: "string \<Rightarrow> nat option" where
  "octet s =
     (if s \<noteq> [] \<and> list_all is_digit s \<and> (length s > 1 \<longrightarrow> hd s \<noteq> CHR ''0'') \<and> dec_val s \<le> 255
      then Some (dec_val s) else None)"

definition parse_ip4 :: "string \<Rightarrow> nat list option" where
  "parse_ip4 s =
     (case split_on (CHR ''.'') s of
        [a, b, c, d] \<Rightarrow>
          (case (octet a, octet b, octet c, octet d) of
             (Some w, Some x, Some y, Some z) \<Rightarrow> Some [w, x, y, z]
           | _ \<Rightarrow> None)
      | _ \<Rightarrow> None)"

section \<open>IPv6\<close>

definition hex_val :: "char \<Rightarrow> nat option" where
  "hex_val c =
     (let n = of_char c :: nat in
      if 48 \<le> n \<and> n \<le> 57 then Some (n - 48)
      else if 97 \<le> n \<and> n \<le> 102 then Some (n - 87)
      else if 65 \<le> n \<and> n \<le> 70 then Some (n - 55)
      else None)"

definition hex_num :: "string \<Rightarrow> nat" where
  "hex_num s = foldl (\<lambda>a c. 16 * a + (case hex_val c of None \<Rightarrow> 0 | Some d \<Rightarrow> d)) 0 s"

text \<open>
  The loop of \<^verbatim>\<open>parseIPv6\<close>: \<open>n\<close> groups may still be read, \<open>acc\<close> holds the bytes so far and \<open>ell\<close> the
  position of the ellipsis.
\<close>

fun ip6_groups :: "nat \<Rightarrow> nat list \<Rightarrow> nat option \<Rightarrow> string \<Rightarrow> (nat list \<times> nat option \<times> string) option" where
  "ip6_groups 0 acc ell s = Some (acc, ell, s)"
| "ip6_groups (Suc n) acc ell s =
     (let hs = takeWhile (\<lambda>c. hex_val c \<noteq> None) s; rest = drop (length hs) s;
          acc' = acc @ [hex_num hs div 256, hex_num hs mod 256]
      in if hs = [] \<or> length hs > 4 then None
         else case rest of
           [] \<Rightarrow> Some (acc', ell, [])
         | c # cs \<Rightarrow>
             if c = CHR ''.'' then
               (if (ell = None \<and> length acc \<noteq> 12) \<or> length acc + 4 > 16 then None
                else case parse_ip4 s of None \<Rightarrow> None | Some b \<Rightarrow> Some (acc @ b, ell, []))
             else if c \<noteq> CHR '':'' \<or> cs = [] then None
             else if hd cs = CHR '':'' then
               (if ell \<noteq> None then None
                else if tl cs = [] then Some (acc', Some (length acc'), [])
                else ip6_groups n acc' (Some (length acc')) (tl cs))
             else ip6_groups n acc' ell cs)"

definition ip6_expand :: "nat list \<Rightarrow> nat option \<Rightarrow> nat list option" where
  "ip6_expand acc ell =
     (if length acc < 16
      then (case ell of None \<Rightarrow> None
                      | Some e \<Rightarrow> Some (take e acc @ replicate (16 - length acc) 0 @ drop e acc))
      else (case ell of None \<Rightarrow> Some acc | Some _ \<Rightarrow> None))"

definition parse_ip6 :: "string \<Rightarrow> nat list option" where
  "parse_ip6 s =
     (let lead = (take 2 s = ''::''); s' = (if lead then drop 2 s else s) in
      if lead \<and> s' = [] then Some (replicate 16 0)
      else case ip6_groups 8 [] (if lead then Some 0 else None) s' of
             None \<Rightarrow> None
           | Some (acc, ell, rest) \<Rightarrow> if rest \<noteq> [] then None else ip6_expand acc ell)"

section \<open>Addresses\<close>

definition v4_prefix :: "nat list" where
  "v4_prefix = replicate 10 0 @ [255, 255]"

definition ParseIP :: "string \<Rightarrow> nat list option" where
  "ParseIP s =
     (case dropWhile (\<lambda>c. c \<noteq> CHR ''.'' \<and> c \<noteq> CHR '':'' \<and> c \<noteq> CHR ''%'') s of
        [] \<Rightarrow> None
      | c # _ \<Rightarrow>
          if c = CHR ''.'' then map_option (\<lambda>b. v4_prefix @ b) (parse_ip4 s)
          else if c = CHR '':'' \<and> CHR ''%'' \<notin> set s then parse_ip6 s
          else None)"

definition To4 :: "nat list \<Rightarrow> nat list option" where
  "To4 ip = (if length ip = 16 \<and> take 12 ip = v4_prefix then Some (drop 12 ip) else None)"

definition IsPrivate4 :: "nat list \<Rightarrow> bool" where
  "IsPrivate4 b \<longleftrightarrow> b ! 0 = 10 \<or> (b ! 0 = 172 \<and> 16 \<le> b ! 1 \<and> b ! 1 \<le> 31) \<or> (b ! 0 = 192 \<and> b ! 1 = 168)"

definition IsLoopback4 :: "nat list \<Rightarrow> bool" where
  "IsLoopback4 b \<longleftrightarrow> b ! 0 = 127"

fun join_with :: "string \<Rightarrow> string list \<Rightarrow> string" where
  "join_with sep [] = []"
| "join_with sep [w] = w"
| "join_with sep (w # v # ws) = w @ sep @ join_with sep (v # ws)"

definition dotted :: "nat list \<Rightarrow> string" where
  "dotted b = join_with ''.'' (map dec_nat b)"

definition JoinHostPort :: "string \<Rightarrow> string \<Rightarrow> string" where
  "JoinHostPort host port =
     (if CHR '':'' \<in> set host \<or> CHR ''%'' \<in> set host then ''['' @ host @ '']:'' @ port
      else host @ '':'' @ port)"

section \<open>A printed IPv4 address reads back as itself\<close>

lemma split_on_no_sep: "c \<notin> set w \<Longrightarrow> split_on c w = [w]"
  by (induction w) auto

lemma split_on_append: "c \<notin> set w \<Longrightarrow> split_on c (w @ c # s) = w # split_on c s"
  by (induction w) auto

lemma digits_no_punct:
  "list_all is_digit s \<Longrightarrow> CHR ''.'' \<notin> set s" "list_all is_digit s \<Longrightarrow> CHR '':'' \<notin> set s"
  "list_all is_digit s \<Longrightarrow> CHR ''%'' \<notin> set s"
  by (auto simp: list_all_iff is_digit_def)

lemma dec_nat_no_punct [simp]:
  "CHR ''.'' \<notin> set (dec_nat n)" "CHR '':'' \<notin> set (dec_nat n)" "CHR ''%'' \<notin> set (dec_nat n)"
  using digits_no_punct [OF dec_nat_digits] by auto

lemma dec_nat_hd: "n \<noteq> 0 \<Longrightarrow> hd (dec_nat n) \<noteq> CHR ''0''"
proof (induction n rule: dec_nat.induct)
  case (1 n)
  show ?case
  proof (cases "n < 10")
    case True
    with 1(2) have "of_char (hd (dec_nat n)) = 48 + n"
      by (simp add: dec_nat.simps [of n])
    with 1(2) show ?thesis by auto
  next
    case False
    with 1 have "hd (dec_nat (n div 10)) \<noteq> CHR ''0''" by simp
    with False show ?thesis by (simp add: dec_nat.simps [of n])
  qed
qed

lemma octet_dec_nat: "n \<le> 255 \<Longrightarrow> octet (dec_nat n) = Some n"
proof -
  have "dec_val [digit_char 0] = 0" by (simp add: dec_val_def)
  then show "n \<le> 255 \<Longrightarrow> octet (dec_nat n) = Some n"
    using dec_nat_hd [of n] dec_nat_digits [of n]
    by (cases "n = 0") (auto simp: octet_def dec_nat.simps [of 0])
qed

lemma parse_ip4_dotted:
  assumes "a \<le> 255" "b \<le> 255" "c \<le> 255" "d \<le> 255"
  shows "parse_ip4 (dotted [a, b, c, d]) = Some [a, b, c, d]"
  using assms
  by (simp add: parse_ip4_def dotted_def split_on_append split_on_no_sep octet_dec_nat)

lemma dotted_no_colon [simp]:
  "CHR '':'' \<notin> set (dotted [a, b, c, d])" "CHR ''%'' \<notin> set (dotted [a, b, c, d])"
  by (simp_all add: dotted_def)

lemma ParseIP_dotted:
  assumes "a \<le> 255" "b \<le> 255" "c \<le> 255" "d \<le> 255"
  shows "ParseIP (dotted [a, b, c, d]) = Some (v4_prefix @ [a, b, c, d])"
proof -
  let ?P = "\<lambda>c. c \<noteq> CHR ''.'' \<and> c \<noteq> CHR '':'' \<and> c \<noteq> CHR ''%''"
  have "dropWhile ?P (dec_nat a @ CHR ''.'' # xs) = CHR ''.'' # xs" for xs
    using dec_nat_no_punct [of a] by (subst dropWhile_append2) auto
  then have "dropWhile ?P (dotted [a, b, c, d]) =
      CHR ''.'' # (dec_nat b @ ''.'' @ dec_nat c @ ''.'' @ dec_nat d)"
    by (simp add: dotted_def)
  then show ?thesis
    using parse_ip4_dotted [OF assms] by (simp add: ParseIP_def)
qed

lemma octet_bound: "octet s = Some n \<Longrightarrow> n \<le> 255"
  by (auto simp: octet_def split: if_splits)

lemma To4_v4 [simp]: "To4 (v4_prefix @ [a, b, c, d]) = Some [a, b, c, d]"
  by (simp add: To4_def v4_prefix_def)

end
