(* ===== verification/Relay.thy ===== *)
theory Relay
  imports Go_Net "HOL-Library.AList"
begin

text \<open>
  \<^verbatim>\<open>internal/sshrelay/relay.go\<close>: the listeners of the SSH relay and their sessions. A nil relay is
  \<open>None\<close>. The map \<^verbatim>\<open>byID\<close> is an association list (the code's results do not depend on its order);
  \<open>retired\<close> keeps the listeners that were taken out of the map, whose goroutines may still run. Each
  block of \<^verbatim>\<open>serve\<close>, \<^verbatim>\<open>pipe\<close> and \<^verbatim>\<open>drop\<close> under the listener's lock is one operation on the listener.
  Whether the operating system lets the relay listen on a port is a parameter: \<open>listen k p\<close> answers
  the \<open>k\<close>-th attempt of a call, on port \<open>p\<close>. Times are in nanoseconds.
\<close>

section \<open>State\<close>

record session =
  upstream :: bool
  start :: int

record listener =
  port :: int
  target :: string
  closed :: bool
  sessions :: "(nat \<times> session) list"

record relay =
  host :: string
  rstart :: int
  rend :: int
  targetPort :: string
  byID :: "(string \<times> listener) list"
  retired :: "listener list"

definition countAfter :: int where "countAfter = 30 * 1000000000"
definition maxSessionsPerSandbox :: nat where "maxSessionsPerSandbox = 8"

definition New :: "string \<Rightarrow> int \<Rightarrow> int \<Rightarrow> relay" where
  "New h s e = \<lparr>host = h, rstart = s, rend = e, targetPort = ''22'', byID = [], retired = []\<rparr>"

section \<open>The listener of one sandbox\<close>

text \<open>\<^verbatim>\<open>serve\<close>: a client was accepted; \<open>i\<close> is the new session's pointer.\<close>

definition accept :: "nat \<Rightarrow> int \<Rightarrow> listener \<Rightarrow> bool \<times> listener" where
  "accept i now l =
     (if \<not> closed l \<and> length (sessions l) < maxSessionsPerSandbox
      then (True, l\<lparr>sessions := AList.update i \<lparr>upstream = False, start = now\<rparr> (sessions l)\<rparr>)
      else (False, l))"

text \<open>\<^verbatim>\<open>pipe\<close>: the dial to the target succeeded. The session is the goroutine's own.\<close>

definition dialed :: "nat \<Rightarrow> listener \<Rightarrow> bool \<times> listener" where
  "dialed i l =
     (if closed l then (False, l)
      else (True, l\<lparr>sessions := map (\<lambda>(j, s). (j, if j = i then s\<lparr>upstream := True\<rparr> else s)) (sessions l)\<rparr>))"

definition drop_session :: "nat \<Rightarrow> listener \<Rightarrow> listener" where
  "drop_session i l = l\<lparr>sessions := AList.delete i (sessions l)\<rparr>"

definition close_listener :: "listener \<Rightarrow> listener" where
  "close_listener l = l\<lparr>closed := True\<rparr>"

section \<open>The relay\<close>

text \<open>The destination that \<^verbatim>\<open>Ensure\<close> derives from the sandbox's address, if it accepts it.\<close>

definition target_of :: "relay \<Rightarrow> string \<Rightarrow> string option" where
  "target_of r ip =
     (case ParseIP ip of
        None \<Rightarrow> None
      | Some parsed \<Rightarrow>
          (case To4 parsed of
             None \<Rightarrow> None
           | Some b \<Rightarrow>
               if IsPrivate4 b \<or> IsLoopback4 b
               then Some (JoinHostPort (dotted b) (targetPort r)) else None))"

definition candidates :: "relay \<Rightarrow> int \<Rightarrow> int list" where
  "candidates r preferred =
     (if rstart r \<le> preferred \<and> preferred \<le> rend r then [preferred] else []) @ [rstart r..rend r]"

text \<open>The loop over the candidates; \<open>k\<close> counts the calls of \<^verbatim>\<open>net.Listen\<close>.\<close>

fun try_ports :: "(nat \<Rightarrow> int \<Rightarrow> bool) \<Rightarrow> int set \<Rightarrow> nat \<Rightarrow> int list \<Rightarrow> int option" where
  "try_ports listen used k [] = None"
| "try_ports listen used k (p # ps) =
     (if p \<in> used then try_ports listen used k ps
      else if listen k p then Some p
      else try_ports listen used (Suc k) ps)"

definition retire :: "string \<Rightarrow> listener \<Rightarrow> relay \<Rightarrow> relay" where
  "retire i l r = r\<lparr>byID := AList.delete i (byID r), retired := close_listener l # retired r\<rparr>"

definition open_listener ::
  "(nat \<Rightarrow> int \<Rightarrow> bool) \<Rightarrow> string \<Rightarrow> string \<Rightarrow> int \<Rightarrow> relay \<Rightarrow> (goerr + int) \<times> relay" where
  "open_listener listen i tgt preferred r =
     (case try_ports listen (set (map (port \<circ> snd) (byID r))) 0 (candidates r preferred) of
        None \<Rightarrow> (Inl (Foreign ''ssh relay: no free port in range''), r)
      | Some p \<Rightarrow>
          (Inr p, r\<lparr>byID := AList.update i \<lparr>port = p, target = tgt, closed = False, sessions = []\<rparr> (byID r)\<rparr>))"

definition Ensure ::
  "(nat \<Rightarrow> int \<Rightarrow> bool) \<Rightarrow> string \<Rightarrow> string \<Rightarrow> int \<Rightarrow> relay option \<Rightarrow> (goerr + int) \<times> relay option" where
  "Ensure listen i ip preferred rl =
     (case rl of
        None \<Rightarrow> (Inl (Foreign ''ssh relay disabled''), None)
      | Some r \<Rightarrow>
          (case target_of r ip of
             None \<Rightarrow> (Inl (Foreign ''ssh relay: invalid sandbox IP''), rl)
           | Some tgt \<Rightarrow>
               (case map_of (byID r) i of
                  Some l \<Rightarrow>
                    if target l = tgt then (Inr (port l), rl)
                    else map_prod id Some (open_listener listen i tgt preferred (retire i l r))
                | None \<Rightarrow> map_prod id Some (open_listener listen i tgt preferred r))))"

definition Close :: "string \<Rightarrow> relay option \<Rightarrow> relay option" where
  "Close i rl =
     (case rl of
        None \<Rightarrow> None
      | Some r \<Rightarrow> (case map_of (byID r) i of None \<Rightarrow> rl | Some l \<Rightarrow> Some (retire i l r)))"

text \<open>The argument of \<^verbatim>\<open>Retain\<close> maps a sandbox id to its current address.\<close>

definition kept :: "relay \<Rightarrow> (string \<times> string) list \<Rightarrow> string \<Rightarrow> listener \<Rightarrow> bool" where
  "kept r keep i l \<longleftrightarrow>
     (case map_of keep i of None \<Rightarrow> False | Some ip \<Rightarrow> target l = JoinHostPort ip (targetPort r))"

definition Retain :: "(string \<times> string) list \<Rightarrow> relay option \<Rightarrow> relay option" where
  "Retain keep rl =
     (case rl of
        None \<Rightarrow> None
      | Some r \<Rightarrow>
          Some (r\<lparr>byID := filter (\<lambda>(i, l). kept r keep i l) (byID r),
                  retired := map (close_listener \<circ> snd) (filter (\<lambda>(i, l). \<not> kept r keep i l) (byID r))
                             @ retired r\<rparr>))"

definition Connections :: "int \<Rightarrow> string \<Rightarrow> relay option \<Rightarrow> nat" where
  "Connections now i rl =
     (case rl of
        None \<Rightarrow> 0
      | Some r \<Rightarrow>
          (case map_of (byID r) i of
             None \<Rightarrow> 0
           | Some l \<Rightarrow>
               length (filter (\<lambda>(_, s). upstream s \<and> countAfter \<le> now - start s) (sessions l))))"

end
