(* ===== verification/Userhome.thy ===== *)
theory Userhome
  imports Go_Strings
begin

text \<open>
  \<^verbatim>\<open>internal/userhome/userhome.go\<close>: the home disk images. The file system and the ext4 tools are not
  code of the repository: they are the operations of a record \<open>host\<close> on an abstract state \<open>'h\<close>, and
  what their manuals promise is stated in \<open>Userhome_Props\<close>. A program that was run gives its exit
  code (\<open>-1\<close> when a signal ended it) or could not be started. File sizes are \<^verbatim>\<open>int64\<close>. The
  comparison of \<^verbatim>\<open>shrinkDisk\<close> is over exact numbers, not rounded ones.
\<close>

section \<open>The host\<close>

datatype proc = Exit int | NotStarted

record 'h host =
  mkdir_all :: "string \<Rightarrow> 'h \<Rightarrow> goerr option \<times> 'h"
  stat_size :: "string \<Rightarrow> 'h \<Rightarrow> (goerr + int) \<times> 'h"
  create_file :: "string \<Rightarrow> 'h \<Rightarrow> goerr option \<times> 'h"
  truncate_file :: "string \<Rightarrow> int \<Rightarrow> 'h \<Rightarrow> goerr option \<times> 'h"
  remove_file :: "string \<Rightarrow> 'h \<Rightarrow> goerr option \<times> 'h"
  remove_all :: "string \<Rightarrow> 'h \<Rightarrow> goerr option \<times> 'h"
  run_cmd :: "string list \<Rightarrow> 'h \<Rightarrow> (proc \<times> string) \<times> 'h"

section \<open>Paths\<close>

text \<open>\<^verbatim>\<open>filepath.Clean\<close> and \<^verbatim>\<open>filepath.Join\<close> on slash-separated paths.\<close>

fun clean_parts :: "bool \<Rightarrow> string list \<Rightarrow> string list \<Rightarrow> string list" where
  "clean_parts rooted acc [] = rev acc"
| "clean_parts rooted acc (w # ws) =
     (if w = [] \<or> w = ''.'' then clean_parts rooted acc ws
      else if w = ''..'' then
        (case acc of
           [] \<Rightarrow> clean_parts rooted (if rooted then [] else [w]) ws
         | v # vs \<Rightarrow> if v = ''..'' then clean_parts rooted (w # acc) ws else clean_parts rooted vs ws)
      else clean_parts rooted (w # acc) ws)"

fun slash_join :: "string list \<Rightarrow> string" where
  "slash_join [] = []"
| "slash_join [w] = w"
| "slash_join (w # v # ws) = w @ CHR ''/'' # slash_join (v # ws)"

definition Clean :: "string \<Rightarrow> string" where
  "Clean p =
     (let rooted = (p \<noteq> [] \<and> hd p = CHR ''/''); ws = clean_parts rooted [] (split_on (CHR ''/'') p) in
      if rooted then CHR ''/'' # slash_join ws else if ws = [] then ''.'' else slash_join ws)"

definition Join :: "string \<Rightarrow> string \<Rightarrow> string" where
  "Join a b =
     (if a = [] \<and> b = [] then [] else if a = [] then Clean b else if b = [] then Clean a
      else Clean (a @ CHR ''/'' # b))"

section \<open>Directories\<close>

definition id_char :: "char \<Rightarrow> bool" where
  "id_char c \<longleftrightarrow>
     (let n = of_char c :: nat in
      (65 \<le> n \<and> n \<le> 90) \<or> (97 \<le> n \<and> n \<le> 122) \<or> is_digit c \<or> c = CHR ''_'' \<or> c = CHR ''.'' \<or> c = CHR ''-'')"

definition validID :: "string \<Rightarrow> bool" where
  "validID s \<longleftrightarrow> s \<noteq> [] \<and> list_all id_char s"

definition dir :: "string \<Rightarrow> string \<Rightarrow> goerr + string" where
  "dir rdir u =
     (if u = [] \<or> u = ''.'' \<or> u = ''..'' \<or> length u > 128 \<or> \<not> validID u
      then Inl (Foreign ''invalid user_id'') else Inr (Join rdir u))"

definition DeleteHome :: "'h host \<Rightarrow> string \<Rightarrow> string \<Rightarrow> ('h, goerr option) state" where
  "DeleteHome H rdir u =
     (case dir rdir u of Inl e \<Rightarrow> ret (Some e) | Inr d \<Rightarrow> State (remove_all H d))"

section \<open>Growing and shrinking\<close>

text \<open>\<^verbatim>\<open>e2fsck -fp\<close> failed: not started, or an exit code above 1.\<close>

definition fsck_failed :: "proc \<Rightarrow> bool" where
  "fsck_failed p = (case p of Exit c \<Rightarrow> c > 1 | NotStarted \<Rightarrow> True)"

definition growDisk :: "'h host \<Rightarrow> string \<Rightarrow> int \<Rightarrow> ('h, goerr option) state" where
  "growDisk H path sz =
     do { t \<leftarrow> State (truncate_file H path sz);
          case t of
            Some e \<Rightarrow> ret (Some (Prefix (''grow '' @ path) e))
          | None \<Rightarrow>
              do { (c, out) \<leftarrow> State (run_cmd H [''e2fsck'', ''-fp'', path]);
                   if fsck_failed c then ret (Some (Foreign (''e2fsck '' @ path @ '': '' @ out)))
                   else do { (d, out2) \<leftarrow> State (run_cmd H [''resize2fs'', path]);
                             ret (if d \<noteq> Exit 0 then Some (Foreign (''resize2fs '' @ path @ '': '' @ out2))
                                  else None) } } }"

text \<open>\<^verbatim>\<open>fmt.Sscanf(s, "%d", &n)\<close>: the leading integer after blanks.\<close>

definition sscanf_d :: "string \<Rightarrow> int option" where
  "sscanf_d s =
     (let t = dropWhile (\<lambda>c. is_space c \<and> c \<noteq> CHR ''\<newline>'') s;
          (neg, ds) = (case t of [] \<Rightarrow> (False, [])
                       | c # cs \<Rightarrow> if c = CHR ''-'' then (True, cs) else if c = CHR ''+'' then (False, cs)
                                  else (False, t));
          digits = takeWhile is_digit ds;
          n = (if neg then - int (dec_val digits) else int (dec_val digits))
      in if digits = [] \<or> \<not> in_int64 n then None else Some n)"

text \<open>\<^verbatim>\<open>lastNumber\<close>: the index is taken in the trimmed bytes and applied to the untrimmed ones.\<close>

definition lastNumber :: "string \<Rightarrow> int option" where
  "lastNumber b =
     (let t = trim_space b;
          after = length t - length (takeWhile (\<lambda>c. c \<noteq> CHR '':'' \<and> c \<noteq> CHR '' '') (rev t))
      in sscanf_d (drop after b))"

text \<open>\<^verbatim>\<open>blockSizeLine.Find\<close>: the first match of the pattern at the start of a line, else nothing.\<close>

definition block_size_match :: "string \<Rightarrow> string option" where
  "block_size_match s =
     (case cut_prefix s ''Block size:'' of
        None \<Rightarrow> None
      | Some r \<Rightarrow>
          (let sp = takeWhile is_space r; ds = takeWhile is_digit (drop (length sp) r) in
           if ds = [] then None else Some (''Block size:'' @ sp @ ds)))"

fun find_block_size :: "string \<Rightarrow> string" where
  "find_block_size [] = []"
| "find_block_size (c # cs) =
     (if c = CHR ''\<newline>''
      then (case block_size_match cs of Some m \<Rightarrow> m | None \<Rightarrow> find_block_size cs)
      else find_block_size cs)"

definition blockSizeLine :: "string \<Rightarrow> string" where
  "blockSizeLine s = (case block_size_match s of Some m \<Rightarrow> m | None \<Rightarrow> find_block_size s)"

definition shrinkDisk :: "'h host \<Rightarrow> string \<Rightarrow> int \<Rightarrow> ('h, goerr option) state" where
  "shrinkDisk H path sz =
     do { (c, out) \<leftarrow> State (run_cmd H [''e2fsck'', ''-fp'', path]);
          if fsck_failed c then ret (Some (Foreign (''e2fsck '' @ path @ '': '' @ out)))
          else do {
            (d, out2) \<leftarrow> State (run_cmd H [''resize2fs'', ''-P'', path]);
            if d \<noteq> Exit 0 then ret (Some (Foreign (''resize2fs -P '' @ path @ '': '' @ out2)))
            else case lastNumber out2 of
              None \<Rightarrow> ret (Some (Foreign (''parse resize2fs -P '' @ out2)))
            | Some minBlocks \<Rightarrow>
                do { (e, hdr) \<leftarrow> State (run_cmd H [''dumpe2fs'', ''-h'', path]);
                     if e \<noteq> Exit 0 then ret (Some (Foreign (''dumpe2fs '' @ path)))
                     else case lastNumber (blockSizeLine hdr) of
                       None \<Rightarrow> ret (Some (Foreign ''parse block size''))
                     | Some blockSize \<Rightarrow>
                         if rat_of_int (sint (word_of_int (minBlocks * blockSize) :: 64 word)) * (12 / 10)
                              > rat_of_int sz
                         then ret None
                         else do {
                           (f, out3) \<leftarrow> State (run_cmd H [''resize2fs'', path, dec_int (sz div 1024) @ ''K'']);
                           if f \<noteq> Exit 0 then ret (Some (Foreign (''resize2fs '' @ path @ '': '' @ out3)))
                           else State (truncate_file H path sz) } } } }"

section \<open>The disks of the users\<close>

text \<open>\<^verbatim>\<open>int64(sizeMiB)*1024*1024\<close>.\<close>

definition mib_bytes :: "64 word \<Rightarrow> int" where
  "mib_bytes m = sint (m * 1024 * 1024)"

definition DiskMiBOf :: "'h host \<Rightarrow> string \<Rightarrow> string \<Rightarrow> ('h, 64 word) state" where
  "DiskMiBOf H rdir u =
     (case dir rdir u of
        Inl e \<Rightarrow> ret 0
      | Inr d \<Rightarrow>
          do { st \<leftarrow> State (stat_size H (Join d ''home.img''));
               ret (case st of Inl e \<Rightarrow> 0 | Inr n \<Rightarrow> word_of_int (n div (1024 * 1024))) })"

definition ShrinkDisk :: "'h host \<Rightarrow> string \<Rightarrow> string \<Rightarrow> 64 word \<Rightarrow> ('h, goerr option) state" where
  "ShrinkDisk H rdir u sizeMiB =
     do { cur \<leftarrow> DiskMiBOf H rdir u;
          if cur \<le> sizeMiB then ret None
          else case dir rdir u of
            Inl e \<Rightarrow> shrinkDisk H (Join [] ''home.img'') (mib_bytes sizeMiB)
          | Inr d \<Rightarrow> shrinkDisk H (Join d ''home.img'') (mib_bytes sizeMiB) }"

definition mkfs_cmd :: "string \<Rightarrow> string list" where
  "mkfs_cmd path = [''mkfs.ext4'', ''-F'', ''-E'', ''lazy_itable_init=1,lazy_journal_init=1'', path]"

definition EnsureDisk :: "'h host \<Rightarrow> string \<Rightarrow> string \<Rightarrow> 64 word \<Rightarrow> ('h, goerr + string) state" where
  "EnsureDisk H rdir u sizeMiB =
     (case dir rdir u of
        Inl e \<Rightarrow> ret (Inl e)
      | Inr d \<Rightarrow>
          do { m \<leftarrow> State (mkdir_all H d);
               case m of
                 Some e \<Rightarrow> ret (Inl e)
               | None \<Rightarrow>
                   (let path = Join d ''home.img''; want = mib_bytes sizeMiB in
                    do { st \<leftarrow> State (stat_size H path);
                         case st of
                           Inr cur \<Rightarrow>
                             (if cur < want
                              then do { g \<leftarrow> growDisk H path want;
                                        ret (case g of Some e \<Rightarrow> Inl e | None \<Rightarrow> Inr path) }
                              else ret (Inr path))
                         | Inl _ \<Rightarrow>
                             do { f \<leftarrow> State (create_file H path);
                                  case f of
                                    Some e \<Rightarrow> ret (Inl e)
                                  | None \<Rightarrow>
                                      do { t \<leftarrow> State (truncate_file H path want);
                                           case t of
                                             Some e \<Rightarrow> ret (Inl e)
                                           | None \<Rightarrow>
                                               do { (c, out) \<leftarrow> State (run_cmd H (mkfs_cmd path));
                                                    if c \<noteq> Exit 0
                                                    then do { _ \<leftarrow> State (remove_file H path);
                                                              ret (Inl (Foreign (''mkfs.ext4: '' @ out))) }
                                                    else ret (Inr path) } } } }) })"

end
