(* ===== verification/Go_Url.thy ===== *)
theory Go_Url
  imports Go_Net
begin

text \<open>
  The parts of Go's \<^verbatim>\<open>net/url\<close> and \<^verbatim>\<open>net\<close> packages that the configuration uses: \<^verbatim>\<open>url.Parse\<close> with
  the fields the program reads, \<^verbatim>\<open>URL.Hostname\<close>, and \<^verbatim>\<open>IsLoopback\<close> and \<^verbatim>\<open>IsPrivate\<close> of a parsed
  address. With them, which texts can parse into a URL with a host, and how the usual ones do.
\<close>

section \<open>Percent encoding\<close>

datatype encoding = EncodePath | EncodeHost | EncodeZone | EncodeUserPassword | EncodeFragment

definition is_letter :: "char \<Rightarrow> bool" where
  "is_letter c \<longleftrightarrow>
     (let n = of_char c :: nat in (65 \<le> n \<and> n \<le> 90) \<or> (97 \<le> n \<and> n \<le> 122))"

definition alnum :: "char \<Rightarrow> bool" where
  "alnum c \<longleftrightarrow> is_letter c \<or> is_digit c"

text \<open>\<^verbatim>\<open>shouldEscape(c, encodeHost)\<close>, the same for a zone.\<close>

definition escape_in_host :: "char \<Rightarrow> bool" where
  "escape_in_host c \<longleftrightarrow> \<not> alnum c \<and> c \<notin> set ''!$&()*+,;=:[]<>-_.~'' \<and> of_char c \<notin> {34, 39 :: nat}"

fun unescape :: "encoding \<Rightarrow> string \<Rightarrow> string option" where
  "unescape m [] = Some []"
| "unescape m (c # s) =
     (if c = CHR ''%'' then
        (case s of
           a # b # r \<Rightarrow>
             (case (hex_val a, hex_val b) of
                (Some x, Some y) \<Rightarrow>
                  if m = EncodeHost \<and> x < 8 \<and> [a, b] \<noteq> ''25'' then None
                  else if m = EncodeZone \<and> [a, b] \<noteq> ''25'' \<and> 16 * x + y \<noteq> 32 \<and>
                          escape_in_host (char_of (16 * x + y)) then None
                  else map_option (\<lambda>t. char_of (16 * x + y) # t) (unescape m r)
              | _ \<Rightarrow> None)
         | _ \<Rightarrow> None)
      else if (m = EncodeHost \<or> m = EncodeZone) \<and> of_char c < (128 :: nat) \<and> escape_in_host c then None
      else map_option (\<lambda>t. c # t) (unescape m s))"

section \<open>The parts of a URL\<close>

record url =
  UScheme :: string
  Opaque :: string
  User :: "(string \<times> string option) option"
  Host :: string
  Path :: string
  ForceQuery :: bool
  RawQuery :: string
  Fragment :: string

definition no_url :: url where
  "no_url = \<lparr>UScheme = [], Opaque = [], User = None, Host = [], Path = [], ForceQuery = False,
     RawQuery = [], Fragment = []\<rparr>"

definition ctl_byte :: "char \<Rightarrow> bool" where
  "ctl_byte c \<longleftrightarrow> of_char c < (32 :: nat) \<or> of_char c = (127 :: nat)"

definition scheme_char :: "char \<Rightarrow> bool" where
  "scheme_char c \<longleftrightarrow> alnum c \<or> c \<in> set ''+-.''"

text \<open>\<^verbatim>\<open>getScheme\<close>: the scheme and the rest; an error for a leading colon.\<close>

definition getScheme :: "string \<Rightarrow> (string \<times> string) option" where
  "getScheme s =
     (let pre = takeWhile scheme_char s in
      case dropWhile scheme_char s of
        [] \<Rightarrow> Some ([], s)
      | c # r \<Rightarrow>
          if c \<noteq> CHR '':'' then Some ([], s)
          else if pre = [] then None
          else if is_letter (hd pre) then Some (pre, r) else Some ([], s))"

definition validOptionalPort :: "string \<Rightarrow> bool" where
  "validOptionalPort s = (case s of [] \<Rightarrow> True | c # r \<Rightarrow> c = CHR '':'' \<and> list_all is_digit r)"

text \<open>
  \<^verbatim>\<open>netip.ParseAddr\<close> accepts \<open>s\<close> as an IPv6 address, with or without a zone: what may stand between
  square brackets.
\<close>

definition ip6_literal :: "string \<Rightarrow> bool" where
  "ip6_literal s =
     (case dropWhile (\<lambda>c. c \<noteq> CHR ''.'' \<and> c \<noteq> CHR '':'' \<and> c \<noteq> CHR ''%'') s of
        [] \<Rightarrow> False
      | c # _ \<Rightarrow>
          c = CHR '':'' \<and>
          (case cut (CHR ''%'') s of
             (a, None) \<Rightarrow> parse_ip6 a \<noteq> None
           | (a, Some z) \<Rightarrow> z \<noteq> [] \<and> parse_ip6 a \<noteq> None))"

text \<open>The first occurrence of \<^verbatim>\<open>%25\<close>, which starts the zone of a bracketed address.\<close>

fun cut_zone :: "string \<Rightarrow> string \<times> string" where
  "cut_zone [] = ([], [])"
| "cut_zone (c # s) =
     (if has_prefix (c # s) ''%25'' then ([], c # s) else (case cut_zone s of (a, b) \<Rightarrow> (c # a, b)))"

definition parse_literal :: "string \<Rightarrow> string \<Rightarrow> string option" where
  "parse_literal hostname port = do {
     p \<leftarrow> (if validOptionalPort port then unescape EncodeHost port else None);
     h \<leftarrow> (case cut_zone hostname of (a, z) \<Rightarrow> do {
            a' \<leftarrow> unescape EncodeHost a;
            z' \<leftarrow> unescape EncodeZone z;
            Some (a' @ z') });
     if ip6_literal h then Some (''['' @ h @ '']'' @ p) else None }"

definition parseHost :: "string \<Rightarrow> string option" where
  "parseHost host =
     (case cut_last (CHR ''['') host of
        Some (_, rest) \<Rightarrow>
          (case cut_last (CHR '']'') rest of
             None \<Rightarrow> None
           | Some (hostname, port) \<Rightarrow> parse_literal hostname port)
      | None \<Rightarrow>
          (case cut_last (CHR '':'') host of
             Some (_, port) \<Rightarrow> if list_all is_digit port then unescape EncodeHost host else None
           | None \<Rightarrow> unescape EncodeHost host))"

definition validUserinfo :: "string \<Rightarrow> bool" where
  "validUserinfo s \<longleftrightarrow>
     list_all (\<lambda>c. alnum c \<or> c \<in> set ''-._:~!$&()*+,;=%@'' \<or> of_char c = (39 :: nat)) s"

definition parse_userinfo :: "string \<Rightarrow> (string \<times> string option) option" where
  "parse_userinfo s =
     (if \<not> validUserinfo s then None
      else case cut (CHR '':'') s of
        (a, None) \<Rightarrow> do { u \<leftarrow> unescape EncodeUserPassword a; Some (u, None) }
      | (a, Some b) \<Rightarrow>
          do { u \<leftarrow> unescape EncodeUserPassword a; p \<leftarrow> unescape EncodeUserPassword b; Some (u, Some p) })"

definition parseAuthority :: "string \<Rightarrow> ((string \<times> string option) option \<times> string) option" where
  "parseAuthority a =
     (case cut_last (CHR ''@'') a of
        None \<Rightarrow> do { h \<leftarrow> parseHost a; Some (None, h) }
      | Some (ui, hostpart) \<Rightarrow>
          do { h \<leftarrow> parseHost hostpart; u \<leftarrow> parse_userinfo ui; Some (Some u, h) })"

section \<open>Parsing\<close>

text \<open>The query of what follows the scheme: whether it is an empty one, its text, and the rest.\<close>

definition split_query :: "string \<Rightarrow> string \<times> bool \<times> string" where
  "split_query s =
     (case cut (CHR ''?'') s of
        (a, None) \<Rightarrow> (a, False, [])
      | (a, Some b) \<Rightarrow> (a, b = [], b))"

definition parse_hierarchy :: "url \<Rightarrow> string \<Rightarrow> url option" where
  "parse_hierarchy u rest =
     (if (UScheme u \<noteq> [] \<or> \<not> has_prefix rest ''///'') \<and> has_prefix rest ''//'' then do {
        let authority = takeWhile (\<lambda>c. c \<noteq> CHR ''/'') (drop 2 rest);
        let rest' = dropWhile (\<lambda>c. c \<noteq> CHR ''/'') (drop 2 rest);
        (ui, h) \<leftarrow> parseAuthority authority;
        p \<leftarrow> unescape EncodePath rest';
        Some (u\<lparr>User := ui, Host := h, Path := p\<rparr>) }
      else do { p \<leftarrow> unescape EncodePath rest; Some (u\<lparr>Path := p\<rparr>) })"

definition parse_url :: "string \<Rightarrow> url option" where
  "parse_url raw =
     (if list_ex ctl_byte raw then None
      else if raw = ''*'' then Some (no_url\<lparr>Path := ''*''\<rparr>)
      else case getScheme raw of
        None \<Rightarrow> None
      | Some (sch, r) \<Rightarrow>
          (case split_query r of
             (rest, force, query) \<Rightarrow>
               let u = no_url\<lparr>UScheme := map to_lower sch, ForceQuery := force, RawQuery := query\<rparr> in
               if \<not> has_prefix rest ''/'' \<and> sch \<noteq> [] then Some (u\<lparr>Opaque := rest\<rparr>)
               else if \<not> has_prefix rest ''/'' \<and> CHR '':'' \<in> set (fst (cut (CHR ''/'') rest)) then None
               else parse_hierarchy u rest))"

definition Parse :: "string \<Rightarrow> url option" where
  "Parse raw =
     (case cut (CHR ''#'') raw of
        (u, frag) \<Rightarrow>
          (case parse_url u of
             None \<Rightarrow> None
           | Some w \<Rightarrow>
               (case frag of
                  None \<Rightarrow> Some w
                | Some f \<Rightarrow> if f = [] then Some w
                            else map_option (\<lambda>g. w\<lparr>Fragment := g\<rparr>) (unescape EncodeFragment f))))"

text \<open>\<^verbatim>\<open>URL.Hostname\<close>: the host without its port and its brackets.\<close>

definition Hostname :: "url \<Rightarrow> string" where
  "Hostname u =
     (let h = (case cut_last (CHR '':'') (Host u) of
                 Some (a, p) \<Rightarrow> if list_all is_digit p then a else Host u
               | None \<Rightarrow> Host u) in
      if h \<noteq> [] \<and> hd h = CHR ''['' \<and> last h = CHR '']'' then butlast (tl h) else h)"

section \<open>Local addresses\<close>

definition IsLoopback :: "nat list \<Rightarrow> bool" where
  "IsLoopback ip =
     (case To4 ip of Some b \<Rightarrow> IsLoopback4 b | None \<Rightarrow> ip = replicate 15 0 @ [1])"

definition IsPrivate :: "nat list \<Rightarrow> bool" where
  "IsPrivate ip =
     (case To4 ip of Some b \<Rightarrow> IsPrivate4 b | None \<Rightarrow> length ip = 16 \<and> hd ip div 2 = 126)"

section \<open>What unescaping keeps\<close>

lemma unescape_id:
  assumes "list_all (\<lambda>c. c \<noteq> CHR ''%'' \<and> \<not> escape_in_host c) s"
  shows "unescape m s = Some s"
  using assms by (induction s) auto

lemma unescape_nonempty: "unescape m s = Some t \<Longrightarrow> t \<noteq> [] \<Longrightarrow> s \<noteq> []"
  by auto

lemma unescape_path_id:
  assumes "CHR ''%'' \<notin> set s"
  shows "unescape EncodePath s = Some s"
  using assms by (induction s) auto

text \<open>A host name: letters, digits, dots and dashes.\<close>

definition name_char :: "char \<Rightarrow> bool" where
  "name_char c \<longleftrightarrow> alnum c \<or> c \<in> set ''.-''"

lemma name_char_no_punct:
  assumes "list_all name_char s" and "c \<in> set '':/?#[]@%+*''"
  shows "c \<notin> set s"
proof
  assume "c \<in> set s"
  with assms(1) have "name_char c" by (simp add: list_all_iff)
  with assms(2) show False
    by (auto simp: name_char_def alnum_def is_letter_def is_digit_def)
qed

lemma name_char_host: "name_char c \<Longrightarrow> c \<noteq> CHR ''%'' \<and> \<not> escape_in_host c \<and> \<not> ctl_byte c"
  by (auto simp: name_char_def escape_in_host_def alnum_def is_letter_def is_digit_def ctl_byte_def)

lemma parseHost_name:
  assumes "list_all name_char h"
  shows "parseHost h = Some h"
proof -
  have no: "c \<notin> set h" if "c \<in> set '':[''" for c
    using name_char_no_punct [OF assms, of c] that by auto
  have "cut_last (CHR ''['') h = None" "cut_last (CHR '':'') h = None"
    using no by (auto simp: cut_last_None)
  moreover have "unescape EncodeHost h = Some h"
    by (rule unescape_id) (use assms name_char_host in \<open>auto simp: list_all_iff\<close>)
  ultimately show ?thesis by (simp add: parseHost_def)
qed

section \<open>How a URL with a host looks\<close>

text \<open>
  A text that parses into a URL with a scheme and a host is \<^verbatim>\<open>scheme://authority/path\<close>, with a query
  or a fragment behind it only if the URL has one.
\<close>

lemma getScheme_shape: "getScheme s = Some (sch, r) \<Longrightarrow> sch \<noteq> [] \<Longrightarrow> s = sch @ CHR '':'' # r"
  by (auto simp: getScheme_def Let_def split: list.splits if_splits)
    (metis takeWhile_dropWhile_id)

lemma getScheme_chars: "getScheme s = Some (sch, r) \<Longrightarrow> list_all scheme_char sch"
  by (auto simp: getScheme_def Let_def list_all_iff dest: set_takeWhileD split: list.splits if_splits)

lemma parse_hierarchy_shape:
  assumes "parse_hierarchy u rest = Some v" and "Host v \<noteq> []" and "Host u = []"
  shows "\<exists>auth p. rest = ''//'' @ auth @ p \<and> CHR ''/'' \<notin> set auth \<and>
           parseAuthority auth = Some (User v, Host v) \<and> unescape EncodePath p = Some (Path v) \<and>
           UScheme v = UScheme u \<and> ForceQuery v = ForceQuery u \<and> RawQuery v = RawQuery u \<and>
           Fragment v = Fragment u"
proof -
  let ?d = "drop 2 rest"
  let ?auth = "takeWhile (\<lambda>c. c \<noteq> CHR ''/'') ?d" and ?p = "dropWhile (\<lambda>c. c \<noteq> CHR ''/'') ?d"
  have pre: "has_prefix rest ''//''"
    using assms by (auto simp: parse_hierarchy_def bind_eq_Some_conv split: if_splits)
  then have "rest = ''//'' @ ?d" by (auto simp: has_prefix_iff)
  then have "rest = ''//'' @ ?auth @ ?p" by simp
  moreover have "CHR ''/'' \<notin> set ?auth" by (auto dest: set_takeWhileD)
  moreover have "parseAuthority ?auth = Some (User v, Host v) \<and> unescape EncodePath ?p = Some (Path v) \<and>
      UScheme v = UScheme u \<and> ForceQuery v = ForceQuery u \<and> RawQuery v = RawQuery u \<and> Fragment v = Fragment u"
    using assms pre
    by (auto simp: parse_hierarchy_def bind_eq_Some_conv split: if_splits)
  ultimately show ?thesis by blast
qed

lemma split_query_none:
  "split_query r = (rest, False, []) \<Longrightarrow> rest = r \<and> CHR ''?'' \<notin> set r"
  by (auto simp: split_query_def cut_None split: prod.splits option.splits)

lemma parse_url_shape:
  assumes "parse_url raw = Some v" and "Host v \<noteq> []" and "UScheme v \<noteq> []"
    and "RawQuery v = []" and "\<not> ForceQuery v"
  shows "\<exists>sch auth p. raw = sch @ ''://'' @ auth @ p \<and> map to_lower sch = UScheme v \<and>
           CHR ''?'' \<notin> set (auth @ p) \<and> CHR ''/'' \<notin> set auth \<and>
           parseAuthority auth = Some (User v, Host v) \<and> unescape EncodePath p = Some (Path v) \<and>
           Fragment v = []"
proof -
  obtain sch r where sch: "getScheme raw = Some (sch, r)"
    using assms(1,2) by (auto simp: parse_url_def no_url_def split: if_splits option.splits)
  obtain rest force query where q: "split_query r = (rest, force, query)" by (metis prod_cases3)
  let ?u = "no_url\<lparr>UScheme := map to_lower sch, ForceQuery := force, RawQuery := query\<rparr>"
  have h: "parse_hierarchy ?u rest = Some v"
    using assms(1,2) sch q by (auto simp: parse_url_def no_url_def Let_def split: if_splits)
  from parse_hierarchy_shape [OF h assms(2)] obtain auth p where
    ap: "rest = ''//'' @ auth @ p" "CHR ''/'' \<notin> set auth"
      "parseAuthority auth = Some (User v, Host v)" "unescape EncodePath p = Some (Path v)"
      "UScheme v = map to_lower sch" "ForceQuery v = force" "RawQuery v = query" "Fragment v = []"
    by (auto simp: no_url_def)
  from ap(6,7) assms(4,5) q have "split_query r = (rest, False, [])" by simp
  from split_query_none [OF this] have r: "rest = r" "CHR ''?'' \<notin> set r" by auto
  from ap(5) assms(3) have "sch \<noteq> []" by auto
  from getScheme_shape [OF sch this] r ap show ?thesis
    by (intro exI [of _ sch] exI [of _ auth] exI [of _ p]) auto
qed

theorem Parse_shape:
  assumes "Parse raw = Some v" and "Host v \<noteq> []" and "UScheme v \<noteq> []"
    and "RawQuery v = []" and "\<not> ForceQuery v" and "Fragment v = []"
  shows "\<exists>sch auth p fr. raw = sch @ ''://'' @ auth @ p @ fr \<and> fr \<in> {[], ''#''} \<and>
           map to_lower sch = UScheme v \<and> CHR ''?'' \<notin> set (auth @ p) \<and> CHR ''#'' \<notin> set (auth @ p) \<and>
           CHR ''/'' \<notin> set auth \<and> parseAuthority auth = Some (User v, Host v) \<and>
           unescape EncodePath p = Some (Path v)"
proof -
  obtain u frag where c: "cut (CHR ''#'') raw = (u, frag)" by fastforce
  then obtain w where w: "parse_url u = Some w" using assms(1) by (auto simp: Parse_def split: option.splits)
  have fr: "frag = None \<or> frag = Some []" and v: "v = w"
  proof -
    have "frag = None \<or> frag = Some [] \<or> (\<exists>f. frag = Some f \<and> f \<noteq> [])" by (cases frag) auto
    moreover have False if "frag = Some f" "f \<noteq> []" for f
    proof -
      from that assms(1) c w obtain g where g: "unescape EncodeFragment f = Some g" "v = w\<lparr>Fragment := g\<rparr>"
        by (auto simp: Parse_def)
      from g(2) assms(6) have "g = []" by simp
      with g(1) that(2) show False by (cases f) (auto split: list.splits option.splits if_splits)
    qed
    ultimately show "frag = None \<or> frag = Some []" by blast
    with assms(1) c w show "v = w" by (auto simp: Parse_def)
  qed
  from parse_url_shape [OF w] assms v obtain sch auth p where
    "u = sch @ ''://'' @ auth @ p" "map to_lower sch = UScheme v"
    "CHR ''?'' \<notin> set (auth @ p)" "CHR ''/'' \<notin> set auth"
    "parseAuthority auth = Some (User v, Host v)" "unescape EncodePath p = Some (Path v)"
    by blast
  moreover have "raw = u @ (case frag of None \<Rightarrow> [] | Some f \<Rightarrow> CHR ''#'' # f)" "CHR ''#'' \<notin> set u"
    using c by (cases frag; simp add: cut_None cut_Some)+
  ultimately show ?thesis using fr
    by (intro exI [of _ sch] exI [of _ auth] exI [of _ p]
        exI [of _ "case frag of None \<Rightarrow> [] | Some f \<Rightarrow> CHR ''#'' # f"]) auto
qed

section \<open>The usual URLs parse\<close>

lemma getScheme_of:
  assumes "sch \<noteq> []" and "list_all scheme_char sch" and "is_letter (hd sch)"
  shows "getScheme (sch @ CHR '':'' # r) = Some (sch, r)"
proof -
  have "\<not> scheme_char (CHR '':'')" by (simp add: scheme_char_def alnum_def is_letter_def is_digit_def)
  then have "takeWhile scheme_char (sch @ CHR '':'' # r) = sch"
    "dropWhile scheme_char (sch @ CHR '':'' # r) = CHR '':'' # r"
    using assms(2) by (auto simp: list_all_iff takeWhile_append2 dropWhile_append2 takeWhile_append)
  with assms show ?thesis by (simp add: getScheme_def)
qed

text \<open>A scheme, a host name or any other authority without user, and a plain path.\<close>

theorem Parse_of:
  assumes "sch \<in> {''http'', ''https''}" and "list_all name_char h"
    and "CHR ''?'' \<notin> set p" "CHR ''#'' \<notin> set p" "CHR ''%'' \<notin> set p" "list_all (\<lambda>c. \<not> ctl_byte c) p"
    and "p = [] \<or> hd p = CHR ''/''"
  shows "Parse (sch @ ''://'' @ h @ p) = Some (no_url\<lparr>UScheme := sch, Host := h, Path := p\<rparr>)"
proof -
  let ?raw = "sch @ ''://'' @ h @ p"
  note no = name_char_no_punct [OF assms(2)]
  have hash: "CHR ''#'' \<notin> set ?raw" using assms(1,4) no [of "CHR ''#''"] by auto
  have ctl: "\<not> list_ex ctl_byte ?raw"
    using assms(1,2,6) name_char_host
    by (auto simp: list_ex_iff list_all_iff ctl_byte_def)
  have sch: "getScheme ?raw = Some (sch, ''//'' @ h @ p)"
    using getScheme_of [of sch "''//'' @ h @ p"] assms(1)
    by (auto simp: scheme_char_def alnum_def is_letter_def)
  have q: "split_query (''//'' @ h @ p) = (''//'' @ h @ p, False, [])"
    using assms(3) no [of "CHR ''?''"] by (simp add: split_query_def)
  have auth: "parseAuthority h = Some (None, h)"
    using no [of "CHR ''@''"] parseHost_name [OF assms(2)] by (simp add: parseAuthority_def cut_last_None [THEN iffD2])
  have slash: "takeWhile (\<lambda>c. c \<noteq> CHR ''/'') (h @ p) = h" "dropWhile (\<lambda>c. c \<noteq> CHR ''/'') (h @ p) = p"
    using assms(7) no [of "CHR ''/''"] by (cases p; auto simp: takeWhile_append dropWhile_append)+
  have low: "map to_lower sch = sch" using assms(1) by (auto simp: to_lower_def)
  have "parse_hierarchy (no_url\<lparr>UScheme := sch, ForceQuery := False, RawQuery := []\<rparr>) (''//'' @ h @ p) =
      Some (no_url\<lparr>UScheme := sch, Host := h, Path := p\<rparr>)"
    using assms(1) auth slash unescape_path_id [OF assms(5)]
    by (auto simp: parse_hierarchy_def has_prefix_iff no_url_def)
  then have "parse_url ?raw = Some (no_url\<lparr>UScheme := sch, Host := h, Path := p\<rparr>)"
    using ctl sch q low assms(1) by (auto simp: parse_url_def has_prefix_iff)
  with hash show ?thesis by (simp add: Parse_def)
qed

end
