(* ===== verification/Config.thy ===== *)
theory Config
  imports Go_Url
begin

text \<open>
  \<^verbatim>\<open>internal/config/config.go\<close>: the runtime configuration, read from the process environment (a map)
  after the \<^verbatim>\<open>.env\<close> file was merged into it. The files are a parameter: the content of a file that
  can be opened. Errors are the values of \<open>config_error\<close>, one constructor for each message of the
  source, with the values it prints. The map with the required keys is ranged over in an arbitrary
  order.
\<close>

section \<open>The environment\<close>

type_synonym environ = "string \<rightharpoonup> string"

text \<open>\<^verbatim>\<open>os.Getenv\<close> and \<^verbatim>\<open>os.Setenv\<close>; the latter refuses an empty key and NUL bytes.\<close>

definition getenv :: "environ \<Rightarrow> string \<Rightarrow> string" where
  "getenv e k = (case e k of None \<Rightarrow> [] | Some v \<Rightarrow> v)"

definition setenv :: "string \<Rightarrow> string \<Rightarrow> environ \<Rightarrow> environ" where
  "setenv k v e =
     (if k = [] \<or> CHR ''='' \<in> set k \<or> CHR 0x00 \<in> set k \<or> CHR 0x00 \<in> set v then e else e(k \<mapsto> v))"

text \<open>
  \<^verbatim>\<open>bufio.Scanner\<close> with \<^verbatim>\<open>ScanLines\<close>: a line ends with a newline or with the file, loses one carriage
  return at its end, and scanning stops at a line that does not fit the buffer of 65536 bytes.
\<close>

definition drop_cr :: "string \<Rightarrow> string" where
  "drop_cr s = (if s \<noteq> [] \<and> last s = CHR 0x0D then butlast s else s)"

definition scan_lines :: "string \<Rightarrow> string list" where
  "scan_lines text =
     (let ls = split_on (CHR 0x0A) text; ls' = (if last ls = [] then butlast ls else ls) in
      map drop_cr (takeWhile (\<lambda>l. int (length l) \<le> 65535) ls'))"

text \<open>The key and the value of a line, for a line that has them.\<close>

definition env_line :: "string \<Rightarrow> (string \<times> string) option" where
  "env_line l =
     (let line = trim_space l in
      if line = [] \<or> has_prefix line ''#'' then None
      else case cut (CHR ''='') line of
             (k, None) \<Rightarrow> None
           | (k, Some v) \<Rightarrow> Some (trim_space k, trim_space v))"

definition load_line :: "string \<Rightarrow> environ \<Rightarrow> environ" where
  "load_line l e =
     (case env_line l of
        None \<Rightarrow> e
      | Some (k, v) \<Rightarrow> if e k = None then setenv k v e else e)"

definition loadDotEnv :: "(string \<Rightarrow> string option) \<Rightarrow> environ \<Rightarrow> environ" where
  "loadDotEnv files e =
     (let name = (if getenv e ''NODE_ENV'' = ''production'' then ''.env'' else ''.env.development'') in
      case files name of None \<Rightarrow> e | Some text \<Rightarrow> fold load_line (scan_lines text) e)"

section \<open>The configuration\<close>

record config =
  BindAddr :: string
  DragonflyURL :: string
  BackendURL :: string
  BackendAPIKey :: string
  NoiseBackendHost :: string
  NoiseBackendPort :: string
  BridgePort :: string
  XClientID :: string
  XClientSecret :: string
  ContainerdSock :: string
  Namespace :: string
  Runtime :: string
  RuntimeConfig :: string
  KataRuntimeBin :: string
  Snapshotter :: string
  RootfsImage :: string
  CNIBinDir :: string
  CNIConfDir :: string
  UserHomesDir :: string
  MaxVMs :: int
  HostMemoryReserveMiB :: "64 word"
  VMMemoryMiB :: "64 word"
  SSHPublicHost :: string
  SSHPortStart :: int
  SSHPortEnd :: int
  SSHAuthURL :: string

datatype config_error =
  NotPositive string string
| KeyRequired string
| SSHIncomplete
| BadHostname string
| BadPortRange int int
| BadAuthURL string
| InsecureAuthURL string
| NoiseHostRequired

section \<open>Integers\<close>

text \<open>\<^verbatim>\<open>underscoreOK\<close> of \<^verbatim>\<open>strconv\<close>, on a number without sign; \<open>prev\<close> classifies the previous byte.\<close>

fun underscores_from :: "char \<Rightarrow> bool \<Rightarrow> string \<Rightarrow> bool" where
  "underscores_from prev hex [] \<longleftrightarrow> prev \<noteq> CHR ''_''"
| "underscores_from prev hex (c # s) \<longleftrightarrow>
     (if is_digit c \<or> (hex \<and> hex_val c \<noteq> None) then underscores_from (CHR ''0'') hex s
      else if c = CHR ''_'' then prev = CHR ''0'' \<and> underscores_from (CHR ''_'') hex s
      else prev \<noteq> CHR ''_'' \<and> underscores_from (CHR ''!'') hex s)"

text \<open>The base a number without sign is in, and its digits.\<close>

definition number_base :: "string \<Rightarrow> nat \<times> string" where
  "number_base s =
     (case s of
        c # d # r \<Rightarrow>
          if c \<noteq> CHR ''0'' then (10, s)
          else if r \<noteq> [] \<and> to_lower d = CHR ''b'' then (2, r)
          else if r \<noteq> [] \<and> to_lower d = CHR ''o'' then (8, r)
          else if r \<noteq> [] \<and> to_lower d = CHR ''x'' then (16, r)
          else (8, d # r)
      | [c] \<Rightarrow> if c = CHR ''0'' then (8, []) else (10, s)
      | [] \<Rightarrow> (10, []))"

definition underscoreOK :: "string \<Rightarrow> bool" where
  "underscoreOK s =
     (case s of
        c # d # r \<Rightarrow>
          if c = CHR ''0'' \<and> to_lower d \<in> set ''box''
          then underscores_from (CHR ''0'') (to_lower d = CHR ''x'') r
          else underscores_from (CHR ''^'') False s
      | _ \<Rightarrow> underscores_from (CHR ''^'') False s)"

definition digits_value :: "nat \<Rightarrow> string \<Rightarrow> nat" where
  "digits_value b s =
     foldl (\<lambda>a c. if c = CHR ''_'' then a else b * a + (case hex_val c of None \<Rightarrow> 0 | Some d \<Rightarrow> d)) 0 s"

text \<open>\<^verbatim>\<open>strconv.ParseUint(s, 0, 64)\<close>, without its upper bound.\<close>

definition parse_uint0 :: "string \<Rightarrow> nat option" where
  "parse_uint0 s =
     (case number_base s of (b, ds) \<Rightarrow>
        if s \<noteq> [] \<and>
           list_all (\<lambda>c. c = CHR ''_'' \<or> (case hex_val c of None \<Rightarrow> False | Some d \<Rightarrow> d < b)) ds \<and>
           (CHR ''_'' \<in> set ds \<longrightarrow> underscoreOK s)
        then Some (digits_value b ds) else None)"

text \<open>
  \<^verbatim>\<open>fmt.Sscan(s, &value)\<close> for an \<^verbatim>\<open>int\<close>: space, a sign, a prefix that tells the base, and as many
  digits of that base as there are. What follows is not read.
\<close>

definition base_prefix :: "string \<Rightarrow> string \<times> string \<times> string" where
  "base_prefix s =
     (case s of
        c # d # r \<Rightarrow>
          if c \<noteq> CHR ''0'' then ([], ''0123456789_'', s)
          else if d \<in> set ''bB'' then ([c, d], ''01_'', r)
          else if d \<in> set ''oO'' then ([c, d], ''01234567_'', r)
          else if d \<in> set ''xX'' then ([c, d], ''0123456789aAbBcCdDeEfF_'', r)
          else ([c], ''01234567_'', d # r)
      | [c] \<Rightarrow> if c = CHR ''0'' then ([c], ''01234567_'', []) else ([], ''0123456789_'', s)
      | [] \<Rightarrow> ([], ''0123456789_'', []))"

definition sscan_int :: "string \<Rightarrow> int option" where
  "sscan_int s =
     (let s1 = dropWhile is_space s;
          signed = (s1 \<noteq> [] \<and> hd s1 \<in> set ''+-'');
          s2 = (if signed then tl s1 else s1) in
      case base_prefix s2 of (pre, digs, s3) \<Rightarrow>
        let num = pre @ takeWhile (\<lambda>c. c \<in> set digs) s3 in
        if num = [] then None
        else case parse_uint0 num of
               None \<Rightarrow> None
             | Some n \<Rightarrow>
                 (let i = (if signed \<and> hd s1 = CHR ''-'' then - int n else int n) in
                  if in_int64 i then Some i else None))"

definition env :: "environ \<Rightarrow> string \<Rightarrow> string \<Rightarrow> string" where
  "env e key def = (let v = getenv e key in if v \<noteq> [] then v else def)"

definition envInt :: "environ \<Rightarrow> string \<Rightarrow> int \<Rightarrow> config_error + int" where
  "envInt e key def =
     (let raw = env e key (dec_int def) in
      case sscan_int raw of
        Some v \<Rightarrow> if v > 0 then Inr v else Inl (NotPositive key raw)
      | None \<Rightarrow> Inl (NotPositive key raw))"

section \<open>The SSH relay\<close>

definition SSHEnabled :: "config \<Rightarrow> bool" where
  "SSHEnabled c \<longleftrightarrow> SSHPublicHost c \<noteq> []"

definition sshAuthPath :: string where
  "sshAuthPath = ''/api/cloud-ssh/authorized-key''"

text \<open>\<^verbatim>\<open>hostRe\<close>: letters, digits, dots and dashes, with a letter or a digit at both ends.\<close>

definition hostRe :: "string \<Rightarrow> bool" where
  "hostRe s \<longleftrightarrow> s \<noteq> [] \<and> list_all name_char s \<and> alnum (hd s) \<and> alnum (last s)"

definition local_host :: "url \<Rightarrow> bool" where
  "local_host u =
     (Hostname u = ''localhost'' \<or>
      (case ParseIP (Hostname u) of None \<Rightarrow> False | Some ip \<Rightarrow> IsLoopback ip \<or> IsPrivate ip))"

definition validateSSHAuthURL :: "string \<Rightarrow> string \<Rightarrow> config_error option" where
  "validateSSHAuthURL raw nodeEnv =
     (case Parse raw of
        None \<Rightarrow> Some (BadAuthURL raw)
      | Some u \<Rightarrow>
          if Host u = [] \<or> User u \<noteq> None \<or> RawQuery u \<noteq> [] \<or> ForceQuery u \<or> Fragment u \<noteq> [] \<or>
             Path u \<noteq> sshAuthPath then Some (BadAuthURL raw)
          else if UScheme u = ''https'' then None
          else if UScheme u = ''http'' \<and> nodeEnv \<in> {''development'', ''test''} \<and> local_host u then None
          else Some (InsecureAuthURL raw))"

definition loadSSH :: "environ \<Rightarrow> config \<Rightarrow> config_error + config" where
  "loadSSH e c =
     (let host = getenv e ''SSH_PUBLIC_HOST''; start = getenv e ''SSH_PORT_START'';
          fin = getenv e ''SSH_PORT_END'' in
      if host = [] \<and> start = [] \<and> fin = [] then Inr (c\<lparr>SSHPublicHost := host\<rparr>)
      else if host = [] \<or> start = [] \<or> fin = [] then Inl SSHIncomplete
      else if length host > 253 \<or> \<not> hostRe host then Inl (BadHostname host)
      else case envInt e ''SSH_PORT_START'' 0 of
        Inl err \<Rightarrow> Inl err
      | Inr a \<Rightarrow>
          (case envInt e ''SSH_PORT_END'' 0 of
             Inl err \<Rightarrow> Inl err
           | Inr b \<Rightarrow>
               if b > 65535 \<or> a > b then Inl (BadPortRange a b)
               else let url = env e ''SSH_AUTH_URL'' (trim_right (CHR ''/'') (BackendURL c) @ sshAuthPath) in
                    case validateSSHAuthURL url (getenv e ''NODE_ENV'') of
                      Some err \<Rightarrow> Inl err
                    | None \<Rightarrow> Inr (c\<lparr>SSHPublicHost := host, SSHPortStart := a, SSHPortEnd := b, SSHAuthURL := url\<rparr>)))"

section \<open>Loading\<close>

text \<open>The fields that are read as they are, with their defaults.\<close>

definition config_of :: "environ \<Rightarrow> int \<Rightarrow> int \<Rightarrow> int \<Rightarrow> config" where
  "config_of e maxVMs reserveMiB vmMemoryMiB =
     \<lparr>BindAddr = env e ''BIND_ADDR'' ''0.0.0.0:8200'',
      DragonflyURL = getenv e ''DRAGONFLY_URL'',
      BackendURL = getenv e ''BACKEND_URL'',
      BackendAPIKey = getenv e ''BACKEND_ADMIN_API_KEY'',
      NoiseBackendHost = getenv e ''NOISE_BACKEND_HOST'',
      NoiseBackendPort = getenv e ''NOISE_BACKEND_PORT'',
      BridgePort = getenv e ''BRIDGE_PORT'',
      XClientID = getenv e ''X_CLIENT_ID'',
      XClientSecret = getenv e ''X_CLIENT_SECRET'',
      ContainerdSock = env e ''CONTAINERD_SOCK'' ''/run/containerd/containerd.sock'',
      Namespace = env e ''CONTAINERD_NAMESPACE'' ''sandbox'',
      Runtime = env e ''SANDBOX_RUNTIME'' ''io.containerd.kata-fc.v2'',
      RuntimeConfig = env e ''SANDBOX_RUNTIME_CONFIG'' ''/opt/kata/share/defaults/kata-containers/configuration-fc.toml'',
      KataRuntimeBin = env e ''KATA_RUNTIME_BIN'' ''/opt/kata/bin/kata-runtime'',
      Snapshotter = env e ''SANDBOX_SNAPSHOTTER'' ''devmapper'',
      RootfsImage = env e ''SANDBOX_ROOTFS_IMAGE'' ''docker.io/todoforai/sandbox-rootfs:latest'',
      CNIBinDir = env e ''CNI_BIN_DIR'' ''/opt/cni/bin'',
      CNIConfDir = env e ''CNI_CONF_DIR'' ''/etc/cni/net.d'',
      UserHomesDir = env e ''USER_HOMES_DIR'' ''/data/user-homes'',
      MaxVMs = maxVMs,
      HostMemoryReserveMiB = of_int reserveMiB,
      VMMemoryMiB = of_int vmMemoryMiB,
      SSHPublicHost = [], SSHPortStart = 0, SSHPortEnd = 0, SSHAuthURL = []\<rparr>"

definition required :: "config \<Rightarrow> (string \<times> string) list" where
  "required c = [(''DRAGONFLY_URL'', DragonflyURL c), (''BACKEND_URL'', BackendURL c),
     (''BACKEND_ADMIN_API_KEY'', BackendAPIKey c)]"

definition load_env ::
  "((string \<times> string) list \<Rightarrow> (string \<times> string) list) \<Rightarrow> environ \<Rightarrow> config_error + config" where
  "load_env order e =
     (case envInt e ''SANDBOX_MAX_VMS'' 48 of Inl err \<Rightarrow> Inl err | Inr maxVMs \<Rightarrow>
      case envInt e ''SANDBOX_HOST_MEMORY_RESERVE_MIB'' (24 * 1024) of Inl err \<Rightarrow> Inl err | Inr reserveMiB \<Rightarrow>
      case envInt e ''SANDBOX_VM_MEMORY_MIB'' (2 * 1024) of Inl err \<Rightarrow> Inl err | Inr vmMemoryMiB \<Rightarrow>
      let c = config_of e maxVMs reserveMiB vmMemoryMiB in
      case find (\<lambda>(k, v). v = []) (order (required c)) of
        Some (k, v) \<Rightarrow> Inl (KeyRequired k)
      | None \<Rightarrow>
          (case loadSSH e c of
             Inl err \<Rightarrow> Inl err
           | Inr c' \<Rightarrow>
               if getenv e ''NODE_ENV'' \<noteq> ''production'' \<and> NoiseBackendHost c' = []
               then Inl NoiseHostRequired else Inr c'))"

definition Load ::
  "((string \<times> string) list \<Rightarrow> (string \<times> string) list) \<Rightarrow> (string \<Rightarrow> string option) \<Rightarrow> environ \<Rightarrow>
   config_error + config" where
  "Load order files e = load_env order (loadDotEnv files e)"

end
