(* ===== verification/Service_State.thy ===== *)
theory Service_State
  imports Store Relay Userhome Config
begin

text \<open>
  The state and the surroundings of \<^verbatim>\<open>internal/service/service.go\<close>. A \<open>world\<close> holds the connection to
  the store, the VM manager's state, the file system, the SSH relay, the set of ids with a
  \<^verbatim>\<open>PrepareSSH\<close> mutex, the counters of the admission control, and a count of the questions put to
  the surroundings. A \<open>surroundings\<close> record answers these: the store's server, the VM manager behind
  the Go interface \<^verbatim>\<open>vmManager\<close>, the host tools, the configuration, the clocks, the random source,
  \<^verbatim>\<open>statfs\<close>, \<^verbatim>\<open>/proc/meminfo\<close>, the backend that mints enrollment tokens, SHA-256, and the order in
  which Go ranges over a map. All are arbitrary functions; the VM manager acts on a state of its own
  type \<open>'v\<close>, so it may also change by itself between two calls.
\<close>

section \<open>The VM manager's interface\<close>

datatype liveness = LiveUnknown | LiveYes | LiveNo

record vm_spec =
  SpecID :: string
  SpecUserID :: string
  SpecTemplate :: string
  SpecSize :: string
  SpecResources :: resources
  EnrollToken :: string
  HomeImg :: string
  DeviceName :: string

record 'v vm_manager_ops =
  vm_create :: "vm_spec \<Rightarrow> 'v \<Rightarrow> (goerr + string) \<times> 'v"
  vm_delete :: "string \<Rightarrow> 'v \<Rightarrow> goerr option \<times> 'v"
  vm_is_live :: "string \<Rightarrow> 'v \<Rightarrow> liveness \<times> 'v"
  vm_log_tail :: "string \<Rightarrow> nat \<Rightarrow> 'v \<Rightarrow> string \<times> 'v"
  vm_exec :: "string \<Rightarrow> string list \<Rightarrow> 'v \<Rightarrow> (goerr + string \<times> int) \<times> 'v"
  vm_cleanup_stopped :: "'v \<Rightarrow> (goerr + int) \<times> 'v"
  vm_running_count :: "'v \<Rightarrow> (goerr + int) \<times> 'v"

section \<open>Surroundings and state\<close>

record ('r, 'v, 'h) surroundings =
  rds :: "'r redis_env"
  vmm :: "'v vm_manager_ops"
  hostops :: "'h host"
  cfg :: config
  now_ms :: "nat \<Rightarrow> i64"
  now_ns :: "nat \<Rightarrow> int"
  random16 :: "nat \<Rightarrow> 8 word list"
  statfs :: "nat \<Rightarrow> goerr + 64 word \<times> 64 word"
  meminfo :: "nat \<Rightarrow> goerr + string"
  mint :: "nat \<Rightarrow> string \<Rightarrow> string \<Rightarrow> 32 word \<Rightarrow> goerr + string"
  sha256 :: "string \<Rightarrow> 8 word list"
  may_listen :: "nat \<Rightarrow> nat \<Rightarrow> int \<Rightarrow> bool"
  map_range :: "nat \<Rightarrow> (string \<times> string) list \<Rightarrow> (string \<times> string) list"

record ('r, 'v, 'h) world =
  rdb :: "'r conn"
  vms :: 'v
  fs :: 'h
  ssh :: "relay option"
  sshPrep :: "string set"
  pendingCreates :: int
  pendingMiB :: "64 word"
  capacityRejected :: "64 word"
  asked :: nat

type_synonym ('r, 'v, 'h, 'a) svc = "(('r, 'v, 'h) world, 'a) state"

section \<open>Running the parts\<close>

definition on_store :: "('r conn, 'a) state \<Rightarrow> ('r, 'v, 'h, 'a) svc" where
  "on_store m = zoom rdb (\<lambda>c w. w\<lparr>rdb := c\<rparr>) m"

definition on_vms :: "('v \<Rightarrow> 'a \<times> 'v) \<Rightarrow> ('r, 'v, 'h, 'a) svc" where
  "on_vms f = zoom vms (\<lambda>v w. w\<lparr>vms := v\<rparr>) (State f)"

definition on_fs :: "('h, 'a) state \<Rightarrow> ('r, 'v, 'h, 'a) svc" where
  "on_fs m = zoom fs (\<lambda>h w. w\<lparr>fs := h\<rparr>) m"

definition on_ssh :: "(relay option \<Rightarrow> 'a \<times> relay option) \<Rightarrow> ('r, 'v, 'h, 'a) svc" where
  "on_ssh f = zoom ssh (\<lambda>r w. w\<lparr>ssh := r\<rparr>) (State f)"

text \<open>A question to the surroundings; the next one is another question.\<close>

definition ask :: "(nat \<Rightarrow> 'a) \<Rightarrow> ('r, 'v, 'h, 'a) svc" where
  "ask f = State (\<lambda>w. (f (asked w), w\<lparr>asked := Suc (asked w)\<rparr>))"

definition forget_prep :: "string \<Rightarrow> ('r, 'v, 'h, unit) svc" where
  "forget_prep i = modify (\<lambda>w. w\<lparr>sshPrep := sshPrep w - {i}\<rparr>)"

definition close_ssh :: "string \<Rightarrow> ('r, 'v, 'h, unit) svc" where
  "close_ssh i = on_ssh (\<lambda>r. ((), Close i r))"

lemma wp_on_store [wp_simps]: "wp (on_store m) Q w \<longleftrightarrow> wp m (\<lambda>a c. Q a (w\<lparr>rdb := c\<rparr>)) (rdb w)"
  by (simp add: on_store_def wp_zoom)

lemma wp_on_vms [wp_simps]:
  "wp (on_vms f) Q w \<longleftrightarrow> Q (fst (f (vms w))) (w\<lparr>vms := snd (f (vms w))\<rparr>)"
  by (simp add: on_vms_def wp_zoom wp_State)

lemma wp_on_fs [wp_simps]: "wp (on_fs m) Q w \<longleftrightarrow> wp m (\<lambda>a h. Q a (w\<lparr>fs := h\<rparr>)) (fs w)"
  by (simp add: on_fs_def wp_zoom)

lemma wp_on_ssh [wp_simps]:
  "wp (on_ssh f) Q w \<longleftrightarrow> Q (fst (f (ssh w))) (w\<lparr>ssh := snd (f (ssh w))\<rparr>)"
  by (simp add: on_ssh_def wp_zoom wp_State)

lemma wp_ask [wp_simps]: "wp (ask f) Q w \<longleftrightarrow> Q (f (asked w)) (w\<lparr>asked := Suc (asked w)\<rparr>)"
  by (simp add: ask_def wp_State)

lemma wp_forget_prep [wp_simps]:
  "wp (forget_prep i) Q w \<longleftrightarrow> Q () (w\<lparr>sshPrep := sshPrep w - {i}\<rparr>)"
  by (simp add: forget_prep_def wp_modify)

lemma wp_close_ssh [wp_simps]: "wp (close_ssh i) Q w \<longleftrightarrow> Q () (w\<lparr>ssh := Close i (ssh w)\<rparr>)"
  by (simp add: close_ssh_def wp_on_ssh)

end
