(* ===== verification/Service.thy ===== *)
theory Service
  imports Service_State
begin

text \<open>
  \<^verbatim>\<open>internal/service/service.go\<close>: every method of \<^verbatim>\<open>Service\<close>, as a program over \<open>world\<close>. A method
  that shares its name with one of another component has the prefix \<open>Svc\<close>. A \<^verbatim>\<open>context\<close> is
  \<open>Caller\<close> or, where the code detaches it from the caller's cancellation, \<open>Detached\<close>. What is only
  logged is dropped.
\<close>

section \<open>Constants and tables\<close>

definition enrollTTLSec :: "32 word" where "enrollTTLSec = 300"
definition maxDiskPercent :: int where "maxDiskPercent = 90"
definition reconcileGraceMillis :: int where "reconcileGraceMillis = 5 * 60 * 1000"
definition errorGCMillis :: int where "errorGCMillis = 24 * 60 * 60 * 1000"

definition costPerMinute :: "string \<Rightarrow> rat" where
  "costPerMinute sz =
     (if sz = ''small'' then 25 / 10000 else if sz = ''medium'' then 5 / 1000
      else if sz = ''large'' then 1 / 100 else if sz = ''xlarge'' then 2 / 100 else 5 / 1000)"

definition diskSizeMiBForTier :: "string \<Rightarrow> 64 word" where
  "diskSizeMiBForTier sz =
     (if sz = ''small'' then 512 else if sz = ''medium'' then 2 * 1024
      else if sz = ''large'' then 8 * 1024 else if sz = ''xlarge'' then 20 * 1024 else 2 * 1024)"

definition deviceNameFor :: "('r, 'v, 'h) surroundings \<Rightarrow> string \<Rightarrow> string" where
  "deviceNameFor E u = ''vm_'' @ take 8 (hex_encode (sha256 E u))"

definition newID :: "('r, 'v, 'h) surroundings \<Rightarrow> ('r, 'v, 'h, string) svc" where
  "newID E = do { b \<leftarrow> ask (random16 E); ret (hex_encode b) }"

text \<open>\<^verbatim>\<open>diskUsagePercent\<close>, from the \<^verbatim>\<open>Blocks\<close> and \<^verbatim>\<open>Bavail\<close> of \<^verbatim>\<open>statfs\<close>.\<close>

definition usage_percent :: "64 word \<Rightarrow> 64 word \<Rightarrow> goerr + int" where
  "usage_percent blocks bavail =
     (if blocks = 0 then Inl (Foreign ''statfs reported zero blocks'')
      else Inr (sint (((blocks - bavail) * 100 + blocks - 1) div blocks)))"

definition diskUsagePercent :: "('r, 'v, 'h) surroundings \<Rightarrow> ('r, 'v, 'h, goerr + int) svc" where
  "diskUsagePercent E =
     do { st \<leftarrow> ask (statfs E);
          ret (case st of Inl e \<Rightarrow> Inl e | Inr (blocks, bavail) \<Rightarrow> usage_percent blocks bavail) }"

fun mem_available :: "string list \<Rightarrow> goerr + 64 word" where
  "mem_available [] = Inl (Foreign ''MemAvailable not found'')"
| "mem_available (line # lines) =
     (let ws = Go_Strings.fields line in
      if length ws \<ge> 2 \<and> ws ! 0 = ''MemAvailable:''
      then (case parse_uint64 (ws ! 1) of
              None \<Rightarrow> Inl (Foreign ''strconv.ParseUint'')
            | Some kib \<Rightarrow> Inr (kib div 1024))
      else mem_available lines)"

definition memAvailableMiB :: "('r, 'v, 'h) surroundings \<Rightarrow> ('r, 'v, 'h, goerr + 64 word) svc" where
  "memAvailableMiB E =
     do { d \<leftarrow> ask (meminfo E);
          ret (case d of Inl e \<Rightarrow> Inl e | Inr txt \<Rightarrow> mem_available (split_on (CHR ''\<newline>'') txt)) }"

definition lastLine :: "string \<Rightarrow> string" where
  "lastLine b = trim_space (last (split_on (CHR ''\<newline>'') (trim_space b)))"

definition key_char :: "char \<Rightarrow> bool" where
  "key_char c \<longleftrightarrow>
     (let n = of_char c :: nat in
      (65 \<le> n \<and> n \<le> 90) \<or> (97 \<le> n \<and> n \<le> 122) \<or> is_digit c \<or> c = CHR ''+'' \<or> c = CHR ''/'')"

definition hostKeyRe :: "string \<Rightarrow> bool" where
  "hostKeyRe s \<longleftrightarrow>
     (case cut_prefix s ''ssh-ed25519 '' of None \<Rightarrow> False | Some k \<Rightarrow> length k = 68 \<and> list_all key_char k)"

section \<open>Admission\<close>

definition capacity_error :: "string \<Rightarrow> goerr" where
  "capacity_error msg = Suffix (Sentinel ErrCapacity) msg"

text \<open>
  The part of \<^verbatim>\<open>admit\<close> that decides, on what was read; it gives the size budgeted for the VM.
\<close>

definition budget :: "config \<Rightarrow> 64 word \<Rightarrow> 64 word" where
  "budget c vmMiB = max vmMiB (VMMemoryMiB c)"

definition admit ::
  "('r, 'v, 'h) surroundings \<Rightarrow> 64 word \<Rightarrow> ('r, 'v, 'h, goerr + 64 word) svc" where
  "admit E vmMiB =
     do { running \<leftarrow> on_vms (vm_running_count (vmm E));
          case running of
            Inl e \<Rightarrow> ret (Inl (capacity_error (''count running VMs: '' @ err_text e)))
          | Inr n \<Rightarrow>
              do { pending \<leftarrow> gets pendingCreates;
                   if n + pending \<ge> MaxVMs (cfg E)
                   then ret (Inl (capacity_error (dec_int n @ '' running + '' @ dec_int pending @
                               '' pending of max '' @ dec_int (MaxVMs (cfg E)))))
                   else do {
                     avail \<leftarrow> memAvailableMiB E;
                     case avail of
                       Inl e \<Rightarrow> ret (Inl (capacity_error (''read host memory: '' @ err_text e)))
                     | Inr availableMiB \<Rightarrow>
                         do { pendMiB \<leftarrow> gets pendingMiB;
                              let b = budget (cfg E) vmMiB;
                                  requiredMiB = HostMemoryReserveMiB (cfg E) + pendMiB + b
                              in if availableMiB < requiredMiB
                                 then ret (Inl (capacity_error (dec_nat (unat availableMiB) @
                                        '' MiB available, '' @ dec_nat (unat requiredMiB) @ '' MiB required'')))
                                 else do {
                                   _ \<leftarrow> modify (\<lambda>w. w\<lparr>pendingCreates := pendingCreates w + 1,
                                                    pendingMiB := pendingMiB w + b\<rparr>);
                                   ret (Inr b) } } } } }"

text \<open>The closure \<^verbatim>\<open>release\<close>.\<close>

definition release :: "64 word \<Rightarrow> ('r, 'v, 'h, unit) svc" where
  "release b = modify (\<lambda>w. w\<lparr>pendingCreates := pendingCreates w - 1, pendingMiB := pendingMiB w - b\<rparr>)"

section \<open>Reads\<close>

definition connections :: "('r, 'v, 'h) surroundings \<Rightarrow> string \<Rightarrow> ('r, 'v, 'h, i64) svc" where
  "connections E i =
     do { t \<leftarrow> ask (now_ns E); rl \<leftarrow> gets ssh; ret (of_nat (Connections t i rl)) }"

definition SvcGet ::
  "('r, 'v, 'h) surroundings \<Rightarrow> identity \<Rightarrow> string \<Rightarrow> ('r, 'v, 'h, goerr + sandbox) svc" where
  "SvcGet E who i =
     do { g \<leftarrow> on_store (Get (rds E) Caller i);
          case g of
            Inl e \<Rightarrow> ret (Inl e)
          | Inr None \<Rightarrow> ret (Inl (Sentinel ErrNotFound))
          | Inr (Some sb) \<Rightarrow>
              if \<not> IsAdmin who \<and> UserID sb \<noteq> IdUserID who then ret (Inl (Sentinel ErrForbidden))
              else do { n \<leftarrow> connections E (ID sb); ret (Inr (sb\<lparr>SSHConnections := n\<rparr>)) } }"

definition AttachDevice ::
  "('r, 'v, 'h) surroundings \<Rightarrow> identity \<Rightarrow> string \<Rightarrow> string \<Rightarrow> ('r, 'v, 'h, goerr option) svc" where
  "AttachDevice E who i deviceID =
     (if \<not> IsAdmin who then ret (Some (Sentinel ErrForbidden))
      else do { g \<leftarrow> on_store (Get (rds E) Caller i);
                case g of
                  Inl e \<Rightarrow> ret (Some e)
                | Inr None \<Rightarrow> ret (Some (Sentinel ErrNotFound))
                | Inr (Some sb) \<Rightarrow>
                    do { t \<leftarrow> ask (now_ms E);
                         on_store (Put (rds E) Caller (sb\<lparr>DeviceID := deviceID, LastActivity := t\<rparr>)) } })"

definition staleDead :: "('r, 'v, 'h) surroundings \<Rightarrow> sandbox \<Rightarrow> ('r, 'v, 'h, bool) svc" where
  "staleDead E sb =
     (if \<not> IsActive sb then ret False
      else do {
        inGrace \<leftarrow> (if SbState sb = StateCreating \<or> SbState sb = StateTerminating
                    then do { t \<leftarrow> ask (now_ms E);
                              ret (sint (t - LastActivity sb) < reconcileGraceMillis) }
                    else ret False);
        if inGrace then ret False
        else do { l \<leftarrow> on_vms (vm_is_live (vmm E) (ID sb)); ret (l = LiveNo) } })"

text \<open>The loop of \<^verbatim>\<open>List\<close>.\<close>

fun show_all :: "('r, 'v, 'h) surroundings \<Rightarrow> sandbox list \<Rightarrow> ('r, 'v, 'h, sandbox list) svc" where
  "show_all E [] = ret []"
| "show_all E (sb # sbs) =
     do { n \<leftarrow> connections E (ID sb);
          let sb1 = sb\<lparr>SSHConnections := n\<rparr> in
          do { dead \<leftarrow> staleDead E sb1;
               rest \<leftarrow> show_all E sbs;
               ret ((if dead then sb1\<lparr>SbState := StateError\<rparr> else sb1) # rest) } }"

definition SvcList ::
  "('r, 'v, 'h) surroundings \<Rightarrow> identity \<Rightarrow> ('r, 'v, 'h, goerr + sandbox list) svc" where
  "SvcList E who =
     do { l \<leftarrow> on_store (ListSandboxes (rds E) Caller
                (if IsAdmin who then ScopeUserID who else IdUserID who));
          case l of
            Inl e \<Rightarrow> ret (Inl e)
          | Inr sbs \<Rightarrow> do { out \<leftarrow> show_all E sbs; ret (Inr out) } }"

definition SvcExec ::
  "('r, 'v, 'h) surroundings \<Rightarrow> identity \<Rightarrow> string \<Rightarrow> string list \<Rightarrow> ('r, 'v, 'h, goerr + string \<times> int) svc" where
  "SvcExec E who i argv =
     do { g \<leftarrow> SvcGet E who i;
          case g of Inl e \<Rightarrow> ret (Inl e) | Inr _ \<Rightarrow> on_vms (vm_exec (vmm E) i argv) }"

section \<open>Teardown\<close>

definition finishTeardown ::
  "('r, 'v, 'h) surroundings \<Rightarrow> string \<Rightarrow> ('r, 'v, 'h, goerr option) svc" where
  "finishTeardown E i =
     do { d \<leftarrow> on_vms (vm_delete (vmm E) i);
          case d of
            None \<Rightarrow> on_store (Store.Delete (rds E) Detached i)
          | Some e \<Rightarrow>
              do { l \<leftarrow> on_vms (vm_is_live (vmm E) i);
                   if l \<noteq> LiveNo then ret (Some e)
                   else on_store (Store.Delete (rds E) Detached i) } }"

definition SvcDelete ::
  "('r, 'v, 'h) surroundings \<Rightarrow> identity \<Rightarrow> string \<Rightarrow> ('r, 'v, 'h, goerr option) svc" where
  "SvcDelete E who i =
     do { g \<leftarrow> SvcGet E who i;
          case g of
            Inl e \<Rightarrow> ret (Some e)
          | Inr sb \<Rightarrow>
              do { t \<leftarrow> ask (now_ms E);
                   p \<leftarrow> on_store (Put (rds E) Caller (sb\<lparr>SbState := StateTerminating, LastActivity := t\<rparr>));
                   case p of
                     Some e \<Rightarrow> ret (Some e)
                   | None \<Rightarrow>
                       do { _ \<leftarrow> close_ssh i;
                            _ \<leftarrow> forget_prep i;
                            finishTeardown E (ID sb) } } }"

definition admin_identity :: identity where
  "admin_identity = \<lparr>IdUserID = [], Role = ''admin'', IsAnonymous = False, ScopeUserID = []\<rparr>"

definition DeleteUserData ::
  "('r, 'v, 'h) surroundings \<Rightarrow> identity \<Rightarrow> string \<Rightarrow> ('r, 'v, 'h, goerr option) svc" where
  "DeleteUserData E who u =
     (if \<not> IsAdmin who then ret (Some (Sentinel ErrForbidden))
      else do { l \<leftarrow> on_store (ListByUserScan (rds E) Caller u);
                case l of
                  Inl e \<Rightarrow> ret (Some e)
                | Inr sbs \<Rightarrow>
                    do { r \<leftarrow> for_each_err sbs (\<lambda>sb.
                           do { d \<leftarrow> SvcDelete E who (ID sb);
                                ret (case d of None \<Rightarrow> None
                                     | Some e \<Rightarrow> if errors_is e ErrNotFound then None else Some e) });
                         case r of
                           Some e \<Rightarrow> ret (Some e)
                         | None \<Rightarrow>
                             do { p \<leftarrow> on_store (PurgeUserIndexes (rds E) Caller u);
                                  case p of
                                    Some e \<Rightarrow> ret (Some e)
                                  | None \<Rightarrow> on_fs (DeleteHome (hostops E) (UserHomesDir (cfg E)) u) } } })"

definition teardownDead :: "('r, 'v, 'h) surroundings \<Rightarrow> sandbox \<Rightarrow> ('r, 'v, 'h, unit) svc" where
  "teardownDead E sb =
     do { reason \<leftarrow> on_vms (vm_log_tail (vmm E) (ID sb) 512);
          t \<leftarrow> ask (now_ms E);
          _ \<leftarrow> on_store (Put (rds E) Caller
                 (sb\<lparr>SbState := StateError,
                     Error := (if reason = [] then ''VM exited before it came online'' else reason),
                     LastActivity := t\<rparr>));
          _ \<leftarrow> close_ssh (ID sb);
          _ \<leftarrow> forget_prep (ID sb);
          _ \<leftarrow> finishTeardown E (ID sb);
          ret () }"

section \<open>Reconciliation\<close>

definition reconcileUserSlot :: "('r, 'v, 'h) surroundings \<Rightarrow> string \<Rightarrow> ('r, 'v, 'h, unit) svc" where
  "reconcileUserSlot E u =
     do { s \<leftarrow> on_store (UserSlot (rds E) Caller u);
          case s of
            Inl _ \<Rightarrow> ret ()
          | Inr i \<Rightarrow>
              if i = [] then ret ()
              else do {
                g \<leftarrow> on_store (Get (rds E) Caller i);
                case g of
                  Inl _ \<Rightarrow> ret ()
                | Inr None \<Rightarrow>
                    do { l \<leftarrow> on_vms (vm_is_live (vmm E) i);
                         if l \<noteq> LiveNo then ret ()
                         else do {
                           d \<leftarrow> on_vms (vm_delete (vmm E) i);
                           keep \<leftarrow> (case d of
                                     None \<Rightarrow> ret False
                                   | Some _ \<Rightarrow> do { l2 \<leftarrow> on_vms (vm_is_live (vmm E) i); ret (l2 \<noteq> LiveNo) });
                           if keep then ret ()
                           else do { _ \<leftarrow> on_store (ReleaseUserSlot (rds E) Detached u i); ret () } } }
                | Inr (Some sb) \<Rightarrow>
                    if SbState sb = StateError
                    then do { _ \<leftarrow> SvcDelete E admin_identity i; ret () }
                    else do { dead \<leftarrow> staleDead E sb;
                              if dead then teardownDead E sb else ret () } } }"

text \<open>One iteration of the loop of \<^verbatim>\<open>Reconcile\<close>.\<close>

definition reconcile_one :: "('r, 'v, 'h) surroundings \<Rightarrow> sandbox \<Rightarrow> ('r, 'v, 'h, unit) svc" where
  "reconcile_one E sb =
     (if SbState sb = StateError
      then do { h \<leftarrow> on_store (UserSlot (rds E) Caller (UserID sb));
                case h of
                  Inl _ \<Rightarrow> ret ()
                | Inr holder \<Rightarrow>
                    if holder = ID sb
                    then do { _ \<leftarrow> SvcDelete E admin_identity (ID sb); ret () }
                    else do { t \<leftarrow> ask (now_ms E);
                              if sint (t - LastActivity sb) > errorGCMillis
                              then do { _ \<leftarrow> on_store (Store.Delete (rds E) Caller (ID sb)); ret () }
                              else ret () } }
      else do { dead \<leftarrow> staleDead E sb;
                if dead then teardownDead E sb else ret () })"

definition closeSSHUnlessRunning ::
  "('r, 'v, 'h) surroundings \<Rightarrow> string \<Rightarrow> ('r, 'v, 'h, bool) svc" where
  "closeSSHUnlessRunning E i =
     do { g \<leftarrow> on_store (Get (rds E) Caller i);
          case g of
            Inr (Some cur) \<Rightarrow>
              if SbState cur = StateRunning then ret True
              else do { _ \<leftarrow> close_ssh i; ret False }
          | _ \<Rightarrow> do { _ \<leftarrow> close_ssh i; ret False } }"

definition running_ips :: "sandbox list \<Rightarrow> (string \<times> string) list" where
  "running_ips sbs =
     fold (\<lambda>sb m. if SbState sb = StateRunning \<and> IPAddress sb \<noteq> []
                   then AList.update (ID sb) (IPAddress sb) m else m) sbs []"

definition ensure_listener ::
  "('r, 'v, 'h) surroundings \<Rightarrow> string \<Rightarrow> string \<Rightarrow> int \<Rightarrow> ('r, 'v, 'h, goerr + int) svc" where
  "ensure_listener E i ip preferred =
     do { l \<leftarrow> ask (may_listen E); on_ssh (Ensure l i ip preferred) }"

definition reopen_ssh :: "('r, 'v, 'h) surroundings \<Rightarrow> string \<times> string \<Rightarrow> ('r, 'v, 'h, unit) svc" where
  "reopen_ssh E = (\<lambda>(i, ip).
     do { p \<leftarrow> on_store (SSHPort (rds E) Caller i);
          case p of
            Inl _ \<Rightarrow> ret ()
          | Inr prt \<Rightarrow>
              if prt \<le> 0 then ret ()
              else do {
                g \<leftarrow> ensure_listener E i ip prt;
                case g of
                  Inl _ \<Rightarrow> ret ()
                | Inr got \<Rightarrow>
                    do { lost \<leftarrow> (if got \<noteq> prt
                                  then do { e \<leftarrow> on_store (SetSSHPort (rds E) Caller i got); ret (e \<noteq> None) }
                                  else ret False);
                         if lost then close_ssh i
                         else do { _ \<leftarrow> closeSSHUnlessRunning E i; ret () } } } })"

definition reconcileSSH :: "('r, 'v, 'h) surroundings \<Rightarrow> ('r, 'v, 'h, unit) svc" where
  "reconcileSSH E =
     do { rl \<leftarrow> gets ssh;
          if rl = None then ret ()
          else do {
            l \<leftarrow> on_store (ListSandboxes (rds E) Caller []);
            case l of
              Inl _ \<Rightarrow> ret ()
            | Inr sbs \<Rightarrow>
                (let running = running_ips sbs in
                 do { _ \<leftarrow> on_ssh (\<lambda>r. ((), Retain running r));
                      order \<leftarrow> ask (map_range E);
                      for_each (order running) (reopen_ssh E) }) } }"

definition Reconcile :: "('r, 'v, 'h) surroundings \<Rightarrow> ('r, 'v, 'h, goerr option) svc" where
  "Reconcile E =
     do { l \<leftarrow> on_store (ListSandboxes (rds E) Caller []);
          case l of
            Inl e \<Rightarrow> ret (Some e)
          | Inr sbs \<Rightarrow>
              do { _ \<leftarrow> for_each sbs (reconcile_one E);
                   _ \<leftarrow> reconcileSSH E;
                   ret None } }"

text \<open>The body of \<^verbatim>\<open>ReconcileLoop\<close>, and \<open>n\<close> rounds of it.\<close>

definition reconcile_tick :: "('r, 'v, 'h) surroundings \<Rightarrow> ('r, 'v, 'h, unit) svc" where
  "reconcile_tick E =
     do { _ \<leftarrow> Reconcile E;
          _ \<leftarrow> on_vms (vm_cleanup_stopped (vmm E));
          ret () }"

fun ReconcileLoop :: "('r, 'v, 'h) surroundings \<Rightarrow> nat \<Rightarrow> ('r, 'v, 'h, unit) svc" where
  "ReconcileLoop E 0 = ret ()"
| "ReconcileLoop E (Suc n) = do { _ \<leftarrow> reconcile_tick E; ReconcileLoop E n }"

section \<open>Creation\<close>

definition failCreate :: "('r, 'v, 'h) surroundings \<Rightarrow> sandbox \<Rightarrow> goerr \<Rightarrow> ('r, 'v, 'h, unit) svc" where
  "failCreate E sb e =
     do { _ \<leftarrow> on_store (Put (rds E) Detached (sb\<lparr>SbState := StateError, Error := err_text e\<rparr>));
          _ \<leftarrow> on_store (ReleaseUserSlot (rds E) Detached (UserID sb) (ID sb));
          ret () }"

text \<open>The part of \<^verbatim>\<open>Create\<close> after the slot was reserved; \<open>sb\<close> is the reserved record.\<close>

definition provision :: "('r, 'v, 'h) surroundings \<Rightarrow> sandbox \<Rightarrow> ('r, 'v, 'h, goerr + sandbox) svc" where
  "provision E sb =
     (let u = UserID sb; res = SbResources sb; homes = UserHomesDir (cfg E);
          want = max (diskSizeMiBForTier (Size sb)) (ResDiskMiB res) in
      do { _ \<leftarrow> (if ResDiskMiB res > 0 then on_fs (ShrinkDisk (hostops E) homes u want) else ret None);
           home \<leftarrow> on_fs (EnsureDisk (hostops E) homes u want);
           case home of
             Inl e \<Rightarrow> do { _ \<leftarrow> failCreate E sb e; ret (Inl (Prefix ''ensure home disk'' e)) }
           | Inr homeImg \<Rightarrow>
               do { disk \<leftarrow> on_fs (DiskMiBOf (hostops E) homes u);
                    let sb1 = sb\<lparr>DiskMiB := disk\<rparr> in
                    do { mt \<leftarrow> ask (mint E);
                         case mt u (ID sb) enrollTTLSec of
                           Inl e \<Rightarrow> do { _ \<leftarrow> failCreate E sb1 e; ret (Inl (Prefix ''mint enroll token'' e)) }
                         | Inr token \<Rightarrow>
                             do { c \<leftarrow> on_vms (vm_create (vmm E)
                                    \<lparr>SpecID = ID sb, SpecUserID = u, SpecTemplate = Template sb,
                                     SpecSize = Size sb, SpecResources = res, EnrollToken = token,
                                     HomeImg = homeImg, DeviceName = deviceNameFor E u\<rparr>);
                                  case c of
                                    Inl e \<Rightarrow> do { _ \<leftarrow> failCreate E sb1 e; ret (Inl e) }
                                  | Inr ip \<Rightarrow>
                                      do { t \<leftarrow> ask (now_ms E);
                                           let sb2 = sb1\<lparr>SbState := StateRunning, IPAddress := ip,
                                                         LastActivity := t\<rparr> in
                                           do { p \<leftarrow> on_store (PutRunning (rds E) Caller sb2);
                                                case p of
                                                  Some e \<Rightarrow>
                                                    do { _ \<leftarrow> finishTeardown E (ID sb);
                                                         ret (Inl (Prefix ''persist running sandbox'' e)) }
                                                | None \<Rightarrow>
                                                    do { _ \<leftarrow> on_store (IncCreated (rds E) Caller);
                                                         ret (Inr sb2) } } } } } } })"

definition new_sandbox ::
  "('r, 'v, 'h) surroundings \<Rightarrow> identity \<Rightarrow> string \<Rightarrow> string \<Rightarrow> resources \<Rightarrow> ('r, 'v, 'h, sandbox) svc" where
  "new_sandbox E who template sz res =
     do { i \<leftarrow> newID E;
          t1 \<leftarrow> ask (now_ms E);
          t2 \<leftarrow> ask (now_ms E);
          ret \<lparr>ID = i, UserID = IdUserID who, Template = template, Size = sz, Kind = ''vm'',
               SbState = StateCreating, IPAddress = [], CostPerMin = costPerMinute sz,
               SbResources = res, DiskMiB = 0, Error = [], DeviceID = [],
               CreatedAt = t1, LastActivity = t2, SSHConnections = 0\<rparr> }"

text \<open>The part of \<^verbatim>\<open>Create\<close> between admission and its release.\<close>

definition create_admitted ::
  "('r, 'v, 'h) surroundings \<Rightarrow> identity \<Rightarrow> string \<Rightarrow> string \<Rightarrow> resources \<Rightarrow> ('r, 'v, 'h, goerr + sandbox) svc" where
  "create_admitted E who template sz res =
     do { sb \<leftarrow> new_sandbox E who template sz res;
          r \<leftarrow> on_store (ReserveUserSlot (rds E) Caller sb);
          case r of
            Inl e \<Rightarrow> ret (Inl e)
          | Inr True \<Rightarrow> provision E sb
          | Inr False \<Rightarrow>
              do { _ \<leftarrow> reconcileUserSlot E (IdUserID who);
                   r2 \<leftarrow> on_store (ReserveUserSlot (rds E) Caller sb);
                   case r2 of
                     Inl e \<Rightarrow> ret (Inl e)
                   | Inr False \<Rightarrow> ret (Inl (Sentinel ErrQuota))
                   | Inr True \<Rightarrow> provision E sb } }"

definition Create ::
  "('r, 'v, 'h) surroundings \<Rightarrow> identity \<Rightarrow> string \<Rightarrow> string \<Rightarrow> resources \<Rightarrow> ('r, 'v, 'h, goerr + sandbox) svc" where
  "Create E who template sz res0 =
     (if IsAnonymous who then ret (Inl (Sentinel ErrAnonymous))
      else do {
        used \<leftarrow> diskUsagePercent E;
        case used of
          Inl e \<Rightarrow> ret (Inl (Suffix (Sentinel ErrDiskFull) (err_text e)))
        | Inr pc \<Rightarrow>
            if pc \<ge> maxDiskPercent
            then ret (Inl (Suffix (Sentinel ErrDiskFull) (dec_int pc @ ''% used'')))
            else (let res = Clamp res0 in
              do { a \<leftarrow> admit E (ucast (MemoryFor sz res));
                   case a of
                     Inl e \<Rightarrow> do { _ \<leftarrow> modify (\<lambda>w. w\<lparr>capacityRejected := capacityRejected w + 1\<rparr>);
                                   ret (Inl e) }
                   | Inr b \<Rightarrow>
                       do { r \<leftarrow> create_admitted E who template
                                  (if sz = [] then ''medium'' else sz) res;
                            _ \<leftarrow> release b;
                            ret r } }) })"

section \<open>SSH\<close>

record ssh_endpoint =
  EpHost :: string
  EpPort :: int
  EpHostKey :: string
  EpUser :: string
  EpCloudDeviceID :: string

definition not_prepared :: "string \<Rightarrow> goerr" where
  "not_prepared msg = Suffix (Sentinel ErrSSH) msg"

definition PrepareSSH ::
  "('r, 'v, 'h) surroundings \<Rightarrow> identity \<Rightarrow> string \<Rightarrow> ('r, 'v, 'h, goerr + ssh_endpoint) svc" where
  "PrepareSSH E who i =
     do { rl \<leftarrow> gets ssh;
      if \<not> IsAdmin who then ret (Inl (Sentinel ErrForbidden))
      else case rl of
        None \<Rightarrow> ret (Inl (Suffix (Sentinel ErrNotFound) ''SSH relay not configured''))
      | Some r \<Rightarrow>
        do { g \<leftarrow> on_store (Get (rds E) Caller i);
          case g of
            Inl e \<Rightarrow> ret (Inl e)
          | Inr None \<Rightarrow>
              ret (Inl (Suffix (Sentinel ErrNotFound) ''sandbox not running with an attached device''))
          | Inr (Some sb) \<Rightarrow>
              if SbState sb \<noteq> StateRunning \<or> IPAddress sb = [] \<or> DeviceID sb = []
              then ret (Inl (Suffix (Sentinel ErrNotFound) ''sandbox not running with an attached device''))
              else do {
                _ \<leftarrow> modify (\<lambda>w. w\<lparr>sshPrep := insert i (sshPrep w)\<rparr>);
                x \<leftarrow> on_vms (vm_exec (vmm E) i [''/usr/local/sbin/cloud-ssh-setup'', SSHAuthURL (cfg E)]);
                case x of
                  Inl _ \<Rightarrow> ret (Inl (not_prepared ''guest sshd not ready''))
                | Inr (out, code) \<Rightarrow>
                    if code \<noteq> 0 then ret (Inl (not_prepared ''guest sshd not ready''))
                    else if \<not> hostKeyRe (lastLine out) then ret (Inl (not_prepared ''bad guest host key''))
                    else do {
                      p \<leftarrow> on_store (SSHPort (rds E) Caller i);
                      let preferred = (case p of Inl _ \<Rightarrow> 0 | Inr n \<Rightarrow> n) in
                      do { e \<leftarrow> ensure_listener E i (IPAddress sb) preferred;
                        case e of
                          Inl err \<Rightarrow> ret (Inl (not_prepared (err_text err)))
                        | Inr prt \<Rightarrow>
                          do { m \<leftarrow> (if prt \<noteq> preferred
                                     then on_store (SetSSHPort (rds E) Caller i prt) else ret None);
                            case m of
                              Some err \<Rightarrow>
                                do { _ \<leftarrow> close_ssh i;
                                     ret (Inl (not_prepared (''remember port: '' @ err_text err))) }
                            | None \<Rightarrow>
                                do { alive \<leftarrow> closeSSHUnlessRunning E i;
                                  if \<not> alive then ret (Inl (Suffix (Sentinel ErrNotFound) ''sandbox stopped''))
                                  else ret (Inr \<lparr>EpHost = host r, EpPort = prt, EpHostKey = lastLine out,
                                                 EpUser = ''root'', EpCloudDeviceID = DeviceID sb\<rparr>) } } } } } } }"

section \<open>Statistics\<close>

definition Stats :: "('r, 'v, 'h) surroundings \<Rightarrow> ('r, 'v, 'h, goerr + (string \<times> int) list) svc" where
  "Stats E =
     do { t \<leftarrow> on_store (TotalCreated (rds E) Caller);
      case t of
        Inl e \<Rightarrow> ret (Inl e)
      | Inr created \<Rightarrow>
        do { l \<leftarrow> on_store (ListSandboxes (rds E) Caller []);
          case l of
            Inl e \<Rightarrow> ret (Inl e)
          | Inr sbs \<Rightarrow>
            do { n \<leftarrow> on_vms (vm_running_count (vmm E));
              case n of
                Inl e \<Rightarrow> ret (Inl e)
              | Inr running \<Rightarrow>
                do { a \<leftarrow> memAvailableMiB E;
                  case a of
                    Inl e \<Rightarrow> ret (Inl e)
                  | Inr avail \<Rightarrow>
                    do { pending \<leftarrow> gets pendingCreates;
                         rejected \<leftarrow> gets capacityRejected;
                         ret (Inr [(''total_created'', created),
                                   (''active'', int (length (filter IsActive sbs))),
                                   (''running_vms'', running),
                                   (''pending_creates'', pending),
                                   (''max_vms'', MaxVMs (cfg E)),
                                   (''memory_available_mib'', uint avail),
                                   (''memory_reserve_mib'', uint (HostMemoryReserveMiB (cfg E))),
                                   (''vm_memory_mib'', uint (VMMemoryMiB (cfg E))),
                                   (''capacity_rejected'', uint rejected)]) } } } } }"

end
