(* ===== verification/Store_Spec.thy ===== *)
theory Store_Spec
  imports Store
begin

text \<open>
  What the store promises, over an abstract inventory: the records by id, who holds each user's
  quota slot, the two index sets and the per-user index, the remembered SSH ports and the events
  published. \<open>inventory\<close> reads it off a keyspace, \<open>well_typed\<close> says that the keys of the schema hold
  the kinds of values the store writes there. Every Redis command the store issues is given its
  effect on the inventory (context \<open>redis_server\<close>), and from these every atomic request of the
  store refines one operation of the inventory.
\<close>

section \<open>Sandbox ids and the key schema\<close>

text \<open>The ids of \<^verbatim>\<open>newID\<close> are non-empty strings of hexadecimal digits.\<close>

definition sid :: "string \<Rightarrow> bool" where
  "sid i \<longleftrightarrow> i \<noteq> [] \<and> list_all hex_char i"

lemma sid_no_hex [simp]:
  "\<not> sid (CHR ''u'' # x)" "\<not> sid (CHR ''s'' # x)" "\<not> sid ''all''" "\<not> sid ''active''"
  by (simp_all add: sid_def hex_char_def is_digit_def)

lemmas key_defs = rec_key_def user_key_def slot_key_def sshPortKey_def allKey_def activeKey_def
  createdKey_def

lemma keys_inj [simp]:
  "rec_key i = rec_key j \<longleftrightarrow> i = j" "user_key u = user_key v \<longleftrightarrow> u = v"
  "slot_key u = slot_key v \<longleftrightarrow> u = v" "sshPortKey i = sshPortKey j \<longleftrightarrow> i = j"
  by (simp_all add: key_defs)

lemma keys_disjoint [simp]:
  "user_key u \<noteq> slot_key v" "user_key u \<noteq> sshPortKey i" "user_key u \<noteq> allKey"
  "user_key u \<noteq> activeKey" "user_key u \<noteq> createdKey"
  "slot_key u \<noteq> user_key v" "slot_key u \<noteq> sshPortKey i" "slot_key u \<noteq> allKey"
  "slot_key u \<noteq> activeKey" "slot_key u \<noteq> createdKey"
  "sshPortKey i \<noteq> user_key u" "sshPortKey i \<noteq> slot_key u" "sshPortKey i \<noteq> allKey"
  "sshPortKey i \<noteq> activeKey" "sshPortKey i \<noteq> createdKey"
  "allKey \<noteq> user_key u" "allKey \<noteq> slot_key u" "allKey \<noteq> sshPortKey i" "allKey \<noteq> activeKey"
  "allKey \<noteq> createdKey"
  "activeKey \<noteq> user_key u" "activeKey \<noteq> slot_key u" "activeKey \<noteq> sshPortKey i"
  "activeKey \<noteq> allKey" "activeKey \<noteq> createdKey"
  "createdKey \<noteq> user_key u" "createdKey \<noteq> slot_key u" "createdKey \<noteq> sshPortKey i"
  "createdKey \<noteq> allKey" "createdKey \<noteq> activeKey" "rec_key i \<noteq> createdKey" "createdKey \<noteq> rec_key i"
  by (simp_all add: key_defs)

lemma rec_key_collides:
  "rec_key i = user_key u \<longleftrightarrow> i = CHR ''u'' # ''ser:'' @ u"
  "rec_key i = slot_key u \<longleftrightarrow> i = CHR ''u'' # ''ser-slot:'' @ u"
  "rec_key i = sshPortKey j \<longleftrightarrow> i = CHR ''s'' # ''sh-port:'' @ j"
  "rec_key i = allKey \<longleftrightarrow> i = ''all''"
  "rec_key i = activeKey \<longleftrightarrow> i = ''active''"
  by (simp_all add: key_defs)

lemma rec_key_disjoint [simp]:
  assumes "sid i"
  shows "rec_key i \<noteq> user_key u" "rec_key i \<noteq> slot_key u" "rec_key i \<noteq> sshPortKey j"
    "rec_key i \<noteq> allKey" "rec_key i \<noteq> activeKey"
    "user_key u \<noteq> rec_key i" "slot_key u \<noteq> rec_key i" "sshPortKey j \<noteq> rec_key i"
    "allKey \<noteq> rec_key i" "activeKey \<noteq> rec_key i"
  using assms by (auto simp: rec_key_collides dest!: sym [of _ "rec_key i"])

text \<open>
  The key schema is unambiguous on the ids the service makes: two keys are equal only when they
  are the same kind of key of the same sandbox or user, whatever the user ids are.
\<close>

theorem key_schema_unambiguous:
  assumes "sid i"
  shows "(rec_key i = rec_key j \<longrightarrow> i = j) \<and> (user_key u = user_key v \<longrightarrow> u = v) \<and>
         (slot_key u = slot_key v \<longrightarrow> u = v) \<and> (sshPortKey i = sshPortKey j \<longrightarrow> i = j) \<and>
         distinct [rec_key i, user_key u, slot_key v, sshPortKey j, allKey, activeKey, createdKey]"
  using assms by simp

theorem key_schema_unambiguous_witness: "rec_key ''0a'' \<noteq> user_key ''x:0a''"
  using key_schema_unambiguous [of "''0a''" "[]" "''x:0a''"]
  by (simp add: sid_def hex_char_def is_digit_def)

section \<open>Readings of a keyspace\<close>

definition backfill :: "sandbox \<Rightarrow> sandbox" where
  "backfill sb = (if Kind sb = [] then sb\<lparr>Kind := ''vm''\<rparr> else sb)"

fun dec_rec :: "rval option \<Rightarrow> sandbox option" where
  "dec_rec (Some (RStr v)) = map_option backfill (unmarshal_sandbox v)"
| "dec_rec _ = None"

fun dec_slot :: "rval option \<Rightarrow> string option" where
  "dec_slot (Some (RStr (Text i))) = Some i"
| "dec_slot _ = None"

fun dec_set :: "rval option \<Rightarrow> string set" where
  "dec_set (Some (RSet A)) = A"
| "dec_set _ = {}"

fun dec_port :: "rval option \<Rightarrow> int option" where
  "dec_port (Some (RStr v)) = bulk_int v"
| "dec_port _ = None"

record inventory =
  recs :: "string \<rightharpoonup> sandbox"
  slots :: "string \<rightharpoonup> string"
  by_user :: "string \<Rightarrow> string set"
  all_ids :: "string set"
  active_ids :: "string set"
  ports :: "string \<rightharpoonup> int"
  events :: "(string \<times> bulk) list"

definition inventory_of :: "keyspace \<Rightarrow> inventory" where
  "inventory_of s =
     \<lparr>recs = (\<lambda>i. if sid i then dec_rec (kv s (rec_key i)) else None),
      slots = (\<lambda>u. dec_slot (kv s (slot_key u))),
      by_user = (\<lambda>u. dec_set (kv s (user_key u))),
      all_ids = dec_set (kv s allKey),
      active_ids = dec_set (kv s activeKey),
      ports = (\<lambda>i. dec_port (kv s (sshPortKey i))),
      events = pubs s\<rparr>"

fun rec_ok :: "string \<Rightarrow> rval option \<Rightarrow> bool" where
  "rec_ok i None \<longleftrightarrow> True"
| "rec_ok i (Some (RStr v)) \<longleftrightarrow> (\<exists>sb. unmarshal_sandbox v = Some sb \<and> ID sb = i)"
| "rec_ok i _ \<longleftrightarrow> False"

fun slot_ok :: "rval option \<Rightarrow> bool" where
  "slot_ok None \<longleftrightarrow> True" | "slot_ok (Some (RStr (Text _))) \<longleftrightarrow> True" | "slot_ok _ \<longleftrightarrow> False"

fun set_ok :: "rval option \<Rightarrow> bool" where
  "set_ok None \<longleftrightarrow> True" | "set_ok (Some (RSet _)) \<longleftrightarrow> True" | "set_ok _ \<longleftrightarrow> False"

fun port_ok :: "rval option \<Rightarrow> bool" where
  "port_ok None \<longleftrightarrow> True" | "port_ok (Some (RStr v)) \<longleftrightarrow> bulk_int v \<noteq> None" | "port_ok _ \<longleftrightarrow> False"

definition well_typed :: "keyspace \<Rightarrow> bool" where
  "well_typed s \<longleftrightarrow>
     (\<forall>i. sid i \<longrightarrow> rec_ok i (kv s (rec_key i))) \<and>
     (\<forall>i. \<not> sid i \<longrightarrow> dec_rec (kv s (rec_key i)) = None) \<and> (\<forall>u. slot_ok (kv s (slot_key u))) \<and>
     (\<forall>u. set_ok (kv s (user_key u))) \<and> set_ok (kv s allKey) \<and> set_ok (kv s activeKey) \<and>
     (\<forall>i. port_ok (kv s (sshPortKey i))) \<and> port_ok (kv s createdKey)"

lemma slot_ok_iff: "slot_ok x \<longleftrightarrow> x = None \<or> (\<exists>i. x = Some (RStr (Text i)))"
  by (cases x rule: slot_ok.cases) auto

lemma set_ok_iff: "set_ok x \<longleftrightarrow> x = None \<or> (\<exists>A. x = Some (RSet A))"
  by (cases x rule: set_ok.cases) auto

lemma rec_ok_iff:
  "rec_ok i x \<longleftrightarrow> x = None \<or> (\<exists>v sb. x = Some (RStr v) \<and> unmarshal_sandbox v = Some sb \<and> ID sb = i)"
  by (cases "(i, x)" rule: rec_ok.cases) auto

lemma port_ok_iff: "port_ok x \<longleftrightarrow> x = None \<or> (\<exists>v n. x = Some (RStr v) \<and> bulk_int v = Some n)"
  by (cases x rule: port_ok.cases) auto

lemma bulk_int_Some: "bulk_int v = Some n \<longleftrightarrow> (\<exists>t. v = Text t \<and> atoi t = Some n)"
  by (cases v) (simp_all add: bulk_int_def)

lemma backfill_fields [simp]:
  "ID (backfill sb) = ID sb" "UserID (backfill sb) = UserID sb" "SbState (backfill sb) = SbState sb"
  "IPAddress (backfill sb) = IPAddress sb" "LastActivity (backfill sb) = LastActivity sb"
  "DeviceID (backfill sb) = DeviceID sb" "IsActive (backfill sb) = IsActive sb"
  "backfill (backfill sb) = backfill sb"
  by (simp_all add: backfill_def IsActive_def)

lemma recs_ID: "well_typed s \<Longrightarrow> recs (inventory_of s) i = Some sb \<Longrightarrow> sid i \<and> ID sb = i"
proof -
  assume wt: "well_typed s" and rec: "recs (inventory_of s) i = Some sb"
  from rec have i: "sid i" "dec_rec (kv s (rec_key i)) = Some sb"
    by (auto simp: inventory_of_def split: if_splits)
  with wt have "rec_ok i (kv s (rec_key i))" by (simp add: well_typed_def)
  with i show ?thesis by (auto simp: rec_ok_iff)
qed

section \<open>Writes seen through the readings\<close>

lemma inventory_writes:
  "sid i \<Longrightarrow> inventory_of (s\<lparr>kv := (kv s)(rec_key i := x)\<rparr>) =
     (inventory_of s)\<lparr>recs := (recs (inventory_of s))(i := dec_rec x)\<rparr>"
  "inventory_of (s\<lparr>kv := (kv s)(slot_key u := x)\<rparr>) =
     (inventory_of s)\<lparr>slots := (slots (inventory_of s))(u := dec_slot x)\<rparr>"
  "inventory_of (s\<lparr>kv := (kv s)(user_key u := x)\<rparr>) =
     (inventory_of s)\<lparr>by_user := (by_user (inventory_of s))(u := dec_set x)\<rparr>"
  "inventory_of (s\<lparr>kv := (kv s)(allKey := x)\<rparr>) = (inventory_of s)\<lparr>all_ids := dec_set x\<rparr>"
  "inventory_of (s\<lparr>kv := (kv s)(activeKey := x)\<rparr>) = (inventory_of s)\<lparr>active_ids := dec_set x\<rparr>"
  "inventory_of (s\<lparr>kv := (kv s)(sshPortKey i := x)\<rparr>) =
     (inventory_of s)\<lparr>ports := (ports (inventory_of s))(i := dec_port x)\<rparr>"
  "inventory_of (s\<lparr>kv := (kv s)(createdKey := x)\<rparr>) = inventory_of s"
  "inventory_of (s\<lparr>pubs := l\<rparr>) = (inventory_of s)\<lparr>events := l\<rparr>"
  by (auto simp: inventory_of_def fun_eq_iff)

lemma not_a_record:
  "slot_ok x \<Longrightarrow> dec_rec x = None" "set_ok x \<Longrightarrow> dec_rec x = None" "port_ok x \<Longrightarrow> dec_rec x = None"
  by (auto simp: slot_ok_iff set_ok_iff port_ok_iff bulk_int_Some unmarshal_sandbox_def)

lemma well_typed_writes:
  "well_typed s \<Longrightarrow> sid i \<Longrightarrow> rec_ok i x \<Longrightarrow> well_typed (s\<lparr>kv := (kv s)(rec_key i := x)\<rparr>)"
  "well_typed s \<Longrightarrow> slot_ok x \<Longrightarrow> well_typed (s\<lparr>kv := (kv s)(slot_key u := x)\<rparr>)"
  "well_typed s \<Longrightarrow> set_ok x \<Longrightarrow> well_typed (s\<lparr>kv := (kv s)(user_key u := x)\<rparr>)"
  "well_typed s \<Longrightarrow> set_ok x \<Longrightarrow> well_typed (s\<lparr>kv := (kv s)(allKey := x)\<rparr>)"
  "well_typed s \<Longrightarrow> set_ok x \<Longrightarrow> well_typed (s\<lparr>kv := (kv s)(activeKey := x)\<rparr>)"
  "well_typed s \<Longrightarrow> port_ok x \<Longrightarrow> well_typed (s\<lparr>kv := (kv s)(sshPortKey j := x)\<rparr>)"
  "well_typed s \<Longrightarrow> port_ok x \<Longrightarrow> well_typed (s\<lparr>kv := (kv s)(createdKey := x)\<rparr>)"
  "well_typed (s\<lparr>pubs := l\<rparr>) \<longleftrightarrow> well_typed s"
  by (auto simp: well_typed_def not_a_record)

lemma well_typed_reads:
  "well_typed s \<Longrightarrow> sid i \<Longrightarrow> rec_ok i (kv s (rec_key i))"
  "well_typed s \<Longrightarrow> slot_ok (kv s (slot_key u))"
  "well_typed s \<Longrightarrow> set_ok (kv s (user_key u))"
  "well_typed s \<Longrightarrow> set_ok (kv s allKey)"
  "well_typed s \<Longrightarrow> set_ok (kv s activeKey)"
  "well_typed s \<Longrightarrow> port_ok (kv s (sshPortKey j))"
  "well_typed s \<Longrightarrow> port_ok (kv s createdKey)"
  by (auto simp: well_typed_def)

lemma inventory_dels:
  "sid i \<Longrightarrow> inventory_of (s\<lparr>kv := (\<lambda>k. if k \<in> set [rec_key i, sshPortKey i] then None else kv s k)\<rparr>) =
     (inventory_of s)\<lparr>recs := (recs (inventory_of s))(i := None),
                       ports := (ports (inventory_of s))(i := None)\<rparr>"
  "inventory_of (s\<lparr>kv := (\<lambda>k. if k \<in> set [slot_key u] then None else kv s k)\<rparr>) =
     (inventory_of s)\<lparr>slots := (slots (inventory_of s))(u := None)\<rparr>"
  "inventory_of (s\<lparr>kv := (\<lambda>k. if k \<in> set [user_key u, slot_key u] then None else kv s k)\<rparr>) =
     (inventory_of s)\<lparr>by_user := (by_user (inventory_of s))(u := {}),
                       slots := (slots (inventory_of s))(u := None)\<rparr>"
  by (auto simp: inventory_of_def fun_eq_iff)

lemma well_typed_del:
  "well_typed s \<Longrightarrow> well_typed (s\<lparr>kv := (\<lambda>k. if k \<in> A then None else kv s k)\<rparr>)"
  by (simp add: well_typed_def)

section \<open>Commands seen through the readings\<close>

fun is_err :: "reply \<Rightarrow> bool" where
  "is_err (RErr _) \<longleftrightarrow> True" | "is_err _ \<longleftrightarrow> False"

lemma wp_call_ignore:
  "\<not> is_err (fst (ex c r)) \<Longrightarrow> wp (redis_call ex c (\<lambda>_. m)) Q r \<longleftrightarrow> wp m Q (snd (ex c r))"
  by (cases "fst (ex c r)") (simp_all add: wp_redis_call)

lemma wp_tx_cons:
  "\<not> is_err (fst (ex c r)) \<Longrightarrow> wp (tx_exec ex (c # cs)) Q r \<longleftrightarrow> wp (tx_exec ex cs) Q (snd (ex c r))"
  by (cases "fst (ex c r)") (simp_all add: wp_simps)

lemma wp_tx_nil: "wp (tx_exec ex []) Q r \<longleftrightarrow> Q None r"
  by (simp add: wp_simps)

context redis_server
begin

lemma effect_get [simp]: "ks (snd (exec (CGet k) r)) = ks r"
  by (rule get_spec)

lemma get_slot:
  "well_typed (ks r) \<Longrightarrow> fst (exec (CGet (slot_key u)) r) =
     (case slots (inventory_of (ks r)) u of None \<Rightarrow> RNil | Some i \<Rightarrow> RBulk (Text i))"
  using well_typed_reads(2) [of "ks r" u]
  by (auto simp: get_spec slot_ok_iff inventory_of_def)

lemma get_rec_cases:
  assumes "well_typed (ks r)" and "sid i"
  obtains (absent) "fst (exec (CGet (rec_key i)) r) = RNil" "recs (inventory_of (ks r)) i = None"
  | (present) v sb where "fst (exec (CGet (rec_key i)) r) = RBulk v"
      "unmarshal_sandbox v = Some sb" "ID sb = i" "recs (inventory_of (ks r)) i = Some (backfill sb)"
  using well_typed_reads(1) [OF assms] assms(2)
  by (auto simp: get_spec rec_ok_iff inventory_of_def)

lemma effect_set_rec [simp]:
  assumes "well_typed (ks r)" and "sid i" and "unmarshal_sandbox v = Some sb" and "ID sb = i"
  shows "\<not> is_err (fst (exec (CSet (rec_key i) v) r))"
    and "well_typed (ks (snd (exec (CSet (rec_key i) v) r)))"
    and "inventory_of (ks (snd (exec (CSet (rec_key i) v) r))) = (inventory_of (ks r))
           \<lparr>recs := (recs (inventory_of (ks r)))(i \<mapsto> backfill sb)\<rparr>"
  using assms by (simp_all add: set_spec inventory_writes well_typed_writes)

lemma effect_set_port [simp]:
  assumes "well_typed (ks r)" and "bulk_int v = Some n"
  shows "fst (exec (CSet (sshPortKey i) v) r) = ROk"
    and "well_typed (ks (snd (exec (CSet (sshPortKey i) v) r)))"
    and "inventory_of (ks (snd (exec (CSet (sshPortKey i) v) r))) = (inventory_of (ks r))
           \<lparr>ports := (ports (inventory_of (ks r)))(i \<mapsto> n)\<rparr>"
  using assms by (simp_all add: set_spec inventory_writes well_typed_writes)

lemma effect_setnx_slot [simp]:
  assumes "well_typed (ks r)"
  shows "fst (exec (CSetNX (slot_key u) (Text i)) r) =
           (if slots (inventory_of (ks r)) u = None then ROk else RNil)"
    and "well_typed (ks (snd (exec (CSetNX (slot_key u) (Text i)) r)))"
    and "inventory_of (ks (snd (exec (CSetNX (slot_key u) (Text i)) r))) =
           (if slots (inventory_of (ks r)) u = None
            then (inventory_of (ks r))\<lparr>slots := (slots (inventory_of (ks r)))(u \<mapsto> i)\<rparr>
            else inventory_of (ks r))"
proof -
  have "kv (ks r) (slot_key u) = None \<longleftrightarrow> slots (inventory_of (ks r)) u = None"
    using well_typed_reads(2) [OF assms, of u] by (auto simp: slot_ok_iff inventory_of_def)
  then show "fst (exec (CSetNX (slot_key u) (Text i)) r) =
           (if slots (inventory_of (ks r)) u = None then ROk else RNil)"
    and "well_typed (ks (snd (exec (CSetNX (slot_key u) (Text i)) r)))"
    and "inventory_of (ks (snd (exec (CSetNX (slot_key u) (Text i)) r))) =
           (if slots (inventory_of (ks r)) u = None
            then (inventory_of (ks r))\<lparr>slots := (slots (inventory_of (ks r)))(u \<mapsto> i)\<rparr>
            else inventory_of (ks r))"
    using assms by (simp_all add: setnx_spec inventory_writes well_typed_writes)
qed

lemma sadd_typed:
  assumes "set_ok (kv (ks r) k)"
  shows "\<not> is_err (fst (exec (CSAdd k x) r))"
    and "\<exists>z. ks (snd (exec (CSAdd k x) r)) = (ks r)\<lparr>kv := (kv (ks r))(k := z)\<rparr> \<and>
             set_ok z \<and> dec_set z = insert x (dec_set (kv (ks r) k))"
  using assms by (auto simp: sadd_spec set_ok_iff)

lemma srem_typed:
  assumes "set_ok (kv (ks r) k)"
  shows "\<not> is_err (fst (exec (CSRem k x) r))"
    and "\<exists>z. ks (snd (exec (CSRem k x) r)) = (ks r)\<lparr>kv := (kv (ks r))(k := z)\<rparr> \<and>
             set_ok z \<and> dec_set z = dec_set (kv (ks r) k) - {x}"
proof -
  show "\<not> is_err (fst (exec (CSRem k x) r))"
    using assms by (auto simp: srem_spec set_ok_iff)
  show "\<exists>z. ks (snd (exec (CSRem k x) r)) = (ks r)\<lparr>kv := (kv (ks r))(k := z)\<rparr> \<and>
             set_ok z \<and> dec_set z = dec_set (kv (ks r) k) - {x}"
  proof (cases "kv (ks r) k")
    case None
    then have "(kv (ks r))(k := None) = kv (ks r)" by auto
    with None show ?thesis by (intro exI [of _ None]) (simp add: srem_spec)
  next
    case (Some v)
    with assms obtain A where "kv (ks r) k = Some (RSet A)" by (auto simp: set_ok_iff)
    then show ?thesis
      by (intro exI [of _ "if A - {x} = {} then None else Some (RSet (A - {x}))"])
        (auto simp: srem_spec)
  qed
qed

lemma effect_add_user [simp]:
  assumes "well_typed (ks r)"
  shows "\<not> is_err (fst (exec (CSAdd (user_key u) x) r))"
    and "well_typed (ks (snd (exec (CSAdd (user_key u) x) r)))"
    and "inventory_of (ks (snd (exec (CSAdd (user_key u) x) r))) = (inventory_of (ks r))
           \<lparr>by_user := (by_user (inventory_of (ks r)))(u := insert x (by_user (inventory_of (ks r)) u))\<rparr>"
proof -
  note ok = well_typed_reads(3) [OF assms]
  obtain z where z: "ks (snd (exec (CSAdd (user_key u) x) r)) = (ks r)\<lparr>kv := (kv (ks r))(user_key u := z)\<rparr>"
      "set_ok z" "dec_set z = insert x (dec_set (kv (ks r) (user_key u)))"
    using sadd_typed(2) [OF ok] by blast
  have rd: "by_user (inventory_of (ks r)) u = dec_set (kv (ks r) (user_key u))"
    by (simp add: inventory_of_def)
  show "\<not> is_err (fst (exec (CSAdd (user_key u) x) r))" by (rule sadd_typed(1) [OF ok])
  show "well_typed (ks (snd (exec (CSAdd (user_key u) x) r)))" using assms z by (simp add: well_typed_writes)
  show "inventory_of (ks (snd (exec (CSAdd (user_key u) x) r))) = (inventory_of (ks r))
           \<lparr>by_user := (by_user (inventory_of (ks r)))(u := insert x (by_user (inventory_of (ks r)) u))\<rparr>"
    using z rd by (simp add: inventory_writes)
qed

lemma effect_add_all [simp]:
  assumes "well_typed (ks r)"
  shows "\<not> is_err (fst (exec (CSAdd allKey x) r))"
    and "well_typed (ks (snd (exec (CSAdd allKey x) r)))"
    and "inventory_of (ks (snd (exec (CSAdd allKey x) r))) = (inventory_of (ks r))
           \<lparr>all_ids := insert x (all_ids (inventory_of (ks r)))\<rparr>"
proof -
  note ok = well_typed_reads(4) [OF assms]
  obtain z where z: "ks (snd (exec (CSAdd allKey x) r)) = (ks r)\<lparr>kv := (kv (ks r))(allKey := z)\<rparr>"
      "set_ok z" "dec_set z = insert x (dec_set (kv (ks r) allKey))"
    using sadd_typed(2) [OF ok] by blast
  have rd: "all_ids (inventory_of (ks r)) = dec_set (kv (ks r) allKey)"
    by (simp add: inventory_of_def)
  show "\<not> is_err (fst (exec (CSAdd allKey x) r))" by (rule sadd_typed(1) [OF ok])
  show "well_typed (ks (snd (exec (CSAdd allKey x) r)))" using assms z by (simp add: well_typed_writes)
  show "inventory_of (ks (snd (exec (CSAdd allKey x) r))) = (inventory_of (ks r))
           \<lparr>all_ids := insert x (all_ids (inventory_of (ks r)))\<rparr>"
    using z rd by (simp add: inventory_writes)
qed

lemma effect_add_active [simp]:
  assumes "well_typed (ks r)"
  shows "\<not> is_err (fst (exec (CSAdd activeKey x) r))"
    and "well_typed (ks (snd (exec (CSAdd activeKey x) r)))"
    and "inventory_of (ks (snd (exec (CSAdd activeKey x) r))) = (inventory_of (ks r))
           \<lparr>active_ids := insert x (active_ids (inventory_of (ks r)))\<rparr>"
proof -
  note ok = well_typed_reads(5) [OF assms]
  obtain z where z: "ks (snd (exec (CSAdd activeKey x) r)) = (ks r)\<lparr>kv := (kv (ks r))(activeKey := z)\<rparr>"
      "set_ok z" "dec_set z = insert x (dec_set (kv (ks r) activeKey))"
    using sadd_typed(2) [OF ok] by blast
  have rd: "active_ids (inventory_of (ks r)) = dec_set (kv (ks r) activeKey)"
    by (simp add: inventory_of_def)
  show "\<not> is_err (fst (exec (CSAdd activeKey x) r))" by (rule sadd_typed(1) [OF ok])
  show "well_typed (ks (snd (exec (CSAdd activeKey x) r)))" using assms z by (simp add: well_typed_writes)
  show "inventory_of (ks (snd (exec (CSAdd activeKey x) r))) = (inventory_of (ks r))
           \<lparr>active_ids := insert x (active_ids (inventory_of (ks r)))\<rparr>"
    using z rd by (simp add: inventory_writes)
qed

lemma effect_rem_user [simp]:
  assumes "well_typed (ks r)"
  shows "\<not> is_err (fst (exec (CSRem (user_key u) x) r))"
    and "well_typed (ks (snd (exec (CSRem (user_key u) x) r)))"
    and "inventory_of (ks (snd (exec (CSRem (user_key u) x) r))) = (inventory_of (ks r))
           \<lparr>by_user := (by_user (inventory_of (ks r)))(u := by_user (inventory_of (ks r)) u - {x})\<rparr>"
proof -
  note ok = well_typed_reads(3) [OF assms]
  obtain z where z: "ks (snd (exec (CSRem (user_key u) x) r)) = (ks r)\<lparr>kv := (kv (ks r))(user_key u := z)\<rparr>"
      "set_ok z" "dec_set z = dec_set (kv (ks r) (user_key u)) - {x}"
    using srem_typed(2) [OF ok] by blast
  have rd: "by_user (inventory_of (ks r)) u = dec_set (kv (ks r) (user_key u))"
    by (simp add: inventory_of_def)
  show "\<not> is_err (fst (exec (CSRem (user_key u) x) r))" by (rule srem_typed(1) [OF ok])
  show "well_typed (ks (snd (exec (CSRem (user_key u) x) r)))" using assms z by (simp add: well_typed_writes)
  show "inventory_of (ks (snd (exec (CSRem (user_key u) x) r))) = (inventory_of (ks r))
           \<lparr>by_user := (by_user (inventory_of (ks r)))(u := by_user (inventory_of (ks r)) u - {x})\<rparr>"
    using z rd by (simp add: inventory_writes)
qed

lemma effect_rem_all [simp]:
  assumes "well_typed (ks r)"
  shows "\<not> is_err (fst (exec (CSRem allKey x) r))"
    and "well_typed (ks (snd (exec (CSRem allKey x) r)))"
    and "inventory_of (ks (snd (exec (CSRem allKey x) r))) = (inventory_of (ks r))
           \<lparr>all_ids := all_ids (inventory_of (ks r)) - {x}\<rparr>"
proof -
  note ok = well_typed_reads(4) [OF assms]
  obtain z where z: "ks (snd (exec (CSRem allKey x) r)) = (ks r)\<lparr>kv := (kv (ks r))(allKey := z)\<rparr>"
      "set_ok z" "dec_set z = dec_set (kv (ks r) allKey) - {x}"
    using srem_typed(2) [OF ok] by blast
  have rd: "all_ids (inventory_of (ks r)) = dec_set (kv (ks r) allKey)"
    by (simp add: inventory_of_def)
  show "\<not> is_err (fst (exec (CSRem allKey x) r))" by (rule srem_typed(1) [OF ok])
  show "well_typed (ks (snd (exec (CSRem allKey x) r)))" using assms z by (simp add: well_typed_writes)
  show "inventory_of (ks (snd (exec (CSRem allKey x) r))) = (inventory_of (ks r))
           \<lparr>all_ids := all_ids (inventory_of (ks r)) - {x}\<rparr>"
    using z rd by (simp add: inventory_writes)
qed

lemma effect_rem_active [simp]:
  assumes "well_typed (ks r)"
  shows "\<not> is_err (fst (exec (CSRem activeKey x) r))"
    and "well_typed (ks (snd (exec (CSRem activeKey x) r)))"
    and "inventory_of (ks (snd (exec (CSRem activeKey x) r))) = (inventory_of (ks r))
           \<lparr>active_ids := active_ids (inventory_of (ks r)) - {x}\<rparr>"
proof -
  note ok = well_typed_reads(5) [OF assms]
  obtain z where z: "ks (snd (exec (CSRem activeKey x) r)) = (ks r)\<lparr>kv := (kv (ks r))(activeKey := z)\<rparr>"
      "set_ok z" "dec_set z = dec_set (kv (ks r) activeKey) - {x}"
    using srem_typed(2) [OF ok] by blast
  have rd: "active_ids (inventory_of (ks r)) = dec_set (kv (ks r) activeKey)"
    by (simp add: inventory_of_def)
  show "\<not> is_err (fst (exec (CSRem activeKey x) r))" by (rule srem_typed(1) [OF ok])
  show "well_typed (ks (snd (exec (CSRem activeKey x) r)))" using assms z by (simp add: well_typed_writes)
  show "inventory_of (ks (snd (exec (CSRem activeKey x) r))) = (inventory_of (ks r))
           \<lparr>active_ids := active_ids (inventory_of (ks r)) - {x}\<rparr>"
    using z rd by (simp add: inventory_writes)
qed

lemma effect_del_rec [simp]:
  assumes "well_typed (ks r)" and "sid i"
  shows "\<not> is_err (fst (exec (CDel [rec_key i, sshPortKey i]) r))"
    and "well_typed (ks (snd (exec (CDel [rec_key i, sshPortKey i]) r)))"
    and "inventory_of (ks (snd (exec (CDel [rec_key i, sshPortKey i]) r))) =
           (inventory_of (ks r))\<lparr>recs := (recs (inventory_of (ks r)))(i := None),
              ports := (ports (inventory_of (ks r)))(i := None)\<rparr>"
  using assms by (simp_all only: del_spec inventory_dels well_typed_del is_err.simps not_False_eq_True)

lemma effect_del_slot [simp]:
  assumes "well_typed (ks r)"
  shows "fst (exec (CDel [slot_key u]) r) =
           RInt (if slots (inventory_of (ks r)) u = None then 0 else 1)"
    and "\<not> is_err (fst (exec (CDel [slot_key u]) r))"
    and "well_typed (ks (snd (exec (CDel [slot_key u]) r)))"
    and "inventory_of (ks (snd (exec (CDel [slot_key u]) r))) =
           (inventory_of (ks r))\<lparr>slots := (slots (inventory_of (ks r)))(u := None)\<rparr>"
proof -
  have "{k \<in> set [slot_key u]. kv (ks r) k \<noteq> None} =
      (if kv (ks r) (slot_key u) = None then {} else {slot_key u})" by auto
  then show "fst (exec (CDel [slot_key u]) r) =
           RInt (if slots (inventory_of (ks r)) u = None then 0 else 1)"
    using well_typed_reads(2) [OF assms, of u]
    by (auto simp: del_spec inventory_of_def slot_ok_iff)
qed (use assms in \<open>simp_all only: del_spec inventory_dels well_typed_del is_err.simps not_False_eq_True\<close>)

lemma effect_del_indexes [simp]:
  assumes "well_typed (ks r)"
  shows "\<not> is_err (fst (exec (CDel [user_key u, slot_key u]) r))"
    and "well_typed (ks (snd (exec (CDel [user_key u, slot_key u]) r)))"
    and "inventory_of (ks (snd (exec (CDel [user_key u, slot_key u]) r))) =
           (inventory_of (ks r))\<lparr>by_user := (by_user (inventory_of (ks r)))(u := {}),
              slots := (slots (inventory_of (ks r)))(u := None)\<rparr>"
  using assms by (simp_all only: del_spec inventory_dels well_typed_del is_err.simps not_False_eq_True)

lemma effect_publish [simp]:
  shows "\<not> is_err (fst (exec (CPublish ch v) r))"
    and "well_typed (ks (snd (exec (CPublish ch v) r))) \<longleftrightarrow> well_typed (ks r)"
    and "inventory_of (ks (snd (exec (CPublish ch v) r))) =
           (inventory_of (ks r))\<lparr>events := events (inventory_of (ks r)) @ [(ch, v)]\<rparr>"
proof -
  show "\<not> is_err (fst (exec (CPublish ch v) r))" using publish_spec(2) [of ch v r] by auto
  show "well_typed (ks (snd (exec (CPublish ch v) r))) \<longleftrightarrow> well_typed (ks r)"
    by (simp add: publish_spec(1) well_typed_writes)
  show "inventory_of (ks (snd (exec (CPublish ch v) r))) =
           (inventory_of (ks r))\<lparr>events := events (inventory_of (ks r)) @ [(ch, v)]\<rparr>"
    by (simp add: publish_spec(1) inventory_writes) (simp add: inventory_of_def)
qed

end

end
