(* ===== verification/Store_Refine.thy ===== *)
theory Store_Refine
  imports Store_Spec
begin

text \<open>
  The abstract operations of the inventory and the proof that the atomic requests of the store
  (its transaction and its four scripts) refine them: each request, run on a well-typed keyspace,
  answers as the abstract operation does, leaves the keyspace well typed, and its effect seen
  through \<open>inventory_of\<close> is the abstract operation.
\<close>

section \<open>The abstract operations\<close>

definition spec_put :: "sandbox \<Rightarrow> inventory \<Rightarrow> inventory" where
  "spec_put sb a =
     (let st = sb\<lparr>SSHConnections := 0\<rparr> in
      a\<lparr>recs := (recs a)(ID sb \<mapsto> backfill st),
        by_user := (by_user a)(UserID sb := insert (ID sb) (by_user a (UserID sb))),
        all_ids := insert (ID sb) (all_ids a),
        active_ids := (if IsActive sb then insert (ID sb) (active_ids a) else active_ids a - {ID sb}),
        events := events a @ [(eventsChannel (UserID sb), marshal st)]\<rparr>)"

definition spec_reserve :: "sandbox \<Rightarrow> inventory \<Rightarrow> bool \<times> inventory" where
  "spec_reserve sb a =
     (if slots a (UserID sb) \<noteq> None then (False, a)
      else (True,
        a\<lparr>recs := (recs a)(ID sb \<mapsto> backfill sb),
          slots := (slots a)(UserID sb \<mapsto> ID sb),
          by_user := (by_user a)(UserID sb := insert (ID sb) (by_user a (UserID sb))),
          all_ids := insert (ID sb) (all_ids a),
          active_ids := insert (ID sb) (active_ids a),
          events := events a @ [(eventsChannel (UserID sb), marshal sb)]\<rparr>))"

definition spec_put_running :: "sandbox \<Rightarrow> inventory \<Rightarrow> bool \<times> inventory" where
  "spec_put_running sb a =
     (let st = sb\<lparr>SSHConnections := 0\<rparr> in
      if slots a (UserID sb) = Some (ID sb) \<and>
         (case recs a (ID sb) of None \<Rightarrow> False | Some old \<Rightarrow> SbState old = StateCreating)
      then (True, a\<lparr>recs := (recs a)(ID sb \<mapsto> backfill st),
                    events := events a @ [(eventsChannel (UserID sb), marshal st)]\<rparr>)
      else (False, a))"

definition spec_delete :: "string \<Rightarrow> string \<Rightarrow> inventory \<Rightarrow> inventory" where
  "spec_delete i u a =
     a\<lparr>recs := (recs a)(i := None),
       slots := (if slots a u = Some i then (slots a)(u := None) else slots a),
       by_user := (by_user a)(u := by_user a u - {i}),
       all_ids := all_ids a - {i},
       active_ids := active_ids a - {i},
       ports := (ports a)(i := None),
       events := events a @ [(eventsChannel u, deleted_event i u)]\<rparr>"

definition spec_release :: "string \<Rightarrow> string \<Rightarrow> inventory \<Rightarrow> bool \<times> inventory" where
  "spec_release u i a =
     (if slots a u = Some i then (True, a\<lparr>slots := (slots a)(u := None)\<rparr>) else (False, a))"

definition spec_purge :: "string \<Rightarrow> inventory \<Rightarrow> inventory" where
  "spec_purge u a = a\<lparr>by_user := (by_user a)(u := {}), slots := (slots a)(u := None)\<rparr>"

definition spec_set_port :: "string \<Rightarrow> int \<Rightarrow> inventory \<Rightarrow> inventory" where
  "spec_set_port i p a = a\<lparr>ports := (ports a)(i \<mapsto> p)\<rparr>"

text \<open>The integer replies of the scripts.\<close>

definition bool_reply :: "bool \<Rightarrow> reply" where
  "bool_reply b = RInt (if b then 1 else 0)"

lemma bool_reply_simps [simp]: "bool_reply True = RInt 1" "bool_reply False = RInt 0"
  by (simp_all add: bool_reply_def)

section \<open>Refinement\<close>

lemma unmarshal_marshal_sandbox [simp]: "unmarshal_sandbox (marshal sb) = Some sb"
  by (simp add: marshal_def unmarshal_marshal)

text \<open>What the script's \<^verbatim>\<open>cjson.decode(record).state\<close> sees is what \<^verbatim>\<open>Get\<close> decodes.\<close>

lemma bind_eq_SomeE: "Option.bind x f = Some y \<Longrightarrow> (\<And>z. x = Some z \<Longrightarrow> f z = Some y \<Longrightarrow> P) \<Longrightarrow> P"
  by (cases x) auto

lemma sandbox_of_fields_state:
  "sandbox_of_fields ob = Some sb \<Longrightarrow> dec_str ''state'' ob = Some (SbState sb)"
  unfolding sandbox_of_fields_def by (elim bind_eq_SomeE) auto

lemma cjson_state_unmarshal:
  assumes "unmarshal_sandbox v = Some sb"
  shows "\<exists>st. cjson_state v = Some st \<and> (st = Some (JStr StateCreating) \<longleftrightarrow> SbState sb = StateCreating)"
proof -
  from assms obtain ob where v: "v = Json (JObj ob)" and f: "sandbox_of_fields ob = Some sb"
    by (auto simp: unmarshal_sandbox_def split: bulk.splits json.splits)
  from sandbox_of_fields_state [OF f] show ?thesis
    by (auto simp: v cjson_state_def dec_str_def StateCreating_def split: option.splits json.splits)
qed

context redis_server
begin

lemma put_refines:
  assumes wt: "well_typed (ks r)" and i: "sid (ID sb)"
  shows "wp (putTx exec sb (marshal (sb\<lparr>SSHConnections := 0\<rparr>)))
           (\<lambda>e r'. well_typed (ks r') \<and>
                   (e, inventory_of (ks r')) = (None, spec_put sb (inventory_of (ks r)))) r"
  using wt i
  by (cases "IsActive sb")
    (simp_all add: putTx_def wp_tx_cons wp_tx_nil spec_put_def Let_def del: tx_exec.simps)

lemma reserve_refines:
  assumes wt: "well_typed (ks r)" and i: "sid (ID sb)"
  shows "wp (reserveUserSlot exec (slot_key (UserID sb)) (rec_key (ID sb)) (user_key (UserID sb))
               allKey activeKey (eventsChannel (UserID sb)) (ID sb) (marshal sb))
           (\<lambda>rep r'. well_typed (ks r') \<and>
              (rep, inventory_of (ks r')) = map_prod bool_reply id (spec_reserve sb (inventory_of (ks r)))) r"
proof (cases "slots (inventory_of (ks r)) (UserID sb)")
  case None
  with wt i show ?thesis
    by (simp add: reserveUserSlot_def wp_redis_call [of _ "CSetNX _ _"] wp_call_ignore wp_return
        spec_reserve_def)
next
  case (Some j)
  with wt show ?thesis
    by (simp add: reserveUserSlot_def wp_redis_call [of _ "CSetNX _ _"] wp_return spec_reserve_def)
qed

lemma put_running_refines:
  assumes wt: "well_typed (ks r)" and i: "sid (ID sb)"
  shows "wp (putRunning exec (slot_key (UserID sb)) (rec_key (ID sb)) (eventsChannel (UserID sb))
               (Text (ID sb)) (marshal (sb\<lparr>SSHConnections := 0\<rparr>)))
           (\<lambda>rep r'. well_typed (ks r') \<and>
              (rep, inventory_of (ks r')) = map_prod bool_reply id (spec_put_running sb (inventory_of (ks r)))) r"
proof (cases "slots (inventory_of (ks r)) (UserID sb) = Some (ID sb)")
  case False
  with wt show ?thesis
    by (auto simp: putRunning_def wp_redis_call get_slot wp_return spec_put_running_def
        split: option.split)
next
  case slot: True
  let ?r1 = "snd (exec (CGet (slot_key (UserID sb))) r)"
  let ?r2 = "snd (exec (CGet (rec_key (ID sb))) ?r1)"
  have wt1: "well_typed (ks ?r1)" using wt by simp
  from wt1 i show ?thesis
  proof (cases rule: get_rec_cases)
    case absent
    with slot wt show ?thesis
      by (simp add: putRunning_def wp_redis_call get_slot wp_return spec_put_running_def)
  next
    case (present v old)
    from cjson_state_unmarshal [OF present(2)] obtain st where
      st: "cjson_state v = Some st" "st = Some (JStr StateCreating) \<longleftrightarrow> SbState old = StateCreating"
      by blast
    show ?thesis
    proof (cases "SbState old = StateCreating")
      case True
      with slot wt i present st show ?thesis
        by (simp add: putRunning_def wp_redis_call [of _ "CGet _"] get_slot wp_call_ignore wp_return
            spec_put_running_def Let_def)
    next
      case False
      with slot wt i present st show ?thesis
        by (simp add: putRunning_def wp_redis_call [of _ "CGet _"] get_slot wp_return
            spec_put_running_def)
    qed
  qed
qed

lemma delete_refines:
  assumes wt: "well_typed (ks r)" and i: "sid i"
  shows "wp (deleteSandbox exec (rec_key i) (sshPortKey i) activeKey (user_key u) allKey (slot_key u)
               (eventsChannel u) i (deleted_event i u))
           (\<lambda>rep r'. well_typed (ks r') \<and>
              (rep, inventory_of (ks r')) = (RInt 1, spec_delete i u (inventory_of (ks r)))) r"
proof (cases "slots (inventory_of (ks r)) u = Some i")
  case True
  with wt i show ?thesis
    by (simp add: deleteSandbox_def wp_redis_call [of _ "CGet _"] get_slot wp_call_ignore wp_return
        spec_delete_def)
next
  case False
  with wt i show ?thesis
    by (cases "slots (inventory_of (ks r)) u")
      (simp_all add: deleteSandbox_def wp_redis_call [of _ "CGet _"] get_slot wp_call_ignore wp_return
        spec_delete_def)
qed

lemma release_refines:
  assumes wt: "well_typed (ks r)"
  shows "wp (relIfOwner exec (slot_key u) (Text i))
           (\<lambda>rep r'. well_typed (ks r') \<and>
              (rep, inventory_of (ks r')) = map_prod bool_reply id (spec_release u i (inventory_of (ks r)))) r"
proof (cases "slots (inventory_of (ks r)) u = Some i")
  case True
  with wt show ?thesis
    by (simp add: relIfOwner_def wp_redis_call get_slot wp_return spec_release_def)
next
  case False
  with wt show ?thesis
    by (cases "slots (inventory_of (ks r)) u")
      (simp_all add: relIfOwner_def wp_redis_call get_slot wp_return spec_release_def)
qed

lemma purge_refines:
  assumes wt: "well_typed (ks r)"
  shows "well_typed (ks (snd (exec (CDel [user_key u, slot_key u]) r))) \<and>
         inventory_of (ks (snd (exec (CDel [user_key u, slot_key u]) r))) =
           spec_purge u (inventory_of (ks r))"
  using wt by (simp add: spec_purge_def)

lemma incr_keeps:
  assumes wt: "well_typed (ks r)"
  shows "well_typed (ks (snd (exec (CIncr createdKey) r)))"
    and "inventory_of (ks (snd (exec (CIncr createdKey) r))) = inventory_of (ks r)"
proof -
  have *: "ks (snd (exec (CIncr createdKey) r)) = ks r \<or>
      (\<exists>n. in_int64 n \<and> ks (snd (exec (CIncr createdKey) r)) =
             (ks r)\<lparr>kv := (kv (ks r))(createdKey := Some (RStr (Text (dec_int n))))\<rparr>)"
  proof (cases "kv (ks r) createdKey")
    case None
    then show ?thesis
      using incr_spec [of createdKey r] by (intro disjI2 exI [of _ 1]) (simp add: in_int64_def)
  next
    case (Some v)
    with well_typed_reads(7) [OF wt] obtain t n where "v = RStr (Text t)" "atoi t = Some n"
      by (auto simp: port_ok_iff bulk_int_Some)
    with Some show ?thesis
      using incr_spec [of createdKey r]
      by (cases "in_int64 (n + 1)") (auto intro!: exI [of _ "n + 1"])
  qed
  have "in_int64 n \<Longrightarrow> port_ok (Some (RStr (Text (dec_int n))))" for n
    by (simp add: bulk_int_def)
  with * wt show "well_typed (ks (snd (exec (CIncr createdKey) r)))"
    and "inventory_of (ks (snd (exec (CIncr createdKey) r))) = inventory_of (ks r)"
    by (auto simp: well_typed_writes inventory_writes)
qed

end

end
