(* ===== verification/Store_Invariant.thy ===== *)
theory Store_Invariant
  imports Store_Refine
begin

text \<open>
  The consistency of the inventory, and its preservation by every atomic request of the store.
  \<open>own\<close> names the user each sandbox id was minted for (ids are random, so an id is minted once).
  \<open>request\<close> lists the atomic requests that write, \<open>perform\<close> runs one on a server and \<open>abstractly\<close>
  is its abstract operation; \<open>lawful own q\<close> says what the callers respect: a record is written
  under its own id by the user it was minted for, reservations are of records in the state
  \<^verbatim>\<open>creating\<close>, and a deletion passes the user of the record.
\<close>

definition consistent :: "(string \<Rightarrow> string) \<Rightarrow> inventory \<Rightarrow> bool" where
  "consistent own a \<longleftrightarrow>
     (\<forall>i sb. recs a i = Some sb \<longrightarrow> ID sb = i \<and> UserID sb = own i) \<and>
     (\<forall>u i. slots a u = Some i \<longrightarrow> own i = u \<and> i \<in> dom (recs a)) \<and>
     (\<forall>u. by_user a u \<subseteq> {i \<in> dom (recs a). own i = u}) \<and>
     all_ids a = dom (recs a) \<and>
     active_ids a = {i. \<exists>sb. recs a i = Some sb \<and> IsActive sb}"

datatype request =
  QPut sandbox | QReserve sandbox | QRunning sandbox | QDelete string string
| QRelease string string | QPurge string | QPort string int | QCreated

fun lawful :: "(string \<Rightarrow> string) \<Rightarrow> request \<Rightarrow> bool" where
  "lawful own (QPut sb) \<longleftrightarrow> sid (ID sb) \<and> own (ID sb) = UserID sb"
| "lawful own (QReserve sb) \<longleftrightarrow> sid (ID sb) \<and> own (ID sb) = UserID sb \<and> SbState sb = StateCreating"
| "lawful own (QRunning sb) \<longleftrightarrow> sid (ID sb) \<and> own (ID sb) = UserID sb \<and> SbState sb = StateRunning"
| "lawful own (QDelete i u) \<longleftrightarrow> sid i \<and> own i = u"
| "lawful own (QPort i p) \<longleftrightarrow> in_int64 p"
| "lawful own _ \<longleftrightarrow> True"

fun abstractly :: "request \<Rightarrow> inventory \<Rightarrow> inventory" where
  "abstractly (QPut sb) = spec_put sb"
| "abstractly (QReserve sb) = snd \<circ> spec_reserve sb"
| "abstractly (QRunning sb) = snd \<circ> spec_put_running sb"
| "abstractly (QDelete i u) = spec_delete i u"
| "abstractly (QRelease u i) = snd \<circ> spec_release u i"
| "abstractly (QPurge u) = spec_purge u"
| "abstractly (QPort i p) = spec_set_port i p"
| "abstractly QCreated = id"

fun perform :: "(rcmd \<Rightarrow> 'r \<Rightarrow> reply \<times> 'r) \<Rightarrow> request \<Rightarrow> 'r \<Rightarrow> 'r" where
  "perform ex (QPut sb) r = snd (run_state (putTx ex sb (marshal (sb\<lparr>SSHConnections := 0\<rparr>))) r)"
| "perform ex (QReserve sb) r =
     snd (run_state (reserveUserSlot ex (slot_key (UserID sb)) (rec_key (ID sb)) (user_key (UserID sb))
            allKey activeKey (eventsChannel (UserID sb)) (ID sb) (marshal sb)) r)"
| "perform ex (QRunning sb) r =
     snd (run_state (putRunning ex (slot_key (UserID sb)) (rec_key (ID sb)) (eventsChannel (UserID sb))
            (Text (ID sb)) (marshal (sb\<lparr>SSHConnections := 0\<rparr>))) r)"
| "perform ex (QDelete i u) r =
     snd (run_state (deleteSandbox ex (rec_key i) (sshPortKey i) activeKey (user_key u) allKey
            (slot_key u) (eventsChannel u) i (deleted_event i u)) r)"
| "perform ex (QRelease u i) r = snd (run_state (relIfOwner ex (slot_key u) (Text i)) r)"
| "perform ex (QPurge u) r = snd (ex (CDel [user_key u, slot_key u]) r)"
| "perform ex (QPort i p) r = snd (ex (CSet (sshPortKey i) (Text (dec_int p))) r)"
| "perform ex QCreated r = snd (ex (CIncr createdKey) r)"

section \<open>The abstract operations keep the inventory consistent\<close>

lemma IsActive_update [simp]: "IsActive (sb\<lparr>SSHConnections := n\<rparr>) = IsActive sb"
  by (simp add: IsActive_def)

lemma consistent_empty: "consistent own \<lparr>recs = Map.empty, slots = Map.empty, by_user = (\<lambda>_. {}),
    all_ids = {}, active_ids = {}, ports = Map.empty, events = es\<rparr>"
  by (simp add: consistent_def)

lemma consistent_put:
  assumes "consistent own a" and "own (ID sb) = UserID sb"
  shows "consistent own (spec_put sb a)"
  using assms by (auto simp: consistent_def spec_put_def Let_def)

lemma consistent_reserve:
  assumes "consistent own a" and "own (ID sb) = UserID sb" and "SbState sb = StateCreating"
  shows "consistent own (snd (spec_reserve sb a))"
  using assms by (auto simp: consistent_def spec_reserve_def IsActive_def)

lemma consistent_put_running:
  assumes "consistent own a" and "own (ID sb) = UserID sb" and "SbState sb = StateRunning"
  shows "consistent own (snd (spec_put_running sb a))"
  using assms by (auto simp: consistent_def spec_put_running_def Let_def IsActive_def split: option.splits)

lemma consistent_delete:
  assumes "consistent own a" and "own i = u"
  shows "consistent own (spec_delete i u a)"
proof -
  have 1: "recs a j = Some sb \<Longrightarrow> ID sb = j \<and> UserID sb = own j"
    and 2: "slots a v = Some j \<Longrightarrow> own j = v \<and> j \<in> dom (recs a)"
    and 3: "by_user a v \<subseteq> {j \<in> dom (recs a). own j = v}"
    and 4: "all_ids a = dom (recs a)"
    and 5: "active_ids a = {j. \<exists>sb. recs a j = Some sb \<and> IsActive sb}" for v j sb
    using assms(1) by (simp_all add: consistent_def)
  have s: "slots a v = Some j \<and> (v = u \<longrightarrow> j \<noteq> i) \<Longrightarrow> own j = v \<and> j \<in> dom (recs a) - {i}" for v j
    using 2 [of v j] assms(2) by auto
  have b: "(if v = u then by_user a u - {i} else by_user a v) \<subseteq>
      {j \<in> dom (recs a) - {i}. own j = v}" for v
    using 3 [of v] assms(2) by auto
  show ?thesis
    unfolding consistent_def
  proof (intro conjI allI impI)
    fix j sb
    assume "recs (spec_delete i u a) j = Some sb"
    then have "recs a j = Some sb" by (simp add: spec_delete_def split: if_splits)
    from 1 [OF this] show "ID sb = j" "UserID sb = own j" by simp_all
  next
    fix v j
    assume "slots (spec_delete i u a) v = Some j"
    then have "slots a v = Some j \<and> (v = u \<longrightarrow> j \<noteq> i)"
      by (auto simp: spec_delete_def split: if_splits)
    from s [OF this] show "own j = v" "j \<in> dom (recs (spec_delete i u a))"
      by (simp_all add: spec_delete_def)
  next
    fix v
    show "by_user (spec_delete i u a) v \<subseteq> {j \<in> dom (recs (spec_delete i u a)). own j = v}"
      using b [of v] by (simp add: spec_delete_def)
  next
    show "all_ids (spec_delete i u a) = dom (recs (spec_delete i u a))"
      by (simp add: spec_delete_def 4)
    show "active_ids (spec_delete i u a) =
        {j. \<exists>sb. recs (spec_delete i u a) j = Some sb \<and> IsActive sb}"
      by (auto simp: spec_delete_def 5)
  qed
qed

lemma consistent_release: "consistent own a \<Longrightarrow> consistent own (snd (spec_release u i a))"
  by (auto simp: consistent_def spec_release_def)

lemma consistent_purge: "consistent own a \<Longrightarrow> consistent own (spec_purge u a)"
  by (auto simp: consistent_def spec_purge_def)

lemma consistent_set_port: "consistent own a \<Longrightarrow> consistent own (spec_set_port i p a)"
  by (simp add: consistent_def spec_set_port_def)

lemma consistent_abstractly: "consistent own a \<Longrightarrow> lawful own q \<Longrightarrow> consistent own (abstractly q a)"
  by (cases q)
    (simp_all add: consistent_put consistent_reserve consistent_put_running consistent_delete
      consistent_release consistent_purge consistent_set_port)

section \<open>Every request refines its abstract operation\<close>

context redis_server
begin

lemma perform_refines:
  assumes wt: "well_typed (ks r)" and q: "lawful own q"
  shows "well_typed (ks (perform exec q r)) \<and>
         inventory_of (ks (perform exec q r)) = abstractly q (inventory_of (ks r))"
proof (cases q)
  case (QPut sb)
  with put_refines [OF wt, of sb] q show ?thesis by (simp add: wp_def)
next
  case (QReserve sb)
  with reserve_refines [OF wt, of sb] q show ?thesis by (simp add: wp_def map_prod_def split_beta)
next
  case (QRunning sb)
  with put_running_refines [OF wt, of sb] q show ?thesis by (simp add: wp_def map_prod_def split_beta)
next
  case (QDelete i u)
  with delete_refines [OF wt, of i u] q show ?thesis by (simp add: wp_def)
next
  case (QRelease u i)
  with release_refines [OF wt, of u i] show ?thesis by (simp add: wp_def map_prod_def split_beta)
next
  case (QPurge u)
  with purge_refines [OF wt, of u] show ?thesis by simp
next
  case (QPort i p)
  with q have "bulk_int (Text (dec_int p)) = Some p" by (simp add: bulk_int_def)
  from effect_set_port [OF wt this, of i] QPort show ?thesis by (simp add: spec_set_port_def)
next
  case QCreated
  with incr_keeps [OF wt] show ?thesis by simp
qed

end

text \<open>The states of the server that the invariant allows.\<close>

definition good :: "(string \<Rightarrow> string) \<Rightarrow> keyspace \<Rightarrow> bool" where
  "good own s \<longleftrightarrow> well_typed s \<and> consistent own (inventory_of s)"

lemma goodD: "good own s \<Longrightarrow> well_typed s" "good own s \<Longrightarrow> consistent own (inventory_of s)"
  by (simp_all add: good_def)

fun performs :: "(rcmd \<Rightarrow> 'r \<Rightarrow> reply \<times> 'r) \<Rightarrow> request list \<Rightarrow> 'r \<Rightarrow> 'r" where
  "performs ex [] r = r"
| "performs ex (q # qs) r = performs ex qs (perform ex q r)"

context redis_server
begin

lemma perform_good: "good own (ks r) \<Longrightarrow> lawful own q \<Longrightarrow> good own (ks (perform exec q r))"
  using perform_refines [of r own q] by (simp add: good_def consistent_abstractly)

lemma performs_refine:
  assumes "good own (ks r)" and "list_all (lawful own) qs"
  shows "good own (ks (performs exec qs r)) \<and>
         inventory_of (ks (performs exec qs r)) = fold abstractly qs (inventory_of (ks r))"
  using assms
proof (induction qs arbitrary: r)
  case (Cons q qs)
  then show ?case
    using perform_good [of own r q] perform_refines [of r own q] by (simp add: goodD)
qed simp

end

end
