(* ===== verification/Store_Client.thy ===== *)
theory Store_Client
  imports Store_Invariant
begin

text \<open>
  The methods of the store as a client sees them, in any environment that keeps the invariant of
  \<open>Store_Invariant\<close>: other instances of the service may change the server before every round trip,
  a round trip may fail before or after it took effect, and contexts may be over. The locale
  \<open>refined_request\<close> is the interface of one atomic request (a program on the server and the
  abstract operation it implements), \<open>redis_client\<close> that of a client connection. \<open>arriving E ks c\<close>
  is the inventory the next request finds. The \<open>_calm\<close> facts say what each method does when
  nothing fails and nobody else acts.
\<close>

definition inv_of :: "('r \<Rightarrow> keyspace) \<Rightarrow> 'r conn \<Rightarrow> inventory" where
  "inv_of ks c = inventory_of (ks (server c))"

definition good_conn :: "(string \<Rightarrow> string) \<Rightarrow> ('r \<Rightarrow> keyspace) \<Rightarrow> 'r conn \<Rightarrow> bool" where
  "good_conn own ks c \<longleftrightarrow> good own (ks (server c))"

definition arriving :: "'r redis_env \<Rightarrow> ('r \<Rightarrow> keyspace) \<Rightarrow> 'r conn \<Rightarrow> inventory" where
  "arriving E ks c = inventory_of (ks (others E (calls c) (server c)))"

lemma arriving_calm: "calm E \<Longrightarrow> arriving E ks c = inv_of ks c"
  by (simp add: arriving_def inv_of_def calm_def)

text \<open>A sandbox of which no trace is left in the inventory.\<close>

definition gone :: "string \<Rightarrow> inventory \<Rightarrow> bool" where
  "gone i a \<longleftrightarrow> recs a i = None \<and> i \<notin> all_ids a \<and> i \<notin> active_ids a \<and>
     (\<forall>u. i \<notin> by_user a u \<and> slots a u \<noteq> Some i)"

lemma consistent_gone: "consistent own a \<Longrightarrow> gone i a \<longleftrightarrow> recs a i = None"
  by (fastforce simp: consistent_def gone_def)

lemma consistent_rec:
  "consistent own a \<Longrightarrow> recs a i = Some sb \<Longrightarrow> ID sb = i \<and> UserID sb = own i"
  by (simp add: consistent_def)

lemma recs_spec_delete [simp]: "recs (spec_delete i u a) i = None"
  by (simp add: spec_delete_def)

text \<open>\<open>applied f a a'\<close>: a request changed \<open>a\<close> by \<open>f\<close>, or did not reach the server.\<close>

definition applied :: "(inventory \<Rightarrow> inventory) \<Rightarrow> inventory \<Rightarrow> inventory \<Rightarrow> bool" where
  "applied f a a' \<longleftrightarrow> a' = a \<or> a' = f a"

text \<open>The ids in the index that \<^verbatim>\<open>List\<close> reads.\<close>

definition listed :: "string \<Rightarrow> inventory \<Rightarrow> string set" where
  "listed u a = (if u \<noteq> [] then by_user a u else all_ids a)"

lemma listed_dom: "consistent own a \<Longrightarrow> listed u a \<subseteq> dom (recs a)"
  by (auto simp: listed_def consistent_def)

locale refined_request =
  fixes ks :: "'r \<Rightarrow> keyspace"
    and pre :: bool
    and req :: "('r, 'a) state"
    and spec :: "inventory \<Rightarrow> 'a \<times> inventory"
  assumes refines: "pre \<Longrightarrow> well_typed (ks r) \<Longrightarrow>
      wp req (\<lambda>a r'. well_typed (ks r') \<and> (a, inventory_of (ks r')) = spec (inventory_of (ks r))) r"
begin

text \<open>The outcome of a round trip that carries the request.\<close>

lemma outcome:
  assumes pre
    and rel: "\<And>n r. good own (ks r) \<Longrightarrow> good own (ks (others E n r))"
    and keeps: "\<And>a. consistent own a \<Longrightarrow> consistent own (snd (spec a))"
    and c: "good_conn own ks c"
  shows "wp (roundtrip E cx req)
           (\<lambda>a c'. good_conn own ks c' \<and>
              (case a of Inr x \<Rightarrow> (x, inv_of ks c') = spec (arriving E ks c)
                       | Inl _ \<Rightarrow> inv_of ks c' \<in> {arriving E ks c, snd (spec (arriving E ks c))})) c"
proof -
  let ?r0 = "others E (calls c) (server c)"
  let ?r1 = "snd (run_state req ?r0)"
  have g: "good own (ks ?r0)" using rel c by (simp add: good_conn_def)
  from refines [OF \<open>pre\<close> goodD(1) [OF g]]
  have r: "well_typed (ks ?r1)"
    "spec (inventory_of (ks ?r0)) = (fst (run_state req ?r0), inventory_of (ks ?r1))"
    by (simp_all add: wp_def)
  with keeps [OF goodD(2) [OF g]] have "good own (ks ?r1)" by (simp add: good_def)
  with g r show ?thesis
    by (auto simp: wp_def run_roundtrip Let_def split_beta good_conn_def inv_of_def arriving_def
        split: fault.splits)
qed

lemma calm_outcome:
  assumes pre and "calm E"
    and keeps: "\<And>a. consistent own a \<Longrightarrow> consistent own (snd (spec a))"
    and c: "good_conn own ks c"
  shows "wp (roundtrip E cx req)
           (\<lambda>a c'. good_conn own ks c' \<and> a = Inr (fst (spec (inv_of ks c))) \<and>
                   inv_of ks c' = snd (spec (inv_of ks c))) c"
proof -
  let ?r1 = "snd (run_state req (server c))"
  from c have g: "good own (ks (server c))" by (simp add: good_conn_def)
  from refines [OF \<open>pre\<close> goodD(1) [OF g]]
  have r: "well_typed (ks ?r1)"
    "spec (inventory_of (ks (server c))) = (fst (run_state req (server c)), inventory_of (ks ?r1))"
    by (simp_all add: wp_def)
  with keeps [OF goodD(2) [OF g]] have "good own (ks ?r1)" by (simp add: good_def)
  with r show ?thesis
    unfolding wp_roundtrip_calm [OF \<open>calm E\<close>] by (simp add: wp_def good_conn_def inv_of_def)
qed

end

text \<open>The five atomic requests that write records and slots, and the single commands.\<close>

sublocale redis_server \<subseteq> put: refined_request ks "sid (ID sb)"
  "putTx exec sb (marshal (sb\<lparr>SSHConnections := 0\<rparr>))" "\<lambda>a. (None, spec_put sb a)" for sb
  using put_refines by unfold_locales blast

sublocale redis_server \<subseteq> reserve: refined_request ks "sid (ID sb)"
  "reserveUserSlot exec (slot_key (UserID sb)) (rec_key (ID sb)) (user_key (UserID sb))
     allKey activeKey (eventsChannel (UserID sb)) (ID sb) (marshal sb)"
  "\<lambda>a. map_prod bool_reply id (spec_reserve sb a)" for sb
  using reserve_refines by unfold_locales blast

sublocale redis_server \<subseteq> running: refined_request ks "sid (ID sb)"
  "putRunning exec (slot_key (UserID sb)) (rec_key (ID sb)) (eventsChannel (UserID sb))
     (Text (ID sb)) (marshal (sb\<lparr>SSHConnections := 0\<rparr>))"
  "\<lambda>a. map_prod bool_reply id (spec_put_running sb a)" for sb
  using put_running_refines by unfold_locales blast

sublocale redis_server \<subseteq> delete: refined_request ks "sid i"
  "deleteSandbox exec (rec_key i) (sshPortKey i) activeKey (user_key u) allKey (slot_key u)
     (eventsChannel u) i (deleted_event i u)"
  "\<lambda>a. (RInt 1, spec_delete i u a)" for i u
  using delete_refines by unfold_locales blast

sublocale redis_server \<subseteq> release: refined_request ks True
  "relIfOwner exec (slot_key u) (Text i)"
  "\<lambda>a. map_prod bool_reply id (spec_release u i a)" for u i
  using release_refines by unfold_locales blast

section \<open>A client connection\<close>

locale redis_client = redis_server "exec E" ks
  for E :: "'r redis_env" and ks :: "'r \<Rightarrow> keyspace" +
  fixes own :: "string \<Rightarrow> string"
  assumes others_good: "good own (ks r) \<Longrightarrow> good own (ks (others E n r))"
begin

abbreviation good_c :: "'r conn \<Rightarrow> bool" where
  "good_c \<equiv> good_conn own ks"

abbreviation inv :: "'r conn \<Rightarrow> inventory" where
  "inv \<equiv> inv_of ks"

abbreviation arr :: "'r conn \<Rightarrow> inventory" where
  "arr \<equiv> arriving E ks"

lemma good_arriving: "good_c c \<Longrightarrow> good own (ks (others E (calls c) (server c)))"
  by (simp add: good_conn_def others_good)

lemma consistent_arriving: "good_c c \<Longrightarrow> consistent own (arr c)"
  using goodD(2) [OF good_arriving] by (simp add: arriving_def)

lemma consistent_inv: "good_c c \<Longrightarrow> consistent own (inv c)"
  by (simp add: good_conn_def inv_of_def goodD)

text \<open>A command that does not change the server.\<close>

lemma read_outcome:
  assumes "good_c c" and "\<And>r. ks (snd (exec E cmd r)) = ks r"
  shows "wp (rdb_do E cx cmd)
           (\<lambda>res c'. good_c c' \<and> inv c' = arr c \<and>
              (\<forall>rep. res = Inr rep \<longrightarrow> rep = fst (exec E cmd (others E (calls c) (server c))) \<and> \<not> is_err rep)) c"
  using assms good_arriving [OF assms(1)]
  unfolding rdb_do_def wp_bind wp_return
  by (auto simp: wp_def run_roundtrip Let_def split_beta good_conn_def inv_of_def arriving_def
      split: fault.splits reply.splits)

lemma read_calm:
  assumes "calm E" and "good_c c" and "\<And>r. ks (snd (exec E cmd r)) = ks r"
    and "\<not> is_err (fst (exec E cmd (server c)))"
  shows "wp (rdb_do E cx cmd)
           (\<lambda>res c'. good_c c' \<and> inv c' = inv c \<and> res = Inr (fst (exec E cmd (server c)))) c"
  using assms(2-4) unfolding rdb_do_def wp_bind wp_return wp_roundtrip_calm [OF assms(1)] wp_State
  by (auto simp: good_conn_def inv_of_def split: reply.splits)

subsection \<open>Reads\<close>

lemma rec_reply:
  assumes wt: "well_typed (ks r)" and "fst (exec E (CGet (rec_key i)) r) = RBulk v"
    and "unmarshal_sandbox v = Some sb"
  shows "recs (inventory_of (ks r)) i = Some (backfill sb)"
proof -
  from assms(2) have "kv (ks r) (rec_key i) = Some (RStr v)"
    by (simp add: get_spec split: option.splits rval.splits)
  with wt assms(3) show ?thesis by (auto simp: inventory_of_def well_typed_def)
qed

lemma nil_reply: "fst (exec E (CGet (rec_key i)) r) = RNil \<Longrightarrow> recs (inventory_of (ks r)) i = None"
  by (auto simp: get_spec inventory_of_def split: option.splits rval.splits)

lemma Get_outcome:
  assumes "good_c c"
  shows "wp (Get E cx i)
           (\<lambda>g c'. good_c c' \<and> inv c' = arr c \<and> (\<forall>x. g = Inr x \<longrightarrow> x = recs (arr c) i)) c"
  unfolding Get_def rdb_get_def wp_bind wp_return
  by (rule wp_mono [OF read_outcome [OF assms effect_get]])
    (auto simp: arriving_def backfill_def [symmetric] split: sum.splits reply.splits option.splits
      dest!: nil_reply rec_reply [OF goodD(1) [OF good_arriving [OF assms]]] sym [of "RBulk _"] sym [of RNil])

lemma Get_calm:
  assumes "calm E" and "good_c c" and i: "sid i"
  shows "wp (Get E cx i) (\<lambda>g c'. good_c c' \<and> inv c' = inv c \<and> g = Inr (recs (inv c) i)) c"
proof -
  from assms(2) have wt: "well_typed (ks (server c))" by (simp add: good_conn_def goodD)
  have "\<not> is_err (fst (exec E (CGet (rec_key i)) (server c)))"
    using wt i by (cases rule: get_rec_cases) auto
  note rd = read_calm [OF assms(1,2) effect_get this]
  from wt i show ?thesis
    unfolding Get_def rdb_get_def wp_bind wp_return
    by (cases rule: get_rec_cases)
      (rule wp_mono [OF rd], simp add: inv_of_def backfill_def)+
qed

subsection \<open>Writes\<close>

lemma Put_outcome:
  assumes "good_c c" and "lawful own (QPut sb)"
  shows "wp (Put E cx sb)
           (\<lambda>e c'. good_c c' \<and> applied (spec_put sb) (arr c) (inv c') \<and>
                   (e = None \<longrightarrow> inv c' = spec_put sb (arr c))) c"
  unfolding Put_def Let_def wp_bind wp_return
  by (rule wp_mono [OF put.outcome [OF _ others_good _ assms(1)]])
    (use assms in \<open>auto simp: applied_def consistent_put split: sum.splits\<close>)

lemma Put_calm:
  assumes "calm E" and "good_c c" and "lawful own (QPut sb)"
  shows "wp (Put E cx sb) (\<lambda>e c'. good_c c' \<and> inv c' = spec_put sb (inv c) \<and> e = None) c"
  unfolding Put_def Let_def wp_bind wp_return
  by (rule wp_mono [OF put.calm_outcome [OF _ assms(1) _ assms(2)]])
    (use assms in \<open>auto simp: consistent_put\<close>)

lemma Reserve_outcome:
  assumes "good_c c" and "lawful own (QReserve sb)"
  shows "wp (ReserveUserSlot E cx sb)
           (\<lambda>g c'. good_c c' \<and> applied (snd \<circ> spec_reserve sb) (arr c) (inv c') \<and>
                   (\<forall>b. g = Inr b \<longrightarrow> (b, inv c') = spec_reserve sb (arr c))) c"
  unfolding ReserveUserSlot_def run_script_def wp_bind wp_return
  by (rule wp_mono [OF reserve.outcome [OF _ others_good _ assms(1)]])
    (use assms in \<open>auto simp: applied_def consistent_reserve bool_reply_def prod_eq_iff
       split: sum.splits reply.splits if_splits\<close>)

lemma Reserve_calm:
  assumes "calm E" and "good_c c" and "lawful own (QReserve sb)"
  shows "wp (ReserveUserSlot E cx sb)
           (\<lambda>g c'. good_c c' \<and> inv c' = snd (spec_reserve sb (inv c)) \<and>
                   g = Inr (fst (spec_reserve sb (inv c)))) c"
  unfolding ReserveUserSlot_def run_script_def wp_bind wp_return
  by (rule wp_mono [OF reserve.calm_outcome [OF _ assms(1) _ assms(2)]])
    (use assms in \<open>auto simp: consistent_reserve bool_reply_def\<close>)

lemma PutRunning_outcome:
  assumes "good_c c" and "lawful own (QRunning sb)"
  shows "wp (PutRunning E cx sb)
           (\<lambda>e c'. good_c c' \<and> applied (snd \<circ> spec_put_running sb) (arr c) (inv c') \<and>
                   (e = None \<longrightarrow> (True, inv c') = spec_put_running sb (arr c))) c"
  unfolding PutRunning_def Let_def run_script_def wp_bind wp_return
  by (rule wp_mono [OF running.outcome [OF _ others_good _ assms(1)]])
    (use assms in \<open>auto simp: applied_def consistent_put_running bool_reply_def prod_eq_iff
       split: sum.splits reply.splits if_splits\<close>)

lemma PutRunning_calm:
  assumes "calm E" and "good_c c" and "lawful own (QRunning sb)"
  shows "wp (PutRunning E cx sb)
           (\<lambda>e c'. good_c c' \<and> inv c' = snd (spec_put_running sb (inv c)) \<and>
                   (e = None \<longleftrightarrow> fst (spec_put_running sb (inv c)))) c"
  unfolding PutRunning_def Let_def run_script_def wp_bind wp_return
  by (rule wp_mono [OF running.calm_outcome [OF _ assms(1) _ assms(2)]])
    (use assms in \<open>auto simp: consistent_put_running bool_reply_def\<close>)

lemma Release_outcome:
  assumes "good_c c"
  shows "wp (ReleaseUserSlot E cx u i)
           (\<lambda>e c'. good_c c' \<and> applied (snd \<circ> spec_release u i) (arr c) (inv c') \<and>
                   (e = None \<longrightarrow> inv c' = snd (spec_release u i (arr c)))) c"
  unfolding ReleaseUserSlot_def run_script_def wp_bind wp_return
  by (rule wp_mono [OF release.outcome [OF _ others_good _ assms(1)]])
    (auto simp: applied_def consistent_release prod_eq_iff split: sum.splits reply.splits)

lemma Release_calm:
  assumes "calm E" and "good_c c"
  shows "wp (ReleaseUserSlot E cx u i)
           (\<lambda>e c'. good_c c' \<and> inv c' = snd (spec_release u i (inv c)) \<and> e = None) c"
  unfolding ReleaseUserSlot_def run_script_def wp_bind wp_return
  by (rule wp_mono [OF release.calm_outcome [OF _ assms(1) _ assms(2)]])
    (auto simp: consistent_release bool_reply_def)

lemma arr_rec:
  assumes "good_c c" and "recs (arr c) i = Some sb"
  shows "sid i" and "ID sb = i" and "UserID sb = own i"
  using recs_ID [OF goodD(1) [OF good_arriving [OF assms(1)]]] assms(2)
    consistent_rec [OF consistent_arriving [OF assms(1)] assms(2)]
  by (auto simp: arriving_def)

lemma inv_rec:
  assumes "good_c c" and "recs (inv c) i = Some sb"
  shows "sid i" and "ID sb = i" and "UserID sb = own i"
  using recs_ID [of "ks (server c)" i sb] assms consistent_rec [OF consistent_inv [OF assms(1)] assms(2)]
  by (auto simp: inv_of_def good_conn_def goodD)

lemma delete_script_outcome:
  assumes "good_c c" and "sid i"
  shows "wp (run_script E cx (deleteSandbox (exec E) (rec_key i) (sshPortKey i) activeKey
               (user_key (own i)) allKey (slot_key (own i)) (eventsChannel (own i)) i
               (deleted_event i (own i))))
           (\<lambda>r c'. good_c c' \<and> applied (spec_delete i (own i)) (arr c) (inv c') \<and>
                   (\<forall>n. r = Inr n \<longrightarrow> inv c' = spec_delete i (own i) (arr c))) c"
  unfolding run_script_def wp_bind wp_return
  by (rule wp_mono [OF delete.outcome [OF _ others_good _ assms(1)]])
    (use assms in \<open>auto simp: applied_def consistent_delete split: sum.splits reply.splits\<close>)

lemma delete_script_calm:
  assumes "calm E" and "good_c c" and "sid i"
  shows "wp (run_script E cx (deleteSandbox (exec E) (rec_key i) (sshPortKey i) activeKey
               (user_key (own i)) allKey (slot_key (own i)) (eventsChannel (own i)) i
               (deleted_event i (own i))))
           (\<lambda>r c'. good_c c' \<and> inv c' = spec_delete i (own i) (inv c) \<and> r = Inr 1) c"
  unfolding run_script_def wp_bind wp_return
  by (rule wp_mono [OF delete.calm_outcome [OF _ assms(1) _ assms(2)]])
    (use assms in \<open>auto simp: consistent_delete\<close>)

lemma Delete_outcome:
  assumes "good_c c"
  shows "wp (Delete E cx i) (\<lambda>e c'. good_c c' \<and> (e = None \<longrightarrow> gone i (inv c'))) c"
  unfolding Delete_def
proof (rule wp_bindI [OF Get_outcome [OF assms]], goal_cases)
  case (1 g c1)
  then have c1: "good_c c1" and g: "\<And>x. g = Inr x \<Longrightarrow> x = recs (arr c) i"
    and i1: "inv c1 = arr c" by auto
  show ?case
  proof (cases "\<exists>sb. g = Inr (Some sb)")
    case True
    then obtain sb where gs: "g = Inr (Some sb)" by blast
    with g have rec: "recs (arr c) i = Some sb" by simp
    note f = arr_rec [OF assms rec]
    show ?thesis
      unfolding gs sum.case option.case f(3)
      by (rule wp_bindI [OF delete_script_outcome [OF c1 f(1)]])
        (auto simp: wp_return consistent_gone [OF consistent_inv] split: sum.splits)
  next
    case False
    with c1 i1 g show ?thesis
      by (auto simp: wp_return consistent_gone [OF consistent_arriving [OF assms]]
          split: sum.splits option.splits)
  qed
qed

lemma Delete_calm:
  assumes "calm E" and "good_c c" and "sid i"
  shows "wp (Delete E cx i)
           (\<lambda>e c'. good_c c' \<and> e = None \<and>
              inv c' = (if recs (inv c) i = None then inv c else spec_delete i (own i) (inv c))) c"
  unfolding Delete_def
proof (rule wp_bindI [OF Get_calm [OF assms]], goal_cases)
  case (1 g c1)
  then have c1: "good_c c1" by simp
  show ?case
  proof (cases "recs (inv c) i")
    case None
    with 1 show ?thesis by (simp add: wp_return)
  next
    case (Some sb)
    with 1 have gs: "g = Inr (Some sb)" by simp
    show ?thesis
      unfolding gs sum.case option.case inv_rec(3) [OF assms(2) Some]
      by (rule wp_bindI [OF delete_script_calm [OF assms(1) c1 assms(3)]])
        (use 1 Some in \<open>auto simp: wp_return\<close>)
  qed
qed

subsection \<open>Slots, lists, ports, counters\<close>

lemma UserSlot_outcome:
  assumes "good_c c"
  shows "wp (UserSlot E cx u)
           (\<lambda>g c'. good_c c' \<and> inv c' = arr c \<and>
              (\<forall>i. g = Inr i \<longrightarrow> i = (case slots (arr c) u of None \<Rightarrow> [] | Some j \<Rightarrow> j))) c"
  unfolding UserSlot_def rdb_get_def wp_bind wp_return
  by (rule wp_mono [OF read_outcome [OF assms effect_get]])
    (auto simp: get_slot goodD(1) [OF good_arriving [OF assms]] arriving_def
      split: sum.splits reply.splits option.splits bulk.splits)

lemma UserSlot_calm:
  assumes "calm E" and "good_c c"
  shows "wp (UserSlot E cx u)
           (\<lambda>g c'. good_c c' \<and> inv c' = inv c \<and>
              g = Inr (case slots (inv c) u of None \<Rightarrow> [] | Some j \<Rightarrow> j)) c"
proof -
  from assms(2) have wt: "well_typed (ks (server c))" by (simp add: good_conn_def goodD)
  have "\<not> is_err (fst (exec E (CGet (slot_key u)) (server c)))"
    by (simp add: get_slot [OF wt] split: option.split)
  note rd = read_calm [OF assms effect_get this]
  show ?thesis
    unfolding UserSlot_def rdb_get_def wp_bind wp_return
    by (rule wp_mono [OF rd]) (auto simp: get_slot [OF wt] inv_of_def split: option.splits)
qed

lemma set_reply:
  assumes "set_ok (kv (ks r) k)"
  shows "\<exists>xs. fst (exec E (CSMembers k) r) = RArr xs \<and> distinct xs \<and> set xs = dec_set (kv (ks r) k)"
  using assms smembers_spec [where r = r and k = k] by (auto simp: set_ok_iff)

abbreviation index_key :: "string \<Rightarrow> string" where
  "index_key u \<equiv> if u \<noteq> [] then user_key u else allKey"

lemma index_typed: "good own (ks r) \<Longrightarrow> set_ok (kv (ks r) (index_key u))"
  using well_typed_reads(3,4) [OF goodD(1) [of own "ks r"]] by auto

lemma index_read: "dec_set (kv (ks r) (index_key u)) = listed u (inventory_of (ks r))"
  by (simp add: inventory_of_def listed_def)

lemma smembers_outcome:
  assumes "good_c c"
  shows "wp (rdb_smembers E cx (index_key u))
           (\<lambda>g c'. good_c c' \<and> inv c' = arr c \<and>
                   (\<forall>xs. g = Inr xs \<longrightarrow> distinct xs \<and> set xs = listed u (arr c))) c"
proof -
  from set_reply [OF index_typed [OF good_arriving [OF assms], of u]] obtain xs where
    xs: "fst (exec E (CSMembers (index_key u)) (others E (calls c) (server c))) = RArr xs"
      "distinct xs" "set xs = listed u (arr c)"
    by (auto simp: index_read arriving_def)
  show ?thesis
    unfolding rdb_smembers_def wp_bind wp_return
    by (rule wp_mono [OF read_outcome [OF assms smembers_keeps]])
      (use xs in \<open>auto split: sum.splits reply.splits\<close>)
qed

lemma smembers_calm:
  assumes "calm E" and "good_c c"
  shows "wp (rdb_smembers E cx (index_key u))
           (\<lambda>g c'. good_c c' \<and> inv c' = inv c \<and> (\<exists>xs. g = Inr xs \<and> distinct xs \<and> set xs = listed u (inv c))) c"
proof -
  from assms(2) have "good own (ks (server c))" by (simp add: good_conn_def)
  from set_reply [OF index_typed [OF this]] obtain xs where
    xs: "fst (exec E (CSMembers (index_key u)) (server c)) = RArr xs" "distinct xs" "set xs = listed u (inv c)"
    by (auto simp: index_read inv_of_def)
  then have "\<not> is_err (fst (exec E (CSMembers (index_key u)) (server c)))" by simp
  from read_calm [OF assms(1,2) smembers_keeps this] show ?thesis
    unfolding rdb_smembers_def wp_bind wp_return
    by (rule wp_mono) (simp add: xs)
qed

lemma get_all_outcome:
  assumes "good_c c"
  shows "wp (get_all E cx is)
           (\<lambda>sbs c'. good_c c' \<and> (\<forall>sb \<in> set sbs. ID sb \<in> set is \<and> sid (ID sb) \<and> UserID sb = own (ID sb))) c"
  using assms
proof (induction "is" arbitrary: c)
  case (Cons i "is")
  show ?case
    unfolding get_all.simps
  proof (rule wp_bindI [OF Get_outcome [OF Cons.prems]], goal_cases)
    case (1 g c1)
    then have c1: "good_c c1" and "\<And>sb. g = Inr (Some sb) \<Longrightarrow> recs (arr c) i = Some sb" by auto
    then have g: "g = Inr (Some sb) \<Longrightarrow> ID sb = i \<and> sid i \<and> UserID sb = own i" for sb
      using arr_rec [OF Cons.prems] by blast
    show ?case
      by (rule wp_bindI [OF Cons.IH [OF c1]]) (auto simp: wp_return g split: sum.split option.split)
  qed
qed (simp add: wp_return)

lemma get_all_calm:
  assumes "calm E" and "good_c c" and "list_all sid is"
  shows "wp (get_all E cx is)
           (\<lambda>sbs c'. good_c c' \<and> inv c' = inv c \<and> sbs = List.map_filter (recs (inv c)) is) c"
  using assms(2,3)
proof (induction "is" arbitrary: c)
  case (Cons i "is")
  then have i: "sid i" "list_all sid is" by simp_all
  show ?case
    unfolding get_all.simps
  proof (rule wp_bindI [OF Get_calm [OF assms(1) Cons.prems(1) i(1)]], goal_cases)
    case (1 g c1)
    then have c1: "good_c c1" "inv c1 = inv c" "g = Inr (recs (inv c) i)" by auto
    show ?case
      by (rule wp_bindI [OF Cons.IH [OF c1(1) i(2)]])
        (auto simp: wp_return c1 map_filter_simps split: option.split)
  qed
qed (simp add: wp_return map_filter_simps)

text \<open>The listing of a user shows sandboxes of that user only.\<close>

lemma List_outcome:
  assumes "good_c c"
  shows "wp (ListSandboxes E cx u)
           (\<lambda>g c'. good_c c' \<and> (\<forall>sbs. g = Inr sbs \<longrightarrow>
              (\<forall>sb \<in> set sbs. sid (ID sb) \<and> UserID sb = own (ID sb) \<and> (u \<noteq> [] \<longrightarrow> UserID sb = u)))) c"
  unfolding ListSandboxes_def
proof (rule wp_bindI [OF smembers_outcome [OF assms]], goal_cases)
  case (1 g c1)
  then have c1: "good_c c1" and g: "\<And>xs. g = Inr xs \<Longrightarrow> set xs = listed u (arr c)" by auto
  show ?case
  proof (cases g)
    case (Inr xs)
    with g consistent_arriving [OF assms] have "u \<noteq> [] \<Longrightarrow> i \<in> set xs \<Longrightarrow> own i = u" for i
      by (auto simp: consistent_def listed_def)
    then show ?thesis
      unfolding Inr sum.case
      by (intro wp_bindI [OF get_all_outcome [OF c1]]) (auto simp: wp_return)
  qed (simp add: wp_return c1)
qed

lemma List_calm:
  assumes "calm E" and "good_c c"
  shows "wp (ListSandboxes E cx u)
           (\<lambda>g c'. good_c c' \<and> inv c' = inv c \<and>
              (\<exists>is. g = Inr (map (the \<circ> recs (inv c)) is) \<and> distinct is \<and> set is = listed u (inv c))) c"
  unfolding ListSandboxes_def
proof (rule wp_bindI [OF smembers_calm [OF assms]], goal_cases)
  case (1 g c1)
  then obtain "is" where g: "g = Inr is" "distinct is" "set is = listed u (inv c)"
    and c1: "good_c c1" "inv c1 = inv c" by auto
  then have d: "set is \<subseteq> dom (recs (inv c))" using listed_dom [OF consistent_inv [OF assms(2)]] by simp
  then have "list_all sid is" using inv_rec(1) [OF assms(2)] by (auto simp: list_all_iff)
  note ga = get_all_calm [OF assms(1) c1(1) this]
  from d have "List.map_filter (recs (inv c)) is = map (the \<circ> recs (inv c)) is"
    by (induction "is") (auto simp: map_filter_simps)
  with g c1 show ?case
    unfolding g(1) sum.case by (intro wp_bindI [OF ga]) (auto simp: wp_return)
qed

text \<open>A single command that changes the inventory by \<open>f\<close>.\<close>

lemma write_outcome:
  assumes "good_c c" and "\<And>a. consistent own a \<Longrightarrow> consistent own (f a)"
    and eff: "\<And>r. well_typed (ks r) \<Longrightarrow> well_typed (ks (snd (exec E cmd r))) \<and>
              inventory_of (ks (snd (exec E cmd r))) = f (inventory_of (ks r))"
  shows "wp (rdb_err E cx cmd)
           (\<lambda>e c'. good_c c' \<and> applied f (arr c) (inv c') \<and> (e = None \<longrightarrow> inv c' = f (arr c))) c"
proof -
  from good_arriving [OF assms(1)] have "good own (ks (snd (exec E cmd (others E (calls c) (server c)))))"
    using eff assms(2) by (simp add: good_def)
  then show ?thesis
    using good_arriving [OF assms(1)] eff [OF goodD(1) [OF good_arriving [OF assms(1)]]]
    unfolding rdb_err_def rdb_do_def wp_bind wp_return
    by (auto simp: wp_def run_roundtrip Let_def split_beta good_conn_def inv_of_def arriving_def
        applied_def split: fault.splits)
qed

lemma write_calm:
  assumes "calm E" and "good_c c" and "\<And>a. consistent own a \<Longrightarrow> consistent own (f a)"
    and eff: "\<And>r. well_typed (ks r) \<Longrightarrow> well_typed (ks (snd (exec E cmd r))) \<and>
              inventory_of (ks (snd (exec E cmd r))) = f (inventory_of (ks r))"
    and ok: "\<And>r. well_typed (ks r) \<Longrightarrow> \<not> is_err (fst (exec E cmd r))"
  shows "wp (rdb_err E cx cmd) (\<lambda>e c'. good_c c' \<and> inv c' = f (inv c) \<and> e = None) c"
proof -
  from assms(2) have g: "good own (ks (server c))" by (simp add: good_conn_def)
  then have "good own (ks (snd (exec E cmd (server c))))" using eff assms(3) by (simp add: good_def)
  then show ?thesis
    using eff [OF goodD(1) [OF g]] ok [OF goodD(1) [OF g]]
    unfolding rdb_err_def rdb_do_def wp_bind wp_return wp_roundtrip_calm [OF assms(1)] wp_State
    by (auto simp: good_conn_def inv_of_def split: reply.splits)
qed

lemma SetSSHPort_outcome:
  assumes "good_c c" and "in_int64 p"
  shows "wp (SetSSHPort E cx i p)
           (\<lambda>e c'. good_c c' \<and> applied (spec_set_port i p) (arr c) (inv c') \<and>
                   (e = None \<longrightarrow> inv c' = spec_set_port i p (arr c))) c"
  unfolding SetSSHPort_def using assms
  by (intro write_outcome)
    (use perform_refines [of _ own "QPort i p"] in \<open>auto simp: consistent_set_port\<close>)

lemma SetSSHPort_calm:
  assumes "calm E" and "good_c c" and "in_int64 p"
  shows "wp (SetSSHPort E cx i p)
           (\<lambda>e c'. good_c c' \<and> inv c' = spec_set_port i p (inv c) \<and> e = None) c"
  unfolding SetSSHPort_def using assms
  by (intro write_calm)
    (use perform_refines [of _ own "QPort i p"] in \<open>auto simp: consistent_set_port set_spec\<close>)

lemma Purge_outcome:
  assumes "good_c c"
  shows "wp (PurgeUserIndexes E cx u)
           (\<lambda>e c'. good_c c' \<and> applied (spec_purge u) (arr c) (inv c') \<and>
                   (e = None \<longrightarrow> inv c' = spec_purge u (arr c))) c"
  unfolding PurgeUserIndexes_def using assms
  by (intro write_outcome) (use purge_refines in \<open>auto simp: consistent_purge\<close>)

lemma Purge_calm:
  assumes "calm E" and "good_c c"
  shows "wp (PurgeUserIndexes E cx u)
           (\<lambda>e c'. good_c c' \<and> inv c' = spec_purge u (inv c) \<and> e = None) c"
  unfolding PurgeUserIndexes_def using assms
  by (intro write_calm) (use purge_refines in \<open>auto simp: consistent_purge del_spec\<close>)

lemma IncCreated_outcome:
  assumes "good_c c"
  shows "wp (IncCreated E cx) (\<lambda>e c'. good_c c' \<and> inv c' = arr c) c"
  unfolding IncCreated_def
  by (rule wp_mono [OF write_outcome [where f = id, OF assms]]) (auto simp: applied_def incr_keeps)

lemma get_int_outcome:
  assumes "good_c c"
  shows "wp (rdb_get_int E cx k)
           (\<lambda>g c'. good_c c' \<and> inv c' = arr c \<and> (\<forall>n. g = Inr n \<longrightarrow>
              n = (case dec_port (kv (ks (others E (calls c) (server c))) k) of None \<Rightarrow> 0 | Some p \<Rightarrow> p))) c"
  unfolding rdb_get_int_def rdb_get_def wp_bind wp_return
proof (rule wp_mono [OF read_outcome [OF assms effect_get]], goal_cases)
  case (1 res c1)
  let ?x = "kv (ks (others E (calls c) (server c))) k"
  show ?case
  proof (cases res)
    case (Inr rep)
    with 1 have rep: "rep = (case ?x of None \<Rightarrow> RNil | Some (RStr v) \<Rightarrow> RBulk v | Some _ \<Rightarrow> wrong_type)"
      by (simp add: get_spec)
    from 1 have c1: "good_c c1" "inv c1 = arr c" by simp_all
    show ?thesis
      unfolding Inr rep by (cases ?x rule: dec_port.cases) (auto simp: c1 split: option.splits)
  qed (use 1 in simp)
qed

lemma SSHPort_outcome:
  assumes "good_c c"
  shows "wp (SSHPort E cx i)
           (\<lambda>g c'. good_c c' \<and> inv c' = arr c \<and>
              (\<forall>n. g = Inr n \<longrightarrow> n = (case ports (arr c) i of None \<Rightarrow> 0 | Some p \<Rightarrow> p))) c"
  unfolding SSHPort_def
  by (rule wp_mono [OF get_int_outcome [OF assms]]) (auto simp: arriving_def inventory_of_def)

lemma SSHPort_calm:
  assumes "calm E" and "good_c c"
  shows "wp (SSHPort E cx i)
           (\<lambda>g c'. good_c c' \<and> inv c' = inv c \<and>
              g = Inr (case ports (inv c) i of None \<Rightarrow> 0 | Some p \<Rightarrow> p)) c"
proof -
  from assms(2) have "port_ok (kv (ks (server c)) (sshPortKey i))"
    using well_typed_reads(6) [OF goodD(1)] by (auto simp: good_conn_def)
  then have r: "(kv (ks (server c)) (sshPortKey i) = None \<and> ports (inv c) i = None) \<or>
      (\<exists>v n. kv (ks (server c)) (sshPortKey i) = Some (RStr v) \<and> bulk_int v = Some n \<and>
             ports (inv c) i = Some n)"
    by (auto simp: port_ok_iff inv_of_def inventory_of_def)
  then have "\<not> is_err (fst (exec E (CGet (sshPortKey i)) (server c)))" by (auto simp: get_spec)
  from read_calm [OF assms effect_get this] show ?thesis
    unfolding SSHPort_def rdb_get_int_def rdb_get_def wp_bind wp_return
    by (rule wp_mono) (use r in \<open>auto simp: get_spec\<close>)
qed

end

section \<open>The connection to the server in memory\<close>

interpretation calm_client: redis_client calm_env mem_ks own for own
  by unfold_locales (simp_all add: calm_env_def mem_exec_spec)

text \<open>The empty server is in a state the invariant allows.\<close>

lemma good_empty: "good own (mem_ks empty_mem)"
  by (simp add: good_def well_typed_def consistent_def inventory_of_def mem_ks_def empty_mem_def dom_def)

definition fresh_conn :: "mem conn" where
  "fresh_conn = \<lparr>server = empty_mem, calls = 0\<rparr>"

lemma good_fresh [simp]: "good_conn own mem_ks fresh_conn"
  by (simp add: good_conn_def fresh_conn_def good_empty)

end
