(* ===== verification/Relay_Props.thy ===== *)
theory Relay_Props
  imports Relay
begin

text \<open>
  The relay as a state machine: every step of the relay and of the goroutines of its listeners,
  the states it can reach, their invariant, and what the operations promise in them.
\<close>

section \<open>Listeners\<close>

text \<open>The steps of the goroutines of a listener.\<close>

inductive listener_step :: "listener \<Rightarrow> listener \<Rightarrow> bool" where
  accepted: "i \<notin> fst ` set (sessions l) \<Longrightarrow> listener_step l (snd (accept i now l))"
| connected: "listener_step l (snd (dialed i l))"
| dropped: "listener_step l (drop_session i l)"

definition listener_ok :: "listener \<Rightarrow> bool" where
  "listener_ok l \<longleftrightarrow> length (sessions l) \<le> maxSessionsPerSandbox \<and> distinct (map fst (sessions l))"

lemma fst_dialed: "map (fst \<circ> (\<lambda>(j, s). (j, f j s))) xs = map fst xs"
  by (induction xs) auto

lemma listener_step_keeps:
  "listener_step l l' \<Longrightarrow> port l' = port l \<and> target l' = target l \<and> closed l' = closed l"
  by (induction rule: listener_step.induct)
    (simp_all add: accept_def dialed_def drop_session_def)

lemma length_delete_le: "length (AList.delete i xs) \<le> length xs"
  by (simp add: AList.delete_eq)

lemma update_new: "i \<notin> fst ` set xs \<Longrightarrow> AList.update i v xs = xs @ [(i, v)]"
  by (induction xs) auto

lemma listener_step_ok: "listener_step l l' \<Longrightarrow> listener_ok l \<Longrightarrow> listener_ok l'"
proof (induction rule: listener_step.induct)
  case (accepted i l now)
  then show ?case by (auto simp: accept_def listener_ok_def update_new)
next
  case (connected l i)
  then show ?case by (simp add: dialed_def listener_ok_def fst_dialed)
next
  case (dropped l i)
  then show ?case
    using length_delete_le [of i "sessions l"]
    by (auto simp: drop_session_def listener_ok_def distinct_delete)
qed

text \<open>A closed listener: its sessions can only go away, and none gets a connection to the guest.\<close>

definition connected_sessions :: "listener \<Rightarrow> nat set" where
  "connected_sessions l = {i. \<exists>s. (i, s) \<in> set (sessions l) \<and> upstream s}"

lemma closed_step:
  assumes "listener_step l l'" and "closed l"
  shows "set (sessions l') \<subseteq> set (sessions l) \<and> connected_sessions l' \<subseteq> connected_sessions l"
  using assms
proof (induction rule: listener_step.induct)
  case (dropped l i)
  have "set (AList.delete i (sessions l)) \<subseteq> set (sessions l)" by (auto simp: AList.delete_eq)
  then show ?case by (auto simp: drop_session_def connected_sessions_def)
qed (auto simp: accept_def dialed_def)

section \<open>The relay\<close>

inductive relay_step :: "relay \<Rightarrow> relay \<Rightarrow> bool" where
  ensure: "relay_step r (the (snd (Ensure listen i ip preferred (Some r))))"
| close: "relay_step r (the (Close i (Some r)))"
| retain: "relay_step r (the (Retain keep (Some r)))"
| serving: "(i, l) \<in> set (byID r) \<Longrightarrow> listener_step l l' \<Longrightarrow>
    relay_step r (r\<lparr>byID := AList.update i l' (byID r)\<rparr>)"
| draining: "retired r = ls @ l # ls' \<Longrightarrow> listener_step l l' \<Longrightarrow>
    relay_step r (r\<lparr>retired := ls @ l' # ls'\<rparr>)"

inductive reachable :: "string \<Rightarrow> int \<Rightarrow> int \<Rightarrow> relay \<Rightarrow> bool" for h s e where
  init: "reachable h s e (New h s e)"
| step: "reachable h s e r \<Longrightarrow> relay_step r r' \<Longrightarrow> reachable h s e r'"

text \<open>A destination is port 22 of a private or loopback IPv4 address.\<close>

definition guest_target :: "string \<Rightarrow> bool" where
  "guest_target t \<longleftrightarrow> (\<exists>ip b. ParseIP ip = Some (v4_prefix @ b) \<and> (IsPrivate4 b \<or> IsLoopback4 b) \<and>
     t = JoinHostPort (dotted b) ''22'')"

definition entry_ok :: "relay \<Rightarrow> string \<times> listener \<Rightarrow> bool" where
  "entry_ok r e \<longleftrightarrow> listener_ok (snd e) \<and> \<not> closed (snd e) \<and> guest_target (target (snd e)) \<and>
     rstart r \<le> port (snd e) \<and> port (snd e) \<le> rend r"

definition relay_ok :: "relay \<Rightarrow> bool" where
  "relay_ok r \<longleftrightarrow> targetPort r = ''22'' \<and> distinct (map fst (byID r)) \<and>
     distinct (map (port \<circ> snd) (byID r)) \<and> (\<forall>e \<in> set (byID r). entry_ok r e) \<and>
     (\<forall>l \<in> set (retired r). closed l \<and> listener_ok l)"

lemma target_of_guest: "targetPort r = ''22'' \<Longrightarrow> target_of r ip = Some t \<Longrightarrow> guest_target t"
proof -
  assume p: "targetPort r = ''22''" and t: "target_of r ip = Some t"
  from t obtain parsed b where b: "ParseIP ip = Some parsed" "To4 parsed = Some b"
    "IsPrivate4 b \<or> IsLoopback4 b" "t = JoinHostPort (dotted b) (targetPort r)"
    by (auto simp: target_of_def split: option.splits if_splits)
  from b(2) have "parsed = v4_prefix @ b"
    by (auto simp: To4_def split: if_splits) (metis append_take_drop_id)
  with b(1) have "ParseIP ip = Some (v4_prefix @ b)" by simp
  with b(3,4) p show ?thesis unfolding guest_target_def by auto
qed

lemma target_of_cong: "targetPort r' = targetPort r \<Longrightarrow> target_of r' ip = target_of r ip"
  unfolding target_of_def by (rule arg_cong) simp

lemma try_ports_Some:
  "try_ports listen used k ps = Some p \<Longrightarrow> p \<in> set ps \<and> p \<notin> used \<and> (\<exists>j. listen j p)"
  by (induction listen used k ps rule: try_ports.induct) (auto split: if_splits)

lemma candidates_range: "p \<in> set (candidates r preferred) \<longleftrightarrow> rstart r \<le> p \<and> p \<le> rend r"
  by (auto simp: candidates_def)

lemma set_delete: "set (AList.delete i xs) = {e \<in> set xs. fst e \<noteq> i}"
  by (auto simp: AList.delete_eq)

lemma distinct_map_delete: "distinct (map f xs) \<Longrightarrow> distinct (map f (AList.delete i xs))"
  by (auto simp: AList.delete_eq distinct_map inj_on_def)

lemma retire_ok: "relay_ok r \<Longrightarrow> map_of (byID r) i = Some l \<Longrightarrow> relay_ok (retire i l r)"
  by (auto simp: relay_ok_def retire_def set_delete distinct_map_delete entry_ok_def
      close_listener_def listener_ok_def dest: map_of_SomeD)

lemma open_listener_ok:
  assumes ok: "relay_ok r" and t: "guest_target t" and new: "map_of (byID r) i = None"
  shows "relay_ok (snd (open_listener listen i t preferred r))"
proof (cases "try_ports listen (set (map (port \<circ> snd) (byID r))) 0 (candidates r preferred)")
  case None
  with ok show ?thesis by (simp add: open_listener_def)
next
  case (Some p)
  from new have i: "i \<notin> fst ` set (byID r)" by (simp add: map_of_eq_None_iff)
  have eq: "snd (open_listener listen i t preferred r) =
      r\<lparr>byID := byID r @ [(i, \<lparr>port = p, target = t, closed = False, sessions = []\<rparr>)]\<rparr>"
    unfolding open_listener_def Some option.case by (simp add: update_new [OF i])
  from try_ports_Some [OF Some] have p: "rstart r \<le> p" "p \<le> rend r" "p \<notin> (port \<circ> snd) ` set (byID r)"
    by (simp_all add: candidates_range)
  show ?thesis
    unfolding eq using ok t i p by (auto simp: relay_ok_def entry_ok_def listener_ok_def)
qed

lemma map_of_delete_None: "map_of (AList.delete i xs) i = None"
  by (simp add: AList.delete_conv')

lemma ensure_ok: "relay_ok r \<Longrightarrow> relay_ok (the (snd (Ensure listen i ip preferred (Some r))))"
proof (cases "target_of r ip")
  case (Some t)
  assume ok: "relay_ok r"
  then have "targetPort r = ''22''" by (simp add: relay_ok_def)
  note t = target_of_guest [OF this Some]
  show ?thesis
  proof (cases "map_of (byID r) i")
    case None
    with open_listener_ok [OF ok t None] Some show ?thesis by (simp add: Ensure_def)
  next
    case l: (Some l)
    have "map_of (byID (retire i l r)) i = None" by (simp add: retire_def map_of_delete_None)
    from open_listener_ok [OF retire_ok [OF ok l] t this] ok Some l show ?thesis
      by (simp add: Ensure_def)
  qed
qed (simp add: Ensure_def)

lemma retain_ok: "relay_ok r \<Longrightarrow> relay_ok (the (Retain keep (Some r)))"
  by (auto simp: relay_ok_def Retain_def entry_ok_def close_listener_def listener_ok_def
      intro: distinct_map_filter)

lemma map_fst_update: "i \<in> fst ` set xs \<Longrightarrow> map fst (AList.update i v xs) = map fst xs"
  by (induction xs) auto

lemma map_port_update:
  "(i, l) \<in> set xs \<Longrightarrow> distinct (map fst xs) \<Longrightarrow> port l' = port l \<Longrightarrow>
   map (port \<circ> snd) (AList.update i l' xs) = map (port \<circ> snd) xs"
  by (induction xs) (auto simp: image_iff)

lemma set_update: "set (AList.update i v xs) \<subseteq> insert (i, v) (set xs)"
  by (induction xs) auto

lemma relay_step_ok: "relay_step r r' \<Longrightarrow> relay_ok r \<Longrightarrow> relay_ok r'"
proof (induction rule: relay_step.induct)
  case (ensure r listen i ip preferred)
  then show ?case by (rule ensure_ok)
next
  case (close r i)
  then show ?case by (auto simp: Close_def retire_ok split: option.split)
next
  case (retain r keep)
  then show ?case by (rule retain_ok)
next
  case (serving i l r l')
  from serving(3) have e: "entry_ok r (i, l)" and d: "distinct (map fst (byID r))"
    using serving(1) by (auto simp: relay_ok_def)
  note keeps = listener_step_keeps [OF serving(2)]
  from e keeps listener_step_ok [OF serving(2)] have e': "entry_ok r (i, l')"
    by (auto simp: entry_ok_def)
  have "i \<in> fst ` set (byID r)" using serving(1) by force
  with serving(3) d e' keeps map_port_update [OF serving(1) d, of l'] set_update [of i l' "byID r"]
  show ?case by (auto simp: relay_ok_def map_fst_update entry_ok_def)
next
  case (draining r ls l ls' l')
  then show ?case using listener_step_keeps [of l l'] listener_step_ok [of l l']
    by (auto simp: relay_ok_def entry_ok_def)
qed

lemma new_ok: "relay_ok (New h s e)"
  by (simp add: relay_ok_def New_def)

lemma reachable_ok: "reachable h s e r \<Longrightarrow> relay_ok r"
  by (induction rule: reachable.induct) (auto intro: relay_step_ok new_ok)

lemma range_kept: "relay_step r r' \<Longrightarrow> rstart r' = rstart r \<and> rend r' = rend r \<and> host r' = host r"
  by (induction rule: relay_step.induct)
    (auto simp: Ensure_def Close_def Retain_def retire_def open_listener_def split: option.split)

lemma reachable_range: "reachable h s e r \<Longrightarrow> rstart r = s \<and> rend r = e \<and> host r = h"
  by (induction rule: reachable.induct) (auto simp: New_def dest: range_kept)

lemma ensure_gives_listener':
  assumes "Ensure listen i ip preferred (Some r) = (Inr p, rl)"
  shows "\<exists>r' l t. rl = Some r' \<and> map_of (byID r') i = Some l \<and> port l = p \<and> target l = t \<and>
           target_of r ip = Some t \<and>
           (\<forall>j. j \<noteq> i \<longrightarrow> map_of (byID r') j = map_of (byID r) j) \<and>
           Ensure listen' i ip preferred' rl = (Inr p, rl)"
proof -
  from assms obtain t where t: "target_of r ip = Some t"
    by (auto simp: Ensure_def split: option.splits)
  have open_case: ?thesis
    if o: "map_prod id Some (open_listener listen i t preferred r0) = (Inr p, rl)"
      and r0: "targetPort r0 = targetPort r" "\<And>j. j \<noteq> i \<Longrightarrow> map_of (byID r0) j = map_of (byID r) j"
    for r0
  proof -
    let ?l = "\<lparr>port = p, target = t, closed = False, sessions = []\<rparr>"
    let ?r = "r0\<lparr>byID := AList.update i ?l (byID r0)\<rparr>"
    from o have rl: "rl = Some ?r" by (auto simp: open_listener_def split: option.splits)
    have m: "map_of (byID ?r) = (map_of (byID r0))(i \<mapsto> ?l)" by (simp add: update_conv')
    have "target_of ?r ip = Some t" using target_of_cong [of ?r r ip] r0(1) t by simp
    then have "Ensure listen' i ip preferred' rl = (Inr p, rl)"
      unfolding rl Ensure_def option.case m by simp
    with rl m r0(2) t show ?thesis
      by (intro exI [of _ ?r] exI [of _ ?l] exI [of _ t]) (simp add: update_conv')
  qed
  show ?thesis
  proof (cases "map_of (byID r) i")
    case None
    with assms t show ?thesis by (intro open_case [of r]) (simp_all add: Ensure_def)
  next
    case (Some l)
    show ?thesis
    proof (cases "target l = t")
      case True
      with Some t assms show ?thesis by (auto simp: Ensure_def)
    next
      case False
      with Some t assms show ?thesis
        by (intro open_case [of "retire i l r"]) (simp_all add: Ensure_def retire_def delete_conv')
    qed
  qed
qed

section \<open>Properties\<close>

text \<open>
  C31. The relay's invariant. In every state the relay can reach, whatever the operating system
  answers and however its goroutines are scheduled: each sandbox has at most one listener, no two
  listeners share a port, every port lies in the configured range, every listener forwards to port
  22 of a private or loopback address and holds at most eight sessions, and every listener that was
  taken out of the map is closed.
\<close>

theorem relay_invariant:
  assumes "reachable h s e r"
  shows "distinct (map fst (byID r)) \<and> distinct (map (port \<circ> snd) (byID r)) \<and>
         (\<forall>(i, l) \<in> set (byID r). s \<le> port l \<and> port l \<le> e \<and> guest_target (target l) \<and>
             length (sessions l) \<le> 8 \<and> \<not> closed l) \<and>
         (\<forall>l \<in> set (retired r). closed l)"
  using reachable_ok [OF assms] reachable_range [OF assms]
  by (auto simp: relay_ok_def entry_ok_def listener_ok_def maxSessionsPerSandbox_def)

text \<open>
  A listener taken out of the map is finished: once closed it admits no session, and no session
  of it gets a connection to the guest any more; the sessions it still has can only end.
\<close>

theorem closed_listener_drains:
  assumes "listener_step\<^sup>*\<^sup>* l l'" and "closed l"
  shows "closed l' \<and> set (sessions l') \<subseteq> set (sessions l) \<and>
         connected_sessions l' \<subseteq> connected_sessions l"
  using assms
proof (induction rule: rtranclp_induct)
  case (step x y)
  with closed_step [OF step(2)] listener_step_keeps [OF step(2)] show ?case by blast
qed simp

text \<open>
  \<^verbatim>\<open>Ensure\<close> gives the sandbox a listener on the port it returns, for its current address, and
  leaves the listeners of the other sandboxes alone; a second call with the same address returns
  the same port and changes nothing.
\<close>

theorem ensure_gives_listener:
  assumes "Ensure listen i ip preferred (Some r) = (Inr p, rl)"
  shows "\<exists>r' l t. rl = Some r' \<and> map_of (byID r') i = Some l \<and> port l = p \<and> target l = t \<and>
           target_of r ip = Some t \<and>
           (\<forall>j. j \<noteq> i \<longrightarrow> map_of (byID r') j = map_of (byID r) j) \<and>
           Ensure listen' i ip preferred' rl = (Inr p, rl)"
  by (rule ensure_gives_listener' [OF assms])

text \<open>
  The remembered port is kept. For a sandbox without a listener, a preferred port in the range
  that no other listener uses is the first one tried, so a restarted relay that may listen on
  it returns it.
\<close>

theorem ensure_keeps_preferred_port:
  assumes "target_of r ip = Some t" and "map_of (byID r) i = None"
    and "rstart r \<le> preferred" and "preferred \<le> rend r"
    and "preferred \<notin> set (map (port \<circ> snd) (byID r))" and "listen 0 preferred"
  shows "fst (Ensure listen i ip preferred (Some r)) = Inr preferred"
  using assms by (simp add: Ensure_def open_listener_def candidates_def comp_def)

lemma try_ports_None:
  "try_ports listen used k ps = None \<Longrightarrow> p \<in> set ps \<Longrightarrow> p \<notin> used \<Longrightarrow> \<exists>j. \<not> listen j p"
  by (induction listen used k ps rule: try_ports.induct) (auto split: if_splits)

text \<open>
  Exhaustion is real. For an acceptable address and a sandbox without a listener, \<^verbatim>\<open>Ensure\<close> fails
  only when the operating system refused every port of the range that no other listener uses, and
  then nothing changes.
\<close>

theorem ensure_exhausted:
  assumes "target_of r ip = Some t" and "map_of (byID r) i = None"
    and "Ensure listen i ip preferred (Some r) = (Inl e, rl)"
  shows "rl = Some r \<and> (\<forall>p. rstart r \<le> p \<and> p \<le> rend r \<longrightarrow>
           p \<in> set (map (port \<circ> snd) (byID r)) \<or> (\<exists>k. \<not> listen k p))"
proof -
  from assms have none: "try_ports listen (set (map (port \<circ> snd) (byID r))) 0 (candidates r preferred) = None"
    and "rl = Some r"
    by (auto simp: Ensure_def open_listener_def split: option.splits)
  then show ?thesis
    using try_ports_None [OF none] candidates_range [of _ r preferred] by blast
qed

text \<open>
  \<^verbatim>\<open>Retain\<close> leaves exactly the listeners whose sandbox is to be kept at its current address, as
  they are, and closes all others.
\<close>

theorem retain_keeps_exactly:
  assumes "reachable h s e r"
  shows "\<exists>r'. Retain keep (Some r) = Some r' \<and>
     (\<forall>i l. map_of (byID r') i = Some l \<longleftrightarrow>
        map_of (byID r) i = Some l \<and>
        (\<exists>ip. map_of keep i = Some ip \<and> target l = JoinHostPort ip (targetPort r))) \<and>
     (\<forall>i l. map_of (byID r) i = Some l \<and> map_of (byID r') i = None \<longrightarrow> close_listener l \<in> set (retired r'))"
proof -
  have d: "distinct (map fst (byID r))" using reachable_ok [OF assms] by (simp add: relay_ok_def)
  let ?xs = "filter (\<lambda>(i, l). kept r keep i l) (byID r)"
  have d': "distinct (map fst ?xs)" using d by (auto simp: distinct_map inj_on_def)
  have m: "map_of ?xs i = Some l \<longleftrightarrow> map_of (byID r) i = Some l \<and> kept r keep i l" for i l
    using d d' by (simp add: map_of_eq_Some_iff)
  have n: "map_of (byID r) i = Some l \<Longrightarrow> map_of ?xs i = None \<Longrightarrow> (i, l) \<in> set (byID r) \<and> \<not> kept r keep i l"
    for i l using m [of i l] by (auto dest: map_of_SomeD)
  let ?ys = "filter (\<lambda>(i, l). \<not> kept r keep i l) (byID r)"
  have r: "Retain keep (Some r) =
      Some (r\<lparr>byID := ?xs, retired := map (close_listener \<circ> snd) ?ys @ retired r\<rparr>)"
    by (simp add: Retain_def)
  have k: "kept r keep i l \<longleftrightarrow> (\<exists>ip. map_of keep i = Some ip \<and> target l = JoinHostPort ip (targetPort r))"
    for i l by (simp add: kept_def split: option.split)
  have m': "map_of ?xs i = Some l \<longleftrightarrow> map_of (byID r) i = Some l \<and>
      (\<exists>ip. map_of keep i = Some ip \<and> target l = JoinHostPort ip (targetPort r))" for i l
    using m [of i l] k [of i l] by blast
  have c: "close_listener l \<in> set (map (close_listener \<circ> snd) ?ys @ retired r)"
    if "map_of (byID r) i = Some l" "map_of ?xs i = None" for i l
    using n [OF that] by force
  show ?thesis
    unfolding r
  proof (intro exI conjI allI)
    fix i l
    let ?r' = "r\<lparr>byID := ?xs, retired := map (close_listener \<circ> snd) ?ys @ retired r\<rparr>"
    show "Some ?r' = Some ?r'" ..
    show "map_of (byID ?r') i = Some l \<longleftrightarrow> map_of (byID r) i = Some l \<and>
        (\<exists>ip. map_of keep i = Some ip \<and> target l = JoinHostPort ip (targetPort r))"
      using m' by simp
    show "map_of (byID r) i = Some l \<and> map_of (byID ?r') i = None \<longrightarrow> close_listener l \<in> set (retired ?r')"
      using c [of i l] by simp
  qed
qed

text \<open>
  The session count. \<^verbatim>\<open>Connections\<close> never exceeds eight, and it counts only sessions that have
  reached the guest and started at least thirty seconds ago.
\<close>

theorem connections_count:
  assumes "reachable h s e r"
  shows "Connections now i (Some r) \<le> 8 \<and>
     (Connections now i (Some r) \<noteq> 0 \<longrightarrow>
        (\<exists>l k ses. map_of (byID r) i = Some l \<and> (k, ses) \<in> set (sessions l) \<and> upstream ses \<and>
                   start ses + 30000000000 \<le> now))"
proof (cases "map_of (byID r) i")
  case (Some l)
  let ?f = "filter (\<lambda>(_, s). upstream s \<and> countAfter \<le> now - start s) (sessions l)"
  have c: "Connections now i (Some r) = length ?f" by (simp add: Connections_def Some)
  have "length (sessions l) \<le> 8"
    using reachable_ok [OF assms] map_of_SomeD [OF Some]
    by (auto simp: relay_ok_def entry_ok_def listener_ok_def maxSessionsPerSandbox_def)
  then have "length ?f \<le> 8" using length_filter_le [of _ "sessions l"] le_trans by blast
  moreover have "\<exists>k ses. (k, ses) \<in> set (sessions l) \<and> upstream ses \<and> start ses + 30000000000 \<le> now"
    if "length ?f \<noteq> 0"
  proof -
    from that obtain k ses where "(k, ses) \<in> set ?f" by (metis length_0_conv list.set_sel(1) surj_pair)
    then have "(k, ses) \<in> set (sessions l) \<and> upstream ses \<and> start ses + 30000000000 \<le> now"
      by (auto simp: countAfter_def)
    then show ?thesis by blast
  qed
  ultimately show ?thesis unfolding c using Some by blast
qed (simp add: Connections_def)

section \<open>Examples\<close>

definition demo_relay :: relay where
  "demo_relay = the (snd (Ensure (\<lambda>_ _. True) ''a1'' ''10.0.0.5'' 0 (Some (New ''ssh.example'' 2000 2001))))"

lemma demo_relay_reachable: "reachable ''ssh.example'' 2000 2001 demo_relay"
  unfolding demo_relay_def by (rule reachable.step [OF reachable.init relay_step.ensure])

lemma demo_ip: "ParseIP ''10.0.0.5'' = Some (v4_prefix @ [10, 0, 0, 5])"
  by code_simp

lemma demo_target: "target_of r ''10.0.0.5'' = Some (JoinHostPort (dotted [10, 0, 0, 5]) (targetPort r))"
  by (simp add: target_of_def demo_ip IsPrivate4_def)

lemma demo_relay_state:
  "byID demo_relay = [(''a1'', \<lparr>port = 2000, target = ''10.0.0.5:22'', closed = False, sessions = []\<rparr>)]"
  by code_simp

theorem relay_invariant_witness: "distinct (map (port \<circ> snd) (byID demo_relay))"
  using relay_invariant [OF demo_relay_reachable] by blast

theorem closed_listener_drains_witness:
  "closed (snd (accept 0 0 \<lparr>port = 2000, target = [], closed = True, sessions = []\<rparr>))"
proof -
  let ?l = "\<lparr>port = 2000, target = [], closed = True, sessions = []\<rparr>"
  have "listener_step ?l (snd (accept 0 0 ?l))" by (rule listener_step.accepted) simp
  from closed_listener_drains [OF r_into_rtranclp [of listener_step, OF this]] show ?thesis by simp
qed

theorem ensure_gives_listener_witness:
  "\<exists>r' l. snd (Ensure (\<lambda>_ _. True) ''a1'' ''10.0.0.5'' 0 (Some (New ''h'' 2000 2001))) = Some r' \<and>
     map_of (byID r') ''a1'' = Some l \<and> port l = 2000"
proof -
  have "fst (Ensure (\<lambda>_ _. True) ''a1'' ''10.0.0.5'' 0 (Some (New ''h'' 2000 2001))) = Inr 2000"
    by code_simp
  then have "Ensure (\<lambda>_ _. True) ''a1'' ''10.0.0.5'' 0 (Some (New ''h'' 2000 2001)) =
      (Inr 2000, snd (Ensure (\<lambda>_ _. True) ''a1'' ''10.0.0.5'' 0 (Some (New ''h'' 2000 2001))))"
    by (metis prod.collapse)
  from ensure_gives_listener [OF this] show ?thesis by blast
qed

theorem ensure_keeps_preferred_port_witness:
  "fst (Ensure (\<lambda>_ _. True) ''a2'' ''10.0.0.5'' 2001 (Some demo_relay)) = Inr 2001"
  by (rule ensure_keeps_preferred_port [OF demo_target])
    (simp_all add: demo_relay_state, simp_all add: demo_relay_def Ensure_def demo_target open_listener_def New_def
      split: option.split)

text \<open>A relay with one port, which is taken.\<close>

definition full_relay :: relay where
  "full_relay = the (snd (Ensure (\<lambda>_ _. True) ''a1'' ''10.0.0.5'' 0 (Some (New ''ssh.example'' 2000 2000))))"

theorem ensure_exhausted_witness:
  "2000 \<in> set (map (port \<circ> snd) (byID full_relay))"
proof -
  have e: "Ensure (\<lambda>_ _. True) ''a2'' ''10.0.0.5'' 0 (Some full_relay) =
      (Inl (Foreign ''ssh relay: no free port in range''), Some full_relay)"
    and n: "map_of (byID full_relay) ''a2'' = None"
    and r: "rstart full_relay = 2000" "rend full_relay = 2000"
    by code_simp+
  from ensure_exhausted [OF demo_target n e] r show ?thesis by simp
qed

theorem retain_keeps_exactly_witness:
  "\<exists>r'. Retain [] (Some demo_relay) = Some r' \<and> map_of (byID r') ''a1'' = None"
proof -
  from retain_keeps_exactly [OF demo_relay_reachable, of "[]"] obtain r' where
    r': "Retain [] (Some demo_relay) = Some r'" "\<And>l. map_of (byID r') ''a1'' \<noteq> Some l"
    by (metis map_of.simps(1) option.distinct(1))
  then show ?thesis by (cases "map_of (byID r') ''a1''") auto
qed

theorem connections_count_witness: "Connections 0 ''a1'' (Some demo_relay) \<le> 8"
  using connections_count [OF demo_relay_reachable] by blast

end
