(* ===== verification/Service_Invariant.thy ===== *)
theory Service_Invariant
  imports Service Store_Client Relay_Props
begin

text \<open>
  Every operation of the service keeps the invariant of the inventory (\<open>good\<close> of theory
  \<open>Store_Invariant\<close>), in every environment that keeps it: whatever the other instances do between
  its requests, whichever requests fail, and whatever the VM manager, the host and the backend
  answer. The locale \<open>service\<close> is the service on a server that behaves as documented.
\<close>

definition lawful_rec :: "(string \<Rightarrow> string) \<Rightarrow> sandbox \<Rightarrow> bool" where
  "lawful_rec own sb \<longleftrightarrow> sid (ID sb) \<and> own (ID sb) = UserID sb"

lemma lawful_rec_update [simp]:
  "lawful_rec own (sb\<lparr>SbState := st\<rparr>) = lawful_rec own sb"
  "lawful_rec own (sb\<lparr>LastActivity := t\<rparr>) = lawful_rec own sb"
  "lawful_rec own (sb\<lparr>DeviceID := d\<rparr>) = lawful_rec own sb"
  "lawful_rec own (sb\<lparr>Error := e\<rparr>) = lawful_rec own sb"
  "lawful_rec own (sb\<lparr>SSHConnections := n\<rparr>) = lawful_rec own sb"
  "lawful_rec own (sb\<lparr>DiskMiB := m\<rparr>) = lawful_rec own sb"
  "lawful_rec own (sb\<lparr>IPAddress := ip\<rparr>) = lawful_rec own sb"
  by (simp_all add: lawful_rec_def)

lemma wp_for_each:
  assumes "I w" and "\<And>x w. x \<in> set xs \<Longrightarrow> I w \<Longrightarrow> wp (f x) (\<lambda>_. I) w"
  shows "wp (for_each xs f) (\<lambda>_. I) w"
  using assms
proof (induction xs arbitrary: w)
  case (Cons x xs)
  have "wp (f x) (\<lambda>_. I) w" using Cons.prems by simp
  then show ?case
    unfolding for_each.simps by (rule wp_bindI) (use Cons in auto)
qed (simp add: wp_return)

lemma wp_for_each_err:
  assumes "I w" and "\<And>x w. x \<in> set xs \<Longrightarrow> I w \<Longrightarrow> wp (f x) (\<lambda>_. I) w"
  shows "wp (for_each_err xs f) (\<lambda>_. I) w"
  using assms
proof (induction xs arbitrary: w)
  case (Cons x xs)
  have "wp (f x) (\<lambda>_. I) w" using Cons.prems by simp
  then show ?case
    unfolding for_each_err.simps
    by (rule wp_bindI) (use Cons in \<open>auto simp: wp_return split: option.split\<close>)
qed (simp add: wp_return)

text \<open>The relay's invariant, for a relay whose port range is one of \<^verbatim>\<open>int\<close> values.\<close>

definition ssh_ok :: "relay option \<Rightarrow> bool" where
  "ssh_ok rl \<longleftrightarrow> (case rl of None \<Rightarrow> True
     | Some r \<Rightarrow> relay_ok r \<and> in_int64 (rstart r) \<and> in_int64 (rend r))"

lemma ssh_ok_step: "relay_step r r' \<Longrightarrow> ssh_ok (Some r) \<Longrightarrow> ssh_ok (Some r')"
  using relay_step_ok [of r r'] range_kept [of r r'] by (simp add: ssh_ok_def)

lemma ssh_ok_Close: "ssh_ok rl \<Longrightarrow> ssh_ok (Close i rl)"
  using ssh_ok_step [OF relay_step.close [of _ i]] by (cases rl) (auto simp: Close_def split: option.splits)

lemma ssh_ok_Retain: "ssh_ok rl \<Longrightarrow> ssh_ok (Retain keep rl)"
  using ssh_ok_step [OF relay_step.retain [of _ keep]] by (cases rl) (simp_all add: Retain_def)

lemma ssh_ok_Ensure: "ssh_ok rl \<Longrightarrow> ssh_ok (snd (Ensure l i ip p rl))"
  using ssh_ok_step [OF relay_step.ensure [of _ l i ip p]]
  by (cases rl) (auto simp: Ensure_def open_listener_def split: option.splits)

lemma Ensure_int64:
  assumes "ssh_ok rl" and "fst (Ensure l i ip p rl) = Inr q"
  shows "in_int64 q"
proof -
  from assms(2) obtain r where r: "rl = Some r" by (cases rl) (auto simp: Ensure_def)
  have "Ensure l i ip p (Some r) = (Inr q, snd (Ensure l i ip p (Some r)))"
    using assms(2) r by (metis prod.collapse)
  from ensure_gives_listener' [OF this] obtain r' lst where
    "snd (Ensure l i ip p (Some r)) = Some r'" "map_of (byID r') i = Some lst" "port lst = q" by blast
  with ssh_ok_Ensure [OF assms(1), of l i ip p] r have "rstart r' \<le> q \<and> q \<le> rend r'"
      "in_int64 (rstart r')" "in_int64 (rend r')"
    by (auto simp: ssh_ok_def relay_ok_def entry_ok_def dest!: map_of_SomeD)
  then show ?thesis by (auto simp: in_int64_def)
qed

definition good_world :: "(string \<Rightarrow> string) \<Rightarrow> ('r \<Rightarrow> keyspace) \<Rightarrow> ('r, 'v, 'h) world \<Rightarrow> bool" where
  "good_world own ks w \<longleftrightarrow> good_conn own ks (rdb w) \<and> ssh_ok (ssh w)"

lemma good_world_upd [simp]:
  "good_world own ks w \<Longrightarrow> good_conn own ks c \<Longrightarrow> good_world own ks (w\<lparr>rdb := c\<rparr>)" "good_world own ks (w\<lparr>vms := v\<rparr>) = good_world own ks w"
  "good_world own ks (w\<lparr>fs := h\<rparr>) = good_world own ks w" "good_world own ks w \<Longrightarrow> ssh_ok r \<Longrightarrow> good_world own ks (w\<lparr>ssh := r\<rparr>)"
  "good_world own ks (w\<lparr>sshPrep := p\<rparr>) = good_world own ks w" "good_world own ks (w\<lparr>asked := n\<rparr>) = good_world own ks w"
  "good_world own ks (w\<lparr>pendingCreates := k\<rparr>) = good_world own ks w" "good_world own ks (w\<lparr>pendingMiB := m\<rparr>) = good_world own ks w"
  "good_world own ks (w\<lparr>capacityRejected := x\<rparr>) = good_world own ks w"
  by (simp_all add: good_world_def)

lemma good_worldD [simp]: "good_world own ks w \<Longrightarrow> good_conn own ks (rdb w)" "good_world own ks w \<Longrightarrow> ssh_ok (ssh w)"
  by (simp_all add: good_world_def)

text \<open>
  A property \<open>J\<close> of the world that the methods of the store and the parts of the world keep. What
  the service's own operations do to it follows once and for all. \<open>kept_create\<close> adds the methods
  that only a create uses.
\<close>

locale kept =
  fixes E :: "('r, 'v, 'h) surroundings"
    and own :: "string \<Rightarrow> string"
    and J :: "('r, 'v, 'h) world \<Rightarrow> bool"
  assumes Get_I: "J w \<Longrightarrow> wp (on_store (Get (rds E) cx i))
      (\<lambda>g w. J w \<and> (\<forall>sb. g = Inr (Some sb) \<longrightarrow> lawful_rec own sb \<and> ID sb = i)) w"
    and Put_I: "J w \<Longrightarrow> lawful_rec own sb \<Longrightarrow> wp (on_store (Put (rds E) cx sb)) (\<lambda>_. J) w"
    and Delete_I: "J w \<Longrightarrow> wp (on_store (Delete (rds E) cx i)) (\<lambda>_. J) w"
    and Release_I: "J w \<Longrightarrow> wp (on_store (ReleaseUserSlot (rds E) cx u i)) (\<lambda>_. J) w"
    and UserSlot_I: "J w \<Longrightarrow> wp (on_store (UserSlot (rds E) cx u)) (\<lambda>_. J) w"
    and List_I: "J w \<Longrightarrow> wp (on_store (ListSandboxes (rds E) cx u))
      (\<lambda>g w. J w \<and> (\<forall>sbs. g = Inr sbs \<longrightarrow> (\<forall>sb \<in> set sbs. lawful_rec own sb))) w"
    and Purge_I: "J w \<Longrightarrow> wp (on_store (PurgeUserIndexes (rds E) cx u)) (\<lambda>_. J) w"
    and TotalCreated_I: "J w \<Longrightarrow> wp (on_store (TotalCreated (rds E) cx)) (\<lambda>_. J) w"
    and SSHPort_I: "J w \<Longrightarrow> wp (on_store (SSHPort (rds E) cx i)) (\<lambda>_. J) w"
    and SetSSHPort_I: "J w \<Longrightarrow> in_int64 p \<Longrightarrow> wp (on_store (SetSSHPort (rds E) cx i p)) (\<lambda>_. J) w"
    and J_ssh_ok: "J w \<Longrightarrow> ssh_ok (ssh w)"
    and J_upd: "J (w\<lparr>vms := v\<rparr>) = J w" "J (w\<lparr>fs := h\<rparr>) = J w" "J (w\<lparr>sshPrep := ids\<rparr>) = J w"
      "J (w\<lparr>asked := n\<rparr>) = J w" "J (w\<lparr>pendingCreates := k\<rparr>) = J w"
      "J (w\<lparr>pendingMiB := m\<rparr>) = J w" "J (w\<lparr>capacityRejected := m\<rparr>) = J w"
    and J_ssh: "J w \<Longrightarrow> ssh_ok rl \<Longrightarrow> J (w\<lparr>ssh := rl\<rparr>)"
begin

lemmas J_simps [simp] = J_upd J_ssh J_ssh_ok

lemma ListScan_I: "J w \<Longrightarrow> wp (on_store (ListByUserScan (rds E) cx u)) (\<lambda>_. J) w"
  using List_I [of w cx "[]"] unfolding wp_on_store ListByUserScan_def wp_bind wp_return
  by (rule wp_mono) auto

text \<open>The parts of the world other than the store.\<close>

lemma other_I:
  "J w \<Longrightarrow> wp (on_vms f) (\<lambda>_. J) w" "J w \<Longrightarrow> wp (on_fs g) (\<lambda>_. J) w"
  "J w \<Longrightarrow> wp (ask h) (\<lambda>_. J) w" "J w \<Longrightarrow> wp (close_ssh i) (\<lambda>_. J) w"
  "J w \<Longrightarrow> wp (forget_prep i) (\<lambda>_. J) w"
  "J w \<Longrightarrow> wp (connections E i) (\<lambda>_. J) w"
  "J w \<Longrightarrow> wp (release b) (\<lambda>_. J) w" "J w \<Longrightarrow> wp (gets e) (\<lambda>_. J) w"
  by (simp_all add: wp_on_vms wp_ask wp_close_ssh wp_forget_prep connections_def wp_bind
      wp_gets wp_return release_def wp_modify wp_on_fs ssh_ok_Close) (simp add: wp_def)

text \<open>The rules by which an invariant goes through a program.\<close>

lemmas binds = wp_bindI [OF Get_I] wp_bindI [OF Put_I] wp_bindI [OF Delete_I]
  wp_bindI [OF Release_I] wp_bindI [OF UserSlot_I] wp_bindI [OF List_I]
  wp_bindI [OF ListScan_I] wp_bindI [OF Purge_I]
  wp_bindI [OF TotalCreated_I] wp_bindI [OF SSHPort_I] wp_bindI [OF SetSSHPort_I]
  wp_bindI [OF other_I(1)] wp_bindI [OF other_I(2)] wp_bindI [OF other_I(3)] wp_bindI [OF other_I(4)]
  wp_bindI [OF other_I(5)] wp_bindI [OF other_I(6)] wp_bindI [OF other_I(7)] wp_bindI [OF other_I(8)]

lemma SvcGet_I:
  assumes "J w"
  shows "wp (SvcGet E who i) (\<lambda>g w. J w \<and>
           (\<forall>sb. g = Inr sb \<longrightarrow> lawful_rec own sb \<and> ID sb = i \<and> (IsAdmin who \<or> UserID sb = IdUserID who))) w"
  unfolding SvcGet_def using assms
  by (auto intro!: binds simp: wp_return split: sum.split option.split)

lemma AttachDevice_I: "J w \<Longrightarrow> wp (AttachDevice E who i d) (\<lambda>_. J) w"
  unfolding AttachDevice_def
  by (auto intro!: binds Put_I simp: wp_return split: sum.split option.split)

lemma staleDead_I: "J w \<Longrightarrow> wp (staleDead E sb) (\<lambda>_. J) w"
  unfolding staleDead_def
  by (auto intro!: binds simp: wp_return wp_bind wp_ask wp_on_vms)

lemma show_all_I: "J w \<Longrightarrow> wp (show_all E sbs) (\<lambda>_. J) w"
proof (induction sbs arbitrary: w)
  case (Cons sb sbs)
  show ?case
    unfolding show_all.simps Let_def
    by (auto intro!: wp_bindI [OF other_I(6)] wp_bindI [OF staleDead_I] wp_bindI [OF Cons.IH] Cons.prems
        simp: wp_return)
qed (simp add: wp_return)

lemma SvcList_I: "J w \<Longrightarrow> wp (SvcList E who) (\<lambda>_. J) w"
  unfolding SvcList_def
  by (auto intro!: binds wp_bindI [OF show_all_I] simp: wp_return split: sum.split)

lemma SvcExec_I: "J w \<Longrightarrow> wp (SvcExec E who i argv) (\<lambda>_. J) w"
  unfolding SvcExec_def
  by (auto intro!: wp_bindI [OF SvcGet_I] other_I simp: wp_return split: sum.split)

lemma finishTeardown_I: "J w \<Longrightarrow> wp (finishTeardown E i) (\<lambda>_. J) w"
  unfolding finishTeardown_def
  by (auto intro!: binds Delete_I simp: wp_return split: option.split)

lemma SvcDelete_I: "J w \<Longrightarrow> wp (SvcDelete E who i) (\<lambda>_. J) w"
  unfolding SvcDelete_def
  by (auto intro!: wp_bindI [OF SvcGet_I] binds finishTeardown_I simp: wp_return split: sum.split option.split)

lemma DeleteUserData_I: "J w \<Longrightarrow> wp (DeleteUserData E who u) (\<lambda>_. J) w"
  unfolding DeleteUserData_def
  by (auto intro!: binds wp_bindI [OF wp_for_each_err [where I = J]] wp_bindI [OF SvcDelete_I] other_I
      simp: wp_return split: sum.split option.split)

lemma teardownDead_I: "J w \<Longrightarrow> lawful_rec own sb \<Longrightarrow> wp (teardownDead E sb) (\<lambda>_. J) w"
  unfolding teardownDead_def
  by (auto intro!: binds wp_bindI [OF finishTeardown_I] simp: wp_return)

lemma still_there_I:
  "J w \<Longrightarrow> wp (case d of None \<Rightarrow> ret False
     | Some _ \<Rightarrow> do { l \<leftarrow> on_vms (vm_is_live (vmm E) i); ret (l \<noteq> LiveNo) }) (\<lambda>_. J) w"
  by (auto simp: wp_return wp_bind wp_on_vms split: option.split)

lemma reconcileUserSlot_I: "J w \<Longrightarrow> wp (reconcileUserSlot E u) (\<lambda>_. J) w"
  unfolding reconcileUserSlot_def
  by (auto intro!: binds wp_bindI [OF staleDead_I] wp_bindI [OF SvcDelete_I] teardownDead_I
      wp_bindI [OF still_there_I] simp: wp_return split: sum.split option.split)

lemma reconcile_one_I: "J w \<Longrightarrow> lawful_rec own sb \<Longrightarrow> wp (reconcile_one E sb) (\<lambda>_. J) w"
  unfolding reconcile_one_def
  by (auto intro!: binds wp_bindI [OF staleDead_I] wp_bindI [OF SvcDelete_I] teardownDead_I
      simp: wp_return split: sum.split)

lemma closeSSHUnlessRunning_I: "J w \<Longrightarrow> wp (closeSSHUnlessRunning E i) (\<lambda>_. J) w"
  unfolding closeSSHUnlessRunning_def
  by (auto intro!: binds simp: wp_return split: sum.split option.split)

lemma ensure_listener_I:
  "J w \<Longrightarrow> wp (ensure_listener E i ip p) (\<lambda>g w. J w \<and> (\<forall>q. g = Inr q \<longrightarrow> in_int64 q)) w"
  unfolding ensure_listener_def
  by (auto simp: wp_bind wp_ask wp_on_ssh ssh_ok_Ensure dest: Ensure_int64 [rotated])

lemma reopen_ssh_I: "J w \<Longrightarrow> wp (reopen_ssh E x) (\<lambda>_. J) w"
  unfolding reopen_ssh_def
  by (cases x)
    (auto intro!: binds wp_bindI [OF ensure_listener_I] wp_bindI [OF closeSSHUnlessRunning_I] other_I
      simp: wp_return wp_bind [of "if _ then _ else _"] wp_if split: sum.split)

lemma Retain_I: "J w \<Longrightarrow> wp (on_ssh (\<lambda>r. ((), Retain keep r))) (\<lambda>_. J) w"
  by (simp add: wp_on_ssh ssh_ok_Retain)

lemma reconcileSSH_I: "J w \<Longrightarrow> wp (reconcileSSH E) (\<lambda>_. J) w"
  unfolding reconcileSSH_def Let_def
  by (auto intro!: binds wp_bindI [OF Retain_I] wp_for_each [where I = J] reopen_ssh_I
      simp: wp_return split: sum.split)

lemma Reconcile_I: "J w \<Longrightarrow> wp (Reconcile E) (\<lambda>_. J) w"
  unfolding Reconcile_def
  by (auto intro!: binds wp_bindI [OF wp_for_each [where I = J]] reconcile_one_I wp_bindI [OF reconcileSSH_I]
      simp: wp_return split: sum.split)

lemma reconcile_tick_I: "J w \<Longrightarrow> wp (reconcile_tick E) (\<lambda>_. J) w"
  unfolding reconcile_tick_def
  by (auto intro!: binds wp_bindI [OF Reconcile_I] simp: wp_return)

lemma ReconcileLoop_I: "J w \<Longrightarrow> wp (ReconcileLoop E n) (\<lambda>_. J) w"
  by (induction n arbitrary: w) (auto intro!: wp_bindI [OF reconcile_tick_I] simp: wp_return)

lemma failCreate_I: "J w \<Longrightarrow> lawful_rec own sb \<Longrightarrow> wp (failCreate E sb e) (\<lambda>_. J) w"
  unfolding failCreate_def by (auto intro!: binds simp: wp_return)

lemma shrink_first_I:
  "J w \<Longrightarrow> wp (if b then on_fs m else ret None) (\<lambda>_. J) w"
  by (simp add: wp_return other_I)

text \<open>The ids the random source makes for a user are that user's.\<close>

abbreviation mints_for :: "string \<Rightarrow> bool" where
  "mints_for u \<equiv> \<forall>n. random16 E n \<noteq> [] \<and> own (hex_encode (random16 E n)) = u"

lemma new_sandbox_I:
  assumes "J w" and "mints_for (IdUserID who)"
  shows "wp (new_sandbox E who t sz res) (\<lambda>sb w. J w \<and> lawful_rec own sb \<and>
           SbState sb = StateCreating \<and> UserID sb = IdUserID who) w"
proof -
  have "random16 E n \<noteq> [] \<Longrightarrow> sid (hex_encode (random16 E n))" for n
    using hex_encode_chars [of "random16 E n"] by (cases "random16 E n") (simp_all add: sid_def)
  with assms show ?thesis
    by (simp add: new_sandbox_def newID_def wp_bind wp_ask wp_return lawful_rec_def)
qed

lemma memAvailableMiB_I: "J w \<Longrightarrow> wp (memAvailableMiB E) (\<lambda>_. J) w"
  unfolding memAvailableMiB_def by (auto intro!: binds simp: wp_return)

lemma admit_I: "J w \<Longrightarrow> wp (admit E m) (\<lambda>_. J) w"
  unfolding admit_def Let_def
  by (auto intro!: binds wp_bindI [OF memAvailableMiB_I] simp: wp_return wp_bind [of "modify _"] wp_modify
      split: sum.split)

lemma diskUsagePercent_I: "J w \<Longrightarrow> wp (diskUsagePercent E) (\<lambda>_. J) w"
  unfolding diskUsagePercent_def by (auto intro!: binds simp: wp_return)

lemma mark_prep_I: "J w \<Longrightarrow> wp (modify (\<lambda>w. w\<lparr>sshPrep := f w\<rparr>)) (\<lambda>_. J) w"
  by (simp add: wp_modify)

lemma remember_I:
  "J w \<Longrightarrow> in_int64 p \<Longrightarrow>
   wp (if b then on_store (SetSSHPort (rds E) Caller i p) else ret None) (\<lambda>_. J) w"
  by (simp add: wp_return SetSSHPort_I)

lemma PrepareSSH_I: "J w \<Longrightarrow> wp (PrepareSSH E who i) (\<lambda>_. J) w"
  unfolding PrepareSSH_def Let_def
  by (auto intro!: binds wp_bindI [OF mark_prep_I] wp_bindI [OF ensure_listener_I] wp_bindI [OF remember_I]
      wp_bindI [OF closeSSHUnlessRunning_I] simp: wp_return split: sum.split option.split)

lemma Stats_I: "J w \<Longrightarrow> wp (Stats E) (\<lambda>_. J) w"
  unfolding Stats_def
  by (auto intro!: binds wp_bindI [OF memAvailableMiB_I] simp: wp_return split: sum.split)

end

locale kept_create = kept +
  assumes Reserve_I: "J w \<Longrightarrow> lawful_rec own sb \<Longrightarrow> SbState sb = StateCreating \<Longrightarrow>
      wp (on_store (ReserveUserSlot (rds E) cx sb)) (\<lambda>_. J) w"
    and PutRunning_I: "J w \<Longrightarrow> lawful_rec own sb \<Longrightarrow> SbState sb = StateRunning \<Longrightarrow>
      wp (on_store (PutRunning (rds E) cx sb)) (\<lambda>_. J) w"
    and IncCreated_I: "J w \<Longrightarrow> wp (on_store (IncCreated (rds E) cx)) (\<lambda>_. J) w"
begin

lemmas create_binds = wp_bindI [OF Reserve_I] wp_bindI [OF PutRunning_I] wp_bindI [OF IncCreated_I]

lemma provision_I:
  "J w \<Longrightarrow> lawful_rec own sb \<Longrightarrow> wp (provision E sb) (\<lambda>_. J) w"
  unfolding provision_def Let_def
  by (auto intro!: binds create_binds wp_bindI [OF shrink_first_I] wp_bindI [OF failCreate_I]
      wp_bindI [OF finishTeardown_I] simp: wp_return split: sum.split option.split)

lemma create_admitted_I:
  "J w \<Longrightarrow> mints_for (IdUserID who) \<Longrightarrow> wp (create_admitted E who t sz res) (\<lambda>_. J) w"
  unfolding create_admitted_def
  by (auto intro!: wp_bindI [OF new_sandbox_I] binds create_binds provision_I wp_bindI [OF reconcileUserSlot_I]
      simp: wp_return split: sum.split bool.split)

lemma Create_I:
  "J w \<Longrightarrow> mints_for (IdUserID who) \<Longrightarrow> wp (Create E who t sz res) (\<lambda>_. J) w"
  unfolding Create_def Let_def
  by (auto intro!: wp_bindI [OF diskUsagePercent_I] wp_bindI [OF admit_I] wp_bindI [OF create_admitted_I] binds
      simp: wp_return wp_bind [of "modify _"] wp_modify split: sum.split)

end

text \<open>The operations of the service, as the callers of the package see them.\<close>

datatype svc_op =
  OpCreate identity string string resources | OpGet identity string | OpAttach identity string string
| OpList identity | OpExec identity string "string list" | OpDeleteUserData identity string
| OpDelete identity string | OpReconcile | OpTick | OpPrepareSSH identity string | OpStats

fun perform_op :: "('r, 'v, 'h) surroundings \<Rightarrow> svc_op \<Rightarrow> ('r, 'v, 'h, unit) svc" where
  "perform_op E (OpCreate who t sz res) = do { _ \<leftarrow> Create E who t sz res; ret () }"
| "perform_op E (OpGet who i) = do { _ \<leftarrow> SvcGet E who i; ret () }"
| "perform_op E (OpAttach who i d) = do { _ \<leftarrow> AttachDevice E who i d; ret () }"
| "perform_op E (OpList who) = do { _ \<leftarrow> SvcList E who; ret () }"
| "perform_op E (OpExec who i argv) = do { _ \<leftarrow> SvcExec E who i argv; ret () }"
| "perform_op E (OpDeleteUserData who u) = do { _ \<leftarrow> DeleteUserData E who u; ret () }"
| "perform_op E (OpDelete who i) = do { _ \<leftarrow> SvcDelete E who i; ret () }"
| "perform_op E OpReconcile = do { _ \<leftarrow> Reconcile E; ret () }"
| "perform_op E OpTick = reconcile_tick E"
| "perform_op E (OpPrepareSSH who i) = do { _ \<leftarrow> PrepareSSH E who i; ret () }"
| "perform_op E OpStats = do { _ \<leftarrow> Stats E; ret () }"

text \<open>A create is lawful when the ids the random source makes are minted for its user.\<close>

definition op_lawful :: "('r, 'v, 'h) surroundings \<Rightarrow> (string \<Rightarrow> string) \<Rightarrow> svc_op \<Rightarrow> bool" where
  "op_lawful E own p \<longleftrightarrow>
     (\<forall>who t sz res. p = OpCreate who t sz res \<longrightarrow>
        (\<forall>n. random16 E n \<noteq> [] \<and> own (hex_encode (random16 E n)) = IdUserID who))"

context kept_create
begin

lemma perform_op_I:
  "J w \<Longrightarrow> op_lawful E own p \<Longrightarrow> wp (perform_op E p) (\<lambda>_. J) w"
  by (cases p)
    (auto intro!: wp_bindI [OF Create_I] wp_bindI [OF SvcGet_I] wp_bindI [OF AttachDevice_I]
      wp_bindI [OF SvcList_I] wp_bindI [OF SvcExec_I] wp_bindI [OF DeleteUserData_I]
      wp_bindI [OF SvcDelete_I] wp_bindI [OF Reconcile_I] reconcile_tick_I wp_bindI [OF PrepareSSH_I]
      wp_bindI [OF Stats_I] simp: wp_return op_lawful_def)

end

locale service = redis_client "rds E" ks own
  for E :: "('r, 'v, 'h) surroundings" and ks :: "'r \<Rightarrow> keyspace" and own :: "string \<Rightarrow> string"
begin

abbreviation good_w :: "('r, 'v, 'h) world \<Rightarrow> bool" where
  "good_w \<equiv> good_world own ks"

lemma arr_lawful: "good_conn own ks c \<Longrightarrow> recs (arr c) i = Some sb \<Longrightarrow> lawful_rec own sb \<and> ID sb = i"
  using arr_rec [of c i sb] by (simp add: lawful_rec_def)

text \<open>The store's methods, for the invariant only.\<close>

lemma Get_S:
  assumes w: "good_w w"
  shows "wp (on_store (Get (rds E) cx i))
     (\<lambda>g w. good_w w \<and> (\<forall>sb. g = Inr (Some sb) \<longrightarrow> lawful_rec own sb \<and> ID sb = i)) w"
  unfolding wp_on_store
proof (rule wp_mono [OF Get_outcome [OF good_worldD(1) [OF w]]], goal_cases)
  case (1 g c)
  then show ?case using w arr_lawful [OF good_worldD(1) [OF w], of i] by (cases g) auto
qed

lemma Put_S: "good_w w \<Longrightarrow> lawful_rec own sb \<Longrightarrow> wp (on_store (Put (rds E) cx sb)) (\<lambda>_. good_w) w"
  unfolding wp_on_store
  by (rule wp_mono [OF Put_outcome]) (auto simp: lawful_rec_def)

lemma Delete_S: "good_w w \<Longrightarrow> wp (on_store (Delete (rds E) cx i)) (\<lambda>_. good_w) w"
  unfolding wp_on_store by (rule wp_mono [OF Delete_outcome]) auto

lemma Reserve_S:
  "good_w w \<Longrightarrow> lawful_rec own sb \<Longrightarrow> SbState sb = StateCreating \<Longrightarrow>
   wp (on_store (ReserveUserSlot (rds E) cx sb)) (\<lambda>_. good_w) w"
  unfolding wp_on_store by (rule wp_mono [OF Reserve_outcome]) (auto simp: lawful_rec_def)

lemma PutRunning_S:
  "good_w w \<Longrightarrow> lawful_rec own sb \<Longrightarrow> SbState sb = StateRunning \<Longrightarrow>
   wp (on_store (PutRunning (rds E) cx sb)) (\<lambda>_. good_w) w"
  unfolding wp_on_store by (rule wp_mono [OF PutRunning_outcome]) (auto simp: lawful_rec_def)

lemma Release_S: "good_w w \<Longrightarrow> wp (on_store (ReleaseUserSlot (rds E) cx u i)) (\<lambda>_. good_w) w"
  unfolding wp_on_store by (rule wp_mono [OF Release_outcome]) auto

lemma UserSlot_S: "good_w w \<Longrightarrow> wp (on_store (UserSlot (rds E) cx u)) (\<lambda>_. good_w) w"
  unfolding wp_on_store by (rule wp_mono [OF UserSlot_outcome]) auto

lemma List_S:
  "good_w w \<Longrightarrow> wp (on_store (ListSandboxes (rds E) cx u))
     (\<lambda>g w. good_w w \<and> (\<forall>sbs. g = Inr sbs \<longrightarrow> (\<forall>sb \<in> set sbs. lawful_rec own sb))) w"
  unfolding wp_on_store
  by (rule wp_mono [OF List_outcome]) (auto simp: lawful_rec_def)

lemma Purge_S: "good_w w \<Longrightarrow> wp (on_store (PurgeUserIndexes (rds E) cx u)) (\<lambda>_. good_w) w"
  unfolding wp_on_store by (rule wp_mono [OF Purge_outcome]) auto

lemma IncCreated_S: "good_w w \<Longrightarrow> wp (on_store (IncCreated (rds E) cx)) (\<lambda>_. good_w) w"
  unfolding wp_on_store by (rule wp_mono [OF IncCreated_outcome]) auto

lemma TotalCreated_S: "good_w w \<Longrightarrow> wp (on_store (TotalCreated (rds E) cx)) (\<lambda>_. good_w) w"
  unfolding wp_on_store TotalCreated_def by (rule wp_mono [OF get_int_outcome]) auto

lemma SSHPort_S: "good_w w \<Longrightarrow> wp (on_store (SSHPort (rds E) cx i)) (\<lambda>_. good_w) w"
  unfolding wp_on_store by (rule wp_mono [OF SSHPort_outcome]) auto

lemma SetSSHPort_S:
  "good_w w \<Longrightarrow> in_int64 p \<Longrightarrow> wp (on_store (SetSSHPort (rds E) cx i p)) (\<lambda>_. good_w) w"
  unfolding wp_on_store by (rule wp_mono [OF SetSSHPort_outcome]) auto

end

sublocale service \<subseteq> inventory: kept_create E own good_w
  by unfold_locales
    (fact Get_S Put_S Delete_S Release_S UserSlot_S List_S Purge_S TotalCreated_S SSHPort_S SetSSHPort_S
       Reserve_S PutRunning_S IncCreated_S | simp)+

text \<open>The facts of \<open>kept_create\<close> on the invariant of the inventory.\<close>

context service
begin

lemma perform_op_keeps:
  "good_w w \<Longrightarrow> op_lawful E own p \<Longrightarrow> wp (perform_op E p) (\<lambda>_. good_w) w"
  by (rule inventory.perform_op_I)

end

end
