(* ===== verification/Store_Props.thy ===== *)
theory Store_Props
  imports Store_Client
begin

text \<open>
  The properties of the store: what the atomic requests guarantee under every interleaving with
  each other (the quota, and that a deletion is final), what the methods guarantee in every
  environment, and who a token can be resolved to.
\<close>

section \<open>Interleaved requests\<close>

text \<open>The requests that may take the slot of user \<open>u\<close> away from sandbox \<open>i\<close>.\<close>

fun frees :: "string \<Rightarrow> string \<Rightarrow> request \<Rightarrow> bool" where
  "frees u i (QDelete j v) \<longleftrightarrow> j = i \<and> v = u"
| "frees u i (QRelease v j) \<longleftrightarrow> j = i \<and> v = u"
| "frees u i (QPurge v) \<longleftrightarrow> v = u"
| "frees u i _ \<longleftrightarrow> False"

fun reserves :: "string \<Rightarrow> request \<Rightarrow> bool" where
  "reserves i (QReserve sb) \<longleftrightarrow> ID sb = i"
| "reserves i _ \<longleftrightarrow> False"

lemma slot_held:
  "slots a u = Some i \<Longrightarrow> \<not> frees u i q \<Longrightarrow> slots (abstractly q a) u = Some i"
  by (cases q) (auto simp: spec_put_def spec_reserve_def spec_put_running_def spec_delete_def
      spec_release_def spec_purge_def spec_set_port_def Let_def)

lemma slot_held_fold:
  "slots a u = Some i \<Longrightarrow> list_all (\<lambda>q. \<not> frees u i q) qs \<Longrightarrow> slots (fold abstractly qs a) u = Some i"
  by (induction qs arbitrary: a) (simp_all add: slot_held)

lemma slot_not_taken:
  "slots a u \<noteq> Some i \<Longrightarrow> \<not> reserves i q \<Longrightarrow> slots (abstractly q a) u \<noteq> Some i"
  by (cases q) (auto simp: spec_put_def spec_reserve_def spec_put_running_def spec_delete_def
      spec_release_def spec_purge_def spec_set_port_def Let_def)

lemma slot_not_taken_fold:
  "slots a u \<noteq> Some i \<Longrightarrow> list_all (\<lambda>q. \<not> reserves i q) qs \<Longrightarrow>
   slots (fold abstractly qs a) u \<noteq> Some i"
  by (induction qs arbitrary: a) (simp_all add: slot_not_taken)

text \<open>The answers of the two gates, run on a server.\<close>

definition reserve_reply :: "(rcmd \<Rightarrow> 'r \<Rightarrow> reply \<times> 'r) \<Rightarrow> sandbox \<Rightarrow> 'r \<Rightarrow> reply" where
  "reserve_reply ex sb r = fst (run_state
     (reserveUserSlot ex (slot_key (UserID sb)) (rec_key (ID sb)) (user_key (UserID sb))
        allKey activeKey (eventsChannel (UserID sb)) (ID sb) (marshal sb)) r)"

definition running_reply :: "(rcmd \<Rightarrow> 'r \<Rightarrow> reply \<times> 'r) \<Rightarrow> sandbox \<Rightarrow> 'r \<Rightarrow> reply" where
  "running_reply ex sb r = fst (run_state
     (putRunning ex (slot_key (UserID sb)) (rec_key (ID sb)) (eventsChannel (UserID sb))
        (Text (ID sb)) (marshal (sb\<lparr>SSHConnections := 0\<rparr>))) r)"

context redis_server
begin

lemma gate_replies:
  assumes "well_typed (ks r)" and "sid (ID sb)"
  shows "reserve_reply exec sb r = bool_reply (fst (spec_reserve sb (inventory_of (ks r))))"
    and "running_reply exec sb r = bool_reply (fst (spec_put_running sb (inventory_of (ks r))))"
  using reserve_refines [OF assms] put_running_refines [OF assms]
  by (simp_all add: reserve_reply_def running_reply_def wp_def map_prod_def split_beta)

end

text \<open>
  C5. Refinement. Whatever sequence of the store's atomic requests the instances of the service
  send to a server that behaves as documented, the server stays in a state of the schema, and
  its inventory is what the abstract operations make of it, in the same order; in particular
  every slot names a sandbox of its user that has a record, every index entry has a record of that
  user, the index of all ids is exact, and the active index lists exactly the active records.
\<close>

theorem requests_refine:
  assumes "redis_server ex ks" and "good own (ks r)" and "list_all (lawful own) qs"
  shows "good own (ks (performs ex qs r)) \<and>
         inventory_of (ks (performs ex qs r)) = fold abstractly qs (inventory_of (ks r))"
  by (rule redis_server.performs_refine [OF assms])

text \<open>
  C4. The quota. While sandbox \<open>i\<close> holds the slot of user \<open>u\<close>, and whatever other requests are
  interleaved as long as none of them deletes \<open>i\<close>, releases its slot or purges \<open>u\<close>: the slot stays
  with \<open>i\<close>, every reservation for \<open>u\<close> is refused, and no other sandbox of \<open>u\<close> is marked running.
\<close>

theorem quota_one_sandbox:
  assumes srv: "redis_server ex ks" and g: "good own (ks r)"
    and held: "slots (inventory_of (ks r)) u = Some i"
    and qs: "list_all (lawful own) qs" "list_all (\<lambda>q. \<not> frees u i q) qs"
    and sb: "sid (ID sb)" "UserID sb = u"
  shows "slots (inventory_of (ks (performs ex qs r))) u = Some i \<and>
         reserve_reply ex sb (performs ex qs r) = RInt 0 \<and>
         (ID sb \<noteq> i \<longrightarrow> running_reply ex sb (performs ex qs r) = RInt 0)"
proof -
  note p = redis_server.performs_refine [OF srv g qs(1)]
  then have s: "slots (inventory_of (ks (performs ex qs r))) u = Some i"
    using slot_held_fold [OF held qs(2)] by simp
  from redis_server.gate_replies [OF srv goodD(1) [of own] sb(1)] p
  have "reserve_reply ex sb (performs ex qs r) =
      bool_reply (fst (spec_reserve sb (inventory_of (ks (performs ex qs r)))))"
    and "running_reply ex sb (performs ex qs r) =
      bool_reply (fst (spec_put_running sb (inventory_of (ks (performs ex qs r)))))" by blast+
  with s sb(2) show ?thesis by (simp add: spec_reserve_def spec_put_running_def)
qed

text \<open>
  C27. A deletion is final. Once a sandbox has been deleted, a create that is still in flight
  cannot mark it running: after any further requests, none of which reserves the same id again,
  the script of \<^verbatim>\<open>PutRunning\<close> answers 0, even when another instance wrote the record back meanwhile.
\<close>

theorem deleted_is_never_running:
  assumes srv: "redis_server ex ks" and g: "good own (ks r)"
    and l: "lawful own (QDelete (ID sb) (UserID sb))"
    and qs: "list_all (lawful own) qs" "list_all (\<lambda>q. \<not> reserves (ID sb) q) qs"
  shows "running_reply ex sb (performs ex (QDelete (ID sb) (UserID sb) # qs) r) = RInt 0"
proof -
  let ?r = "performs ex (QDelete (ID sb) (UserID sb) # qs) r"
  have p: "good own (ks ?r)"
    "inventory_of (ks ?r) = fold abstractly qs (spec_delete (ID sb) (UserID sb) (inventory_of (ks r)))"
    using redis_server.performs_refine [OF srv g, of "QDelete (ID sb) (UserID sb) # qs"] l qs(1)
    by simp_all
  have "slots (spec_delete (ID sb) (UserID sb) (inventory_of (ks r))) (UserID sb) \<noteq> Some (ID sb)"
    by (simp add: spec_delete_def)
  from slot_not_taken_fold [OF this qs(2)] p(2)
  have "slots (inventory_of (ks ?r)) (UserID sb) \<noteq> Some (ID sb)" by simp
  then show ?thesis
    using redis_server.gate_replies(2) [OF srv goodD(1) [OF p(1)]] l
    by (simp add: spec_put_running_def)
qed

section \<open>The methods, in every environment\<close>

text \<open>
  \<^verbatim>\<open>Delete\<close> removes every trace. When it returns no error, whatever the other clients did and
  however the requests went, no record, no index entry, no active mark and no quota slot of the
  sandbox is left, and the schema is intact.
\<close>

theorem delete_leaves_no_trace:
  assumes "redis_client E ks own" and "good_conn own ks c"
    and "run_state (Delete E cx i) c = (None, c')"
  shows "good_conn own ks c' \<and> gone i (inv_of ks c')"
  using redis_client.Delete_outcome [OF assms(1,2), of cx i] wp_run [OF assms(3)] by simp

text \<open>
  A reservation is atomic. When \<^verbatim>\<open>ReserveUserSlot\<close> answers true, the sandbox holds the user's
  slot, its record is the one given, and it is in the index of all, of the active and of the user's
  sandboxes; when it answers false, somebody held the slot and nothing changed; when the request
  failed, it took effect as a whole or not at all.
\<close>

theorem reserve_is_atomic:
  assumes "redis_client E ks own" and "good_conn own ks c" and "lawful own (QReserve sb)"
    and "run_state (ReserveUserSlot E cx sb) c = (g, c')"
  shows "case g of
      Inr True \<Rightarrow> slots (inv_of ks c') (UserID sb) = Some (ID sb) \<and>
        recs (inv_of ks c') (ID sb) = Some (backfill sb) \<and> ID sb \<in> all_ids (inv_of ks c') \<and>
        ID sb \<in> active_ids (inv_of ks c') \<and> ID sb \<in> by_user (inv_of ks c') (UserID sb) \<and>
        slots (arriving E ks c) (UserID sb) = None
    | Inr False \<Rightarrow> slots (arriving E ks c) (UserID sb) \<noteq> None \<and> inv_of ks c' = arriving E ks c
    | Inl e \<Rightarrow> inv_of ks c' = arriving E ks c \<or> inv_of ks c' = snd (spec_reserve sb (arriving E ks c))"
  using redis_client.Reserve_outcome [OF assms(1-3), of cx] wp_run [OF assms(4)]
  by (cases "slots (arriving E ks c) (UserID sb)")
    (auto simp: spec_reserve_def applied_def split: sum.splits bool.splits)

text \<open>
  Only the holder starts running. When \<^verbatim>\<open>PutRunning\<close> returns no error, the sandbox held its
  user's slot and its record was in the state \<^verbatim>\<open>creating\<close> at that moment, and it is now the given
  one; otherwise, if the script answered at all, the inventory was left alone.
\<close>

theorem running_needs_slot:
  assumes "redis_client E ks own" and "good_conn own ks c" and "lawful own (QRunning sb)"
    and "run_state (PutRunning E cx sb) c = (None, c')"
  shows "slots (arriving E ks c) (UserID sb) = Some (ID sb) \<and>
         (\<exists>old. recs (arriving E ks c) (ID sb) = Some old \<and> SbState old = StateCreating) \<and>
         recs (inv_of ks c') = (recs (arriving E ks c))(ID sb \<mapsto> backfill (sb\<lparr>SSHConnections := 0\<rparr>)) \<and>
         slots (inv_of ks c') = slots (arriving E ks c)"
  using redis_client.PutRunning_outcome [OF assms(1-3), of cx] wp_run [OF assms(4)]
  by (auto simp: spec_put_running_def Let_def split: if_splits option.splits)

text \<open>
  A listing for a user never shows a sandbox of another user, in any interleaving with writes
  to the records while they are read one by one.
\<close>

theorem list_shows_own_sandboxes:
  assumes "redis_client E ks own" and "good_conn own ks c" and "u \<noteq> []"
    and "run_state (ListSandboxes E cx u) c = (Inr sbs, c')" and "sb \<in> set sbs"
  shows "UserID sb = u"
  using redis_client.List_outcome [OF assms(1,2), of cx u] wp_run [OF assms(4)] assms(3,5) by auto

text \<open>
  A listing is complete: on a server nobody else writes to, it returns each record of the index
  once, in some order, and for all users that is every record there is.
\<close>

theorem list_is_complete:
  assumes "redis_client E ks own" and "calm E" and "good_conn own ks c"
  shows "\<exists>is c'. run_state (ListSandboxes E cx u) c = (Inr (map (the \<circ> recs (inv_of ks c)) is), c') \<and>
           distinct is \<and> set is = listed u (inv_of ks c) \<and> inv_of ks c' = inv_of ks c \<and>
           (u = [] \<longrightarrow> set is = dom (recs (inv_of ks c)))"
  using redis_client.List_calm [OF assms, of cx u]
    redis_client.consistent_inv [OF assms(1,3)]
  by (cases "run_state (ListSandboxes E cx u) c") (auto simp: wp_def listed_def consistent_def)

section \<open>On the server in memory\<close>

definition demo_own :: "string \<Rightarrow> string" where
  "demo_own i = (if i = ''a1'' \<or> i = ''a2'' then ''alice'' else ''bob'')"

definition demo_sb :: "string \<Rightarrow> string \<Rightarrow> sandbox" where
  "demo_sb i st = \<lparr>ID = i, UserID = ''alice'', Template = ''ubuntu'', Size = ''medium'', Kind = ''vm'',
     SbState = st, IPAddress = [], CostPerMin = 1/200, SbResources = no_resources, DiskMiB = 0,
     Error = [], DeviceID = [], CreatedAt = 0, LastActivity = 0, SSHConnections = 0\<rparr>"

lemma demo_sb_simps [simp]:
  "ID (demo_sb i st) = i" "UserID (demo_sb i st) = ''alice''" "SbState (demo_sb i st) = st"
  "SSHConnections (demo_sb i st) = 0" "backfill (demo_sb i st) = demo_sb i st"
  "(demo_sb i st)\<lparr>SSHConnections := 0\<rparr> = demo_sb i st"
  by (simp_all add: demo_sb_def backfill_def)

lemma demo_own_simps [simp]: "demo_own ''a1'' = ''alice''" "demo_own ''a2'' = ''alice''"
  by (simp_all add: demo_own_def)

lemma demo_lawful [simp]:
  "lawful demo_own (QReserve (demo_sb ''a1'' StateCreating))"
  "lawful demo_own (QReserve (demo_sb ''a2'' StateCreating))"
  "lawful demo_own (QRunning (demo_sb ''a1'' StateRunning))"
  "lawful demo_own (QDelete ''a1'' ''alice'')"
  "sid ''a1''" "sid ''a2''"
  by (simp_all add: demo_own_def sid_def hex_char_def is_digit_def)

text \<open>The server after a reservation by \<open>a1\<close>.\<close>

definition demo_mem :: mem where
  "demo_mem = performs mem_exec [QReserve (demo_sb ''a1'' StateCreating)] empty_mem"

definition demo_conn :: "mem conn" where
  "demo_conn = \<lparr>server = demo_mem, calls = 0\<rparr>"

lemma empty_inventory [simp]:
  "inventory_of (mem_ks empty_mem) = \<lparr>recs = Map.empty, slots = Map.empty, by_user = (\<lambda>_. {}),
     all_ids = {}, active_ids = {}, ports = Map.empty, events = []\<rparr>"
  by (simp add: inventory_of_def mem_ks_def empty_mem_def fun_eq_iff)

lemma demo_mem_state:
  "good demo_own (mem_ks demo_mem)"
  "inventory_of (mem_ks demo_mem) =
     snd (spec_reserve (demo_sb ''a1'' StateCreating) (inventory_of (mem_ks empty_mem)))"
  using mem.performs_refine [OF good_empty, of demo_own "[QReserve (demo_sb ''a1'' StateCreating)]"]
  by (simp_all del: empty_inventory add: demo_mem_def)

lemma demo_conn_good [simp]: "good_conn demo_own mem_ks demo_conn"
  by (simp add: good_conn_def demo_conn_def demo_mem_state)

lemma demo_inv:
  "slots (inv_of mem_ks demo_conn) = [''alice'' \<mapsto> ''a1'']"
  "recs (inv_of mem_ks demo_conn) = [''a1'' \<mapsto> demo_sb ''a1'' StateCreating]"
  "by_user (inv_of mem_ks demo_conn) ''alice'' = {''a1''}"
  by (simp_all add: inv_of_def demo_conn_def demo_mem_state(2) spec_reserve_def)

theorem requests_refine_witness:
  "good demo_own (mem_ks (performs mem_exec [QReserve (demo_sb ''a1'' StateCreating),
      QRunning (demo_sb ''a1'' StateRunning), QDelete ''a1'' ''alice''] empty_mem))"
  using requests_refine [OF mem.redis_server_axioms good_empty, of demo_own
    "[QReserve (demo_sb ''a1'' StateCreating), QRunning (demo_sb ''a1'' StateRunning),
      QDelete ''a1'' ''alice'']"]
  by simp

theorem quota_one_sandbox_witness:
  "running_reply mem_exec (demo_sb ''a2'' StateRunning) demo_mem = RInt 0"
proof -
  have "slots (inventory_of (mem_ks demo_mem)) ''alice'' = Some ''a1''"
    by (simp add: demo_mem_state(2) spec_reserve_def)
  from quota_one_sandbox [OF mem.redis_server_axioms demo_mem_state(1) this,
      of "[]" "demo_sb ''a2'' StateRunning"]
  show ?thesis by simp
qed

theorem deleted_is_never_running_witness:
  "running_reply mem_exec (demo_sb ''a1'' StateRunning)
     (performs mem_exec [QDelete ''a1'' ''alice'', QReserve (demo_sb ''a2'' StateCreating)] demo_mem) = RInt 0"
  using deleted_is_never_running [OF mem.redis_server_axioms demo_mem_state(1),
      of "demo_sb ''a1'' StateRunning" "[QReserve (demo_sb ''a2'' StateCreating)]"]
  by simp

lemma run_fst: "fst (run_state m s) = a \<Longrightarrow> run_state m s = (a, snd (run_state m s))"
  by (cases "run_state m s") simp

theorem delete_leaves_no_trace_witness:
  "gone ''a1'' (inv_of mem_ks (snd (run_state (Delete calm_env Detached ''a1'') demo_conn)))"
proof -
  have "fst (run_state (Delete calm_env Detached ''a1'') demo_conn) = None"
    using calm_client.Delete_calm [OF calm_calm_env demo_conn_good demo_lawful(5), of Detached]
    by (simp add: wp_def)
  from delete_leaves_no_trace [OF calm_client.redis_client_axioms demo_conn_good run_fst [OF this]]
  show ?thesis by simp
qed

theorem reserve_is_atomic_witness:
  "slots (inv_of mem_ks (snd (run_state (ReserveUserSlot calm_env Caller
       (demo_sb ''a2'' StateCreating)) fresh_conn))) ''alice'' = Some ''a2''"
proof -
  have "fst (run_state (ReserveUserSlot calm_env Caller (demo_sb ''a2'' StateCreating)) fresh_conn) = Inr True"
    using calm_client.Reserve_calm [OF calm_calm_env good_fresh demo_lawful(2), of Caller]
    by (simp add: wp_def spec_reserve_def inv_of_def fresh_conn_def)
  from reserve_is_atomic [OF calm_client.redis_client_axioms good_fresh demo_lawful(2) run_fst [OF this]]
  show ?thesis by simp
qed

theorem running_needs_slot_witness:
  "slots (inv_of mem_ks (snd (run_state (PutRunning calm_env Caller
       (demo_sb ''a1'' StateRunning)) demo_conn))) ''alice'' = Some ''a1''"
proof -
  have "fst (run_state (PutRunning calm_env Caller (demo_sb ''a1'' StateRunning)) demo_conn) = None"
    using calm_client.PutRunning_calm [OF calm_calm_env demo_conn_good demo_lawful(3), of Caller]
    by (simp add: wp_def spec_put_running_def demo_inv Let_def)
  from running_needs_slot [OF calm_client.redis_client_axioms demo_conn_good demo_lawful(3) run_fst [OF this]]
  show ?thesis by simp
qed

lemma demo_listing:
  "\<exists>c'. run_state (ListSandboxes calm_env Caller ''alice'') demo_conn =
     (Inr [demo_sb ''a1'' StateCreating], c')"
proof -
  have single: "is = [''a1'']" if "set is = {''a1''}" "distinct is" for "is" :: "string list"
  proof -
    from that have "length is = 1" by (metis card.empty card_insert_disjoint distinct_card empty_iff
          finite.emptyI One_nat_def)
    then obtain x where "is = [x]" by (auto simp: length_Suc_conv)
    with that show ?thesis by simp
  qed
  obtain g c' where run: "run_state (ListSandboxes calm_env Caller ''alice'') demo_conn = (g, c')"
    by (cases "run_state (ListSandboxes calm_env Caller ''alice'') demo_conn")
  from calm_client.List_calm [OF calm_calm_env demo_conn_good, of Caller "''alice''"]
  obtain "is" where g: "g = Inr (map (the \<circ> recs (inv_of mem_ks demo_conn)) is)"
    and "distinct is" "set is = {''a1''}"
    by (auto simp: wp_def run listed_def demo_inv(3))
  with single have "is = [''a1'']" by blast
  with g run show ?thesis by (simp add: demo_inv(2))
qed

theorem list_shows_own_sandboxes_witness: "UserID (demo_sb ''a1'' StateCreating) = ''alice''"
proof -
  from demo_listing obtain c' where
    "run_state (ListSandboxes calm_env Caller ''alice'') demo_conn = (Inr [demo_sb ''a1'' StateCreating], c')"
    by blast
  from list_shows_own_sandboxes [OF calm_client.redis_client_axioms demo_conn_good _ this,
      of "demo_sb ''a1'' StateCreating"]
  show ?thesis by simp
qed

theorem list_is_complete_witness:
  "\<exists>is c'. run_state (ListSandboxes calm_env Caller []) demo_conn =
      (Inr (map (the \<circ> recs (inv_of mem_ks demo_conn)) is), c') \<and> set is = dom (recs (inv_of mem_ks demo_conn))"
  using list_is_complete [OF calm_client.redis_client_axioms calm_calm_env demo_conn_good, of Caller "[]"]
  by auto

end
