(* ===== verification/Userhome_Props.thy ===== *)
theory Userhome_Props
  imports Userhome
begin

text \<open>
  What the home disks promise, on a host that behaves as the manuals of the file system and of the
  ext4 tools say (locale \<open>disk_host\<close>): \<open>view h p\<close> is the image at path \<open>p\<close>, its file size and, when
  it is formatted, the size of its file system and the files in it. A host in memory whose
  operations can be made to fail one by one shows that the laws can be met.
\<close>

section \<open>Images\<close>

record 'c disk =
  fsize :: int
  fsys :: "(int \<times> 'c) option"

definition files :: "'c disk \<Rightarrow> 'c option" where
  "files d = map_option snd (fsys d)"

text \<open>The file system lies inside the file.\<close>

definition disk_ok :: "'c disk \<Rightarrow> bool" where
  "disk_ok d \<longleftrightarrow> (case fsys d of None \<Rightarrow> True | Some (s, _) \<Rightarrow> s \<le> fsize d)"

text \<open>Setting the size of the file; cutting into the file system destroys it.\<close>

definition cut_to :: "int \<Rightarrow> 'c disk \<Rightarrow> 'c disk" where
  "cut_to n d = \<lparr>fsize = n, fsys = (case fsys d of None \<Rightarrow> None
                                | Some (s, c) \<Rightarrow> if s \<le> n then Some (s, c) else None)\<rparr>"

text \<open>
  The image at \<open>p\<close> holds the files \<open>c\<close>, in a file of at least \<open>n\<close> bytes; or just the files.
\<close>

definition image_holds :: "('h \<Rightarrow> string \<Rightarrow> 'c disk option) \<Rightarrow> string \<Rightarrow> 'c \<Rightarrow> int \<Rightarrow> 'h \<Rightarrow> bool" where
  "image_holds view p c n h \<longleftrightarrow>
     (\<exists>d s. view h p = Some d \<and> fsys d = Some (s, c) \<and> s \<le> fsize d \<and> n \<le> fsize d)"

definition image_has :: "('h \<Rightarrow> string \<Rightarrow> 'c disk option) \<Rightarrow> string \<Rightarrow> 'c \<Rightarrow> 'h \<Rightarrow> bool" where
  "image_has view p c h \<longleftrightarrow> (\<exists>d s. view h p = Some d \<and> fsys d = Some (s, c))"

locale disk_host =
  fixes H :: "'h host"
    and view :: "'h \<Rightarrow> string \<Rightarrow> 'c disk option"
    and blank :: 'c
  assumes mkdir_keeps: "view (snd (mkdir_all H p h)) = view h"
    and stat_keeps: "view (snd (stat_size H p h)) = view h"
    and stat_ok: "fst (stat_size H p h) = Inr n \<Longrightarrow> \<exists>d. view h p = Some d \<and> fsize d = n"
    and create_ok: "fst (create_file H p h) = None \<Longrightarrow>
      view (snd (create_file H p h)) = (view h)(p \<mapsto> \<lparr>fsize = 0, fsys = None\<rparr>)"
    and create_fails: "fst (create_file H p h) = Some e \<Longrightarrow> view (snd (create_file H p h)) = view h"
    and truncate_ok: "fst (truncate_file H p n h) = None \<Longrightarrow>
      \<exists>d. view h p = Some d \<and> view (snd (truncate_file H p n h)) = (view h)(p \<mapsto> cut_to n d)"
    and truncate_fails: "fst (truncate_file H p n h) = Some e \<Longrightarrow>
      view (snd (truncate_file H p n h)) = view h"
    and fsck_keeps: "view (snd (run_cmd H [''e2fsck'', ''-fp'', p] h)) = view h"
    and fsck_blank: "view h p = Some d \<Longrightarrow> fsys d = None \<Longrightarrow>
      fsck_failed (fst (fst (run_cmd H [''e2fsck'', ''-fp'', p] h)))"
    and resize_ok: "fst (fst (run_cmd H [''resize2fs'', p] h)) = Exit 0 \<Longrightarrow>
      \<exists>d s c. view h p = Some d \<and> fsys d = Some (s, c) \<and>
        view (snd (run_cmd H [''resize2fs'', p] h)) = (view h)(p \<mapsto> d\<lparr>fsys := Some (fsize d, c)\<rparr>)"
    and resize_fails: "fst (fst (run_cmd H [''resize2fs'', p] h)) \<noteq> Exit 0 \<Longrightarrow>
      view (snd (run_cmd H [''resize2fs'', p] h)) = view h"
    and shrink_ok: "fst (fst (run_cmd H [''resize2fs'', p, dec_int k @ ''K''] h)) = Exit 0 \<Longrightarrow>
      \<exists>d s c. view h p = Some d \<and> fsys d = Some (s, c) \<and>
        view (snd (run_cmd H [''resize2fs'', p, dec_int k @ ''K''] h)) =
          (view h)(p \<mapsto> d\<lparr>fsys := Some (1024 * k, c)\<rparr>)"
    and shrink_fails: "fst (fst (run_cmd H [''resize2fs'', p, dec_int k @ ''K''] h)) \<noteq> Exit 0 \<Longrightarrow>
      view (snd (run_cmd H [''resize2fs'', p, dec_int k @ ''K''] h)) = view h"
    and info_keeps: "view (snd (run_cmd H [''resize2fs'', ''-P'', p] h)) = view h"
      "view (snd (run_cmd H [''dumpe2fs'', ''-h'', p] h)) = view h"
    and mkfs_ok: "fst (fst (run_cmd H (mkfs_cmd p) h)) = Exit 0 \<Longrightarrow>
      \<exists>d. view h p = Some d \<and>
        view (snd (run_cmd H (mkfs_cmd p) h)) = (view h)(p \<mapsto> d\<lparr>fsys := Some (fsize d, blank)\<rparr>)"
    and mkfs_fails: "fst (fst (run_cmd H (mkfs_cmd p) h)) \<noteq> Exit 0 \<Longrightarrow>
      \<exists>x. view (snd (run_cmd H (mkfs_cmd p) h)) = (view h)(p := x)"
    and remove_ok: "fst (remove_file H p h) = None \<Longrightarrow> view (snd (remove_file H p h)) = (view h)(p := None)"
    and remove_fails: "fst (remove_file H p h) = Some e \<Longrightarrow> view (snd (remove_file H p h)) = view h"
    and remove_all_only: "\<not> has_prefix q (p @ ''/'') \<Longrightarrow> q \<noteq> p \<Longrightarrow>
      view (snd (remove_all H p h)) q = view h q"
    and remove_all_ok: "fst (remove_all H p h) = None \<Longrightarrow> has_prefix q (p @ ''/'') \<Longrightarrow>
      view (snd (remove_all H p h)) q = None"
begin

abbreviation holds :: "string \<Rightarrow> 'c \<Rightarrow> int \<Rightarrow> 'h \<Rightarrow> bool" where
  "holds \<equiv> image_holds view"

lemmas holds_def = image_holds_def [of view]

lemma holdsI:
  "view h p = Some d \<Longrightarrow> fsys d = Some (s, c) \<Longrightarrow> s \<le> fsize d \<Longrightarrow> n \<le> fsize d \<Longrightarrow> holds p c n h"
  by (auto simp: holds_def)

lemma holds_view: "view h' = view h \<Longrightarrow> holds p c n h' = holds p c n h"
  by (simp add: holds_def)

lemma holds_mono: "holds p c n h \<Longrightarrow> m \<le> n \<Longrightarrow> holds p c m h"
  by (fastforce simp: holds_def)

lemma holds_truncate:
  assumes "holds p c n h" and "\<forall>d. view h p = Some d \<longrightarrow> fsize d \<le> m"
  shows "wp (State (truncate_file H p m)) (\<lambda>e h'. holds p c n h' \<and> (e = None \<longrightarrow> holds p c m h')) h"
proof (cases "fst (truncate_file H p m h)")
  case None
  from truncate_ok [OF this] obtain d where d: "view h p = Some d"
    "view (snd (truncate_file H p m h)) = (view h)(p \<mapsto> cut_to m d)" by blast
  with assms(1) obtain s where s: "fsys d = Some (s, c)" "s \<le> fsize d" "n \<le> fsize d"
    by (auto simp: holds_def)
  from assms(2) d(1) have m: "fsize d \<le> m" by simp
  have "view (snd (truncate_file H p m h)) p = Some (cut_to m d)" using d(2) by simp
  moreover have "fsys (cut_to m d) = Some (s, c)" "fsize (cut_to m d) = m"
    using s(1,2) m by (simp_all add: cut_to_def)
  moreover have "s \<le> m" "n \<le> m" using s m by simp_all
  ultimately show ?thesis unfolding wp_State using holdsI by simp
next
  case (Some e)
  from holds_view [OF truncate_fails [OF this]] Some assms(1) show ?thesis by (simp add: wp_State)
qed

lemma holds_fsck:
  "holds p c n h \<Longrightarrow> wp (State (run_cmd H [''e2fsck'', ''-fp'', p])) (\<lambda>_ h'. holds p c n h' \<and> view h' = view h) h"
  by (simp add: wp_State holds_view [OF fsck_keeps] fsck_keeps)

lemma holds_resize:
  "holds p c n h \<Longrightarrow> wp (State (run_cmd H [''resize2fs'', p])) (\<lambda>_ h'. holds p c n h') h"
  using resize_ok [of p h] holds_view [OF resize_fails, of p h p]
  by (cases "fst (fst (run_cmd H [''resize2fs'', p] h)) = Exit 0") (auto simp: wp_State holds_def)

lemma grow_holds:
  assumes "holds p c n h" and "\<forall>d. view h p = Some d \<longrightarrow> fsize d \<le> m"
  shows "wp (growDisk H p m) (\<lambda>e h'. holds p c n h' \<and> (e = None \<longrightarrow> holds p c m h')) h"
  unfolding growDisk_def
proof (rule wp_bindI [OF holds_truncate [OF assms]], goal_cases)
  case (1 t h1)
  show ?case
  proof (cases t)
    case None
    with 1 have h1: "holds p c m h1" "holds p c n h1" by simp_all
    show ?thesis
      unfolding None option.case
    proof (rule wp_bindI [OF wp_conj [OF holds_fsck [OF h1(1)] holds_fsck [OF h1(2)]]], goal_cases)
      case (1 co h2)
      then have "holds p c m h2" "holds p c n h2" by simp_all
      then have "wp (State (run_cmd H [''resize2fs'', p])) (\<lambda>_ h'. holds p c m h' \<and> holds p c n h') h2"
        by (intro wp_conj holds_resize)
      then show ?case
        using 1 by (cases co) (auto simp: wp_return wp_bind split_beta elim: wp_mono)
    qed
  qed (use 1 in \<open>simp add: wp_return\<close>)
qed

text \<open>Shrinking: whatever the tools answer, the files stay.\<close>

lemma holds_shrink_cmd:
  assumes "holds p c n h"
  shows "wp (State (run_cmd H [''resize2fs'', p, dec_int (sz div 1024) @ ''K'']))
           (\<lambda>r h'. if fst r = Exit 0
                   then (\<exists>d s. view h' p = Some d \<and> fsys d = Some (s, c) \<and> s \<le> sz)
                   else holds p c n h') h"
proof (cases "fst (fst (run_cmd H [''resize2fs'', p, dec_int (sz div 1024) @ ''K''] h)) = Exit 0")
  case True
  from shrink_ok [OF this] assms have
    "\<exists>d. view (snd (run_cmd H [''resize2fs'', p, dec_int (sz div 1024) @ ''K''] h)) p = Some d \<and>
         fsys d = Some (1024 * (sz div 1024), c)"
    by (auto simp: holds_def)
  moreover have "1024 * (sz div 1024) \<le> sz" using mult_div_mod_eq [of 1024 sz] pos_mod_sign [of 1024 sz] by linarith
  ultimately show ?thesis unfolding wp_State using True by auto
next
  case False
  with holds_view [OF shrink_fails [OF False]] assms show ?thesis by (simp add: wp_State)
qed

abbreviation has_files :: "string \<Rightarrow> 'c \<Rightarrow> 'h \<Rightarrow> bool" where
  "has_files \<equiv> image_has view"

lemmas has_files_def = image_has_def [of view]

lemma holds_has_files: "holds p c n h \<Longrightarrow> has_files p c h"
  by (auto simp: holds_def has_files_def)

lemma has_files_truncate:
  assumes "view h p = Some d" "fsys d = Some (s, c)" "s \<le> sz"
  shows "wp (State (truncate_file H p sz)) (\<lambda>_ h'. has_files p c h') h"
proof (cases "fst (truncate_file H p sz h)")
  case None
  from truncate_ok [OF this] assms(1) have
    "view (snd (truncate_file H p sz h)) = (view h)(p \<mapsto> cut_to sz d)" by auto
  with assms show ?thesis by (auto simp: wp_State has_files_def cut_to_def)
next
  case (Some e)
  from truncate_fails [OF this] assms show ?thesis by (auto simp: wp_State has_files_def)
qed

lemma wp_keeps_view:
  "(\<And>h. view (snd (f h)) = view h) \<Longrightarrow> holds p c n h \<Longrightarrow> wp (State f) (\<lambda>_ h'. holds p c n h') h"
  by (simp add: wp_State holds_def)

lemma shrink_holds:
  assumes "holds p c n h"
  shows "wp (shrinkDisk H p sz) (\<lambda>_ h'. has_files p c h') h"
  unfolding shrinkDisk_def
proof (rule wp_bindI [OF wp_keeps_view [OF fsck_keeps assms]], goal_cases)
  case (1 r1 h1)
  note h1 = 1
  show ?case
  proof (cases "fsck_failed (fst r1)")
    case False
    then have r1: "(case r1 of (c, out) \<Rightarrow> if fsck_failed c then X c out else m) = m" for X and m :: "('h, goerr option) state"
      by (simp add: split_beta)
    show ?thesis
      unfolding r1
    proof (rule wp_bindI [OF wp_keeps_view [OF info_keeps(1) h1]], goal_cases)
      case (1 r2 h2)
      note h2 = 1
      obtain d out2 where r2: "r2 = (d, out2)" by (cases r2)
      show ?case
      proof (cases "d = Exit 0 \<and> lastNumber out2 \<noteq> None")
        case True
        then obtain mb where mb: "lastNumber out2 = Some mb" and d: "d = Exit 0" by auto
        show ?thesis
          unfolding r2 prod.case d simp_thms if_False mb option.case
        proof (rule wp_bindI [OF wp_keeps_view [OF info_keeps(2) h2]], goal_cases)
          case (1 r3 h3)
          note h3 = 1
          obtain e hdr where r3: "r3 = (e, hdr)" by (cases r3)
          show ?case
          proof (cases "e = Exit 0 \<and> (\<exists>bs. lastNumber (blockSizeLine hdr) = Some bs \<and>
              \<not> rat_of_int (sint (word_of_int (mb * bs) :: 64 word)) * (12 / 10) > rat_of_int sz)")
            case True
            then obtain bs where bs: "lastNumber (blockSizeLine hdr) = Some bs" and e: "e = Exit 0"
              and c: "\<not> rat_of_int (sint (word_of_int (mb * bs) :: 64 word)) * (12 / 10) > rat_of_int sz"
              by blast
            show ?thesis
              unfolding r3 prod.case e simp_thms if_False bs option.case if_not_P [OF c]
            proof (rule wp_bindI [OF holds_shrink_cmd [OF h3]], goal_cases)
              case (1 r4 h4)
              then show ?case
                by (cases r4) (auto simp: wp_return holds_has_files intro: has_files_truncate)
            qed
          next
            case False
            with h3 show ?thesis
              by (auto simp: r3 wp_return holds_has_files split: option.split)
          qed
        qed
      next
        case False
        with h2 show ?thesis by (auto simp: r2 wp_return holds_has_files split: option.split)
      qed
    qed
  qed (use h1 in \<open>auto simp: wp_return holds_has_files split_beta\<close>)
qed

lemma DiskMiBOf_keeps: "wp (DiskMiBOf H rdir u) (\<lambda>_ h'. view h' = view h) h"
  by (auto simp: DiskMiBOf_def wp_return wp_bind wp_State stat_keeps split: sum.split)

lemma ShrinkDisk_keeps:
  assumes "dir rdir u = Inr dr" and "holds (Join dr ''home.img'') c n h"
  shows "wp (ShrinkDisk H rdir u m) (\<lambda>_ h'. has_files (Join dr ''home.img'') c h') h"
  unfolding ShrinkDisk_def
proof (rule wp_bindI [OF DiskMiBOf_keeps], goal_cases)
  case (1 cur h1)
  then have "holds (Join dr ''home.img'') c n h1" using holds_view assms(2) by blast
  then show ?case
    using shrink_holds [of "Join dr ''home.img''" c n h1 "mib_bytes m"]
    by (simp add: wp_return holds_has_files assms(1))
qed

lemma ensure_existing:
  assumes d: "dir rdir u = Inr dr" and path: "path = Join dr ''home.img''" and h: "holds path c n h"
    and stat: "\<And>h x. view h path = Some x \<Longrightarrow> fst (stat_size H path h) = Inr (fsize x)"
  shows "wp (EnsureDisk H rdir u m)
           (\<lambda>r h'. holds path c n h' \<and>
              (\<forall>q. r = Inr q \<longrightarrow> q = path \<and> holds path c (mib_bytes m) h')) h"
  unfolding EnsureDisk_def d sum.case Let_def path [symmetric]
proof (rule wp_bindI [OF wp_keeps_view [OF mkdir_keeps h]], goal_cases)
  case (1 md h1)
  then obtain x s where x: "view h1 path = Some x" "fsys x = Some (s, c)" "s \<le> fsize x" "n \<le> fsize x"
    by (auto simp: holds_def)
  have st: "wp (State (stat_size H path)) (\<lambda>r h'. r = Inr (fsize x) \<and> view h' = view h1) h1"
    using stat [OF x(1)] by (simp add: wp_State stat_keeps)
  show ?case
  proof (cases md)
    case None
    show ?thesis
      unfolding None option.case
    proof (rule wp_bindI [OF st], goal_cases)
      case (1 r h2)
      then have r: "r = Inr (fsize x)" and v2: "view h2 path = Some x" using x(1) by simp_all
      show ?case
      proof (cases "fsize x < mib_bytes m")
        case True
        have "holds path c n h2" by (rule holdsI [OF v2 x(2-4)])
        from grow_holds [OF this, of "mib_bytes m"] v2 True
        have g: "wp (growDisk H path (mib_bytes m))
            (\<lambda>e h'. holds path c n h' \<and> (e = None \<longrightarrow> holds path c (mib_bytes m) h')) h2" by simp
        show ?thesis
          unfolding r sum.case if_P [OF True]
          by (rule wp_bindI [OF g]) (auto simp: wp_return split: option.split)
      next
        case False
        then show ?thesis
          using holdsI [OF v2 x(2,3), of n] holdsI [OF v2 x(2,3), of "mib_bytes m"] x(4)
          by (simp add: r wp_return)
      qed
    qed
  qed (use 1 in \<open>simp add: wp_return\<close>)
qed

lemma ensure_new:
  assumes d: "dir rdir u = Inr dr" and path: "path = Join dr ''home.img''" and h: "view h path = None"
  shows "wp (EnsureDisk H rdir u m)
           (\<lambda>r h'. \<forall>q. r = Inr q \<longrightarrow> q = path \<and> holds path blank (mib_bytes m) h') h"
proof -
  have s: "\<exists>e. fst (stat_size H path h1) = Inl e" if "view h1 path = None" for h1
    using stat_ok [of path h1] that by (cases "fst (stat_size H path h1)") auto
  have t: "view (snd (truncate_file H path k h1)) path = Some \<lparr>fsize = k, fsys = None\<rparr>"
    if "view h1 path = Some \<lparr>fsize = 0, fsys = None\<rparr>" "fst (truncate_file H path k h1) = None" for k h1
    using truncate_ok [OF that(2)] that(1) by (auto simp: cut_to_def)
  have m: "holds path blank k (snd (run_cmd H (mkfs_cmd path) h1))"
    if "view h1 path = Some \<lparr>fsize = k, fsys = None\<rparr>" "fst (fst (run_cmd H (mkfs_cmd path) h1)) = Exit 0" for k h1
    using mkfs_ok [OF that(2)] that(1) by (auto simp: holds_def)
  let ?h1 = "snd (mkdir_all H dr h)"
  let ?h2 = "snd (stat_size H path ?h1)"
  let ?h3 = "snd (create_file H path ?h2)"
  let ?h4 = "snd (truncate_file H path (mib_bytes m) ?h3)"
  have v1: "view ?h1 path = None" using h by (simp add: mkdir_keeps)
  from s [OF v1] obtain e where e: "fst (stat_size H path ?h1) = Inl e" by blast
  have v3: "fst (create_file H path ?h2) = None \<Longrightarrow> view ?h3 path = Some \<lparr>fsize = 0, fsys = None\<rparr>"
    using create_ok by simp
  show ?thesis
    unfolding EnsureDisk_def d sum.case Let_def path [symmetric]
    using e v3 t [of ?h3 "mib_bytes m"] m [of ?h4 "mib_bytes m"]
    by (simp add: wp_bind wp_State wp_return split_beta split: option.split)
qed

lemma Delete_confined:
  assumes "dir rdir u = Inr dr" and "\<not> has_prefix q (dr @ ''/'')" and "q \<noteq> dr"
  shows "view (snd (run_state (DeleteHome H rdir u) h)) q = view h q"
  using remove_all_only [OF assms(2,3)] by (simp add: DeleteHome_def assms(1))

end

section \<open>Directories\<close>

lemma split_on_no_sep': "c \<notin> set w \<Longrightarrow> split_on c w = [w]"
  by (induction w) auto

lemma split_on_append': "c \<notin> set w \<Longrightarrow> split_on c (w @ c # s) = w # split_on c s"
  by (induction w) auto

lemma split_on_snoc: "c \<notin> set w \<Longrightarrow> split_on c (s @ c # w) = split_on c s @ [w]"
  by (induction s) (auto simp: split_on_no_sep' split: list.splits)

lemma clean_parts_snoc:
  "w \<noteq> [] \<Longrightarrow> w \<noteq> ''.'' \<Longrightarrow> w \<noteq> ''..'' \<Longrightarrow>
   clean_parts b acc (ws @ [w]) = clean_parts b acc ws @ [w]"
  by (induction b acc ws rule: clean_parts.induct) (auto split: list.splits)

lemma slash_join_snoc: "ws \<noteq> [] \<Longrightarrow> slash_join (ws @ [w]) = slash_join ws @ CHR ''/'' # w"
  by (induction ws rule: slash_join.induct) (auto split: list.splits)

lemma id_char_no_slash: "validID s \<Longrightarrow> CHR ''/'' \<notin> set s"
  by (auto simp: validID_def list_all_iff id_char_def is_digit_def)

definition part_ok :: "string \<Rightarrow> bool" where
  "part_ok w \<longleftrightarrow> w \<noteq> [] \<and> w \<noteq> ''.'' \<and> CHR ''/'' \<notin> set w"

lemma split_on_sep: "w \<in> set (split_on c s) \<Longrightarrow> c \<notin> set w"
  by (induction s arbitrary: w) (auto split: if_splits list.splits)

lemma clean_parts_ok:
  "list_all part_ok acc \<Longrightarrow> list_all (\<lambda>w. CHR ''/'' \<notin> set w) ws \<Longrightarrow>
   list_all part_ok (clean_parts b acc ws)"
  by (induction b acc ws rule: clean_parts.induct) (auto simp: part_ok_def split: list.splits)

lemma cleaned_parts_ok: "list_all part_ok (clean_parts b [] (split_on (CHR ''/'') s))"
  by (rule clean_parts_ok) (auto simp: list_all_iff dest: split_on_sep)

lemma slash_join_ok:
  assumes "list_all part_ok ws"
  shows "slash_join ws = [] \<longleftrightarrow> ws = []" "slash_join ws \<noteq> ''.''" "slash_join ws \<noteq> ''/''"
  using assms by (induction ws rule: slash_join.induct)
    (auto simp: part_ok_def append_eq_Cons_conv)

definition child :: "string \<Rightarrow> string \<Rightarrow> string" where
  "child b w = (if b = ''.'' then w else if b = ''/'' then CHR ''/'' # w else b @ CHR ''/'' # w)"

lemma Clean_child:
  assumes "a \<noteq> []" and w: "w \<noteq> []" "w \<noteq> ''.''" "w \<noteq> ''..''" "CHR ''/'' \<notin> set w"
  shows "Clean (a @ CHR ''/'' # w) = child (Clean a) w"
proof -
  let ?b = "hd a = CHR ''/''"
  let ?ws = "clean_parts ?b [] (split_on (CHR ''/'') a)"
  note ok = slash_join_ok [OF cleaned_parts_ok [of ?b a]]
  have ws: "clean_parts b [] (split_on (CHR ''/'') (a @ CHR ''/'' # w)) =
      clean_parts b [] (split_on (CHR ''/'') a) @ [w]" for b
    using w by (simp add: split_on_snoc clean_parts_snoc)
  have "hd (a @ CHR ''/'' # w) = hd a" using assms(1) by simp
  then have l: "Clean (a @ CHR ''/'' # w) =
      (if ?b then CHR ''/'' # slash_join (?ws @ [w]) else slash_join (?ws @ [w]))"
    using ws by (simp add: Clean_def Let_def)
  have r: "Clean a = (if ?b then CHR ''/'' # slash_join ?ws else if ?ws = [] then ''.'' else slash_join ?ws)"
    using assms(1) by (simp add: Clean_def Let_def)
  show ?thesis
    unfolding l r using ok by (cases "?ws = []") (auto simp: child_def slash_join_snoc)
qed

lemma Join_child:
  assumes "w \<noteq> []" "w \<noteq> ''.''" "w \<noteq> ''..''" "CHR ''/'' \<notin> set w"
  shows "Join a w = child (Clean a) w"
proof (cases "a = []")
  case True
  have c: "Clean w = w"
    using assms by (simp add: Clean_def Let_def split_on_no_sep' hd_in_set) (metis hd_in_set)
  show ?thesis using True assms c by (simp add: Join_def child_def Clean_def)
qed (use assms Clean_child in \<open>simp add: Join_def\<close>)

lemma dir_child:
  assumes "dir rdir u = Inr p"
  shows "p = child (Clean rdir) u" and "CHR ''/'' \<notin> set u" and "u \<noteq> []" and "u \<noteq> ''.''" and "u \<noteq> ''..''"
  using assms Join_child [of u rdir] id_char_no_slash [of u] by (auto simp: dir_def split: if_splits)

text \<open>Cleaning is idempotent.\<close>

definition dots_first :: "bool \<Rightarrow> string list \<Rightarrow> bool" where
  "dots_first b ws \<longleftrightarrow>
     (\<exists>k vs. ws = replicate k ''..'' @ vs \<and> ''..'' \<notin> set vs \<and> (b \<longrightarrow> k = 0))"

lemma dots_first_snoc:
  assumes "dots_first b ws" and "w \<noteq> ''..''"
  shows "dots_first b (ws @ [w])"
proof -
  from assms(1) obtain k vs where "ws = replicate k ''..'' @ vs" "''..'' \<notin> set vs" "b \<longrightarrow> k = 0"
    by (auto simp: dots_first_def)
  then show ?thesis
    unfolding dots_first_def using assms(2) by (intro exI [of _ k] exI [of _ "vs @ [w]"]) auto
qed

lemma dots_first_butlast: "dots_first b (ws @ [w]) \<Longrightarrow> w \<noteq> ''..'' \<Longrightarrow> dots_first b ws"
proof -
  assume "dots_first b (ws @ [w])" and w: "w \<noteq> ''..''"
  then obtain k vs where k: "ws @ [w] = replicate k ''..'' @ vs" "''..'' \<notin> set vs" "b \<longrightarrow> k = 0"
    by (auto simp: dots_first_def)
  show ?thesis
  proof (cases vs rule: rev_cases)
    case Nil
    with k(1) have "w = last (replicate k ''..'')" "k \<noteq> 0" by (metis append_Nil2 last_snoc, cases k, auto)
    with w show ?thesis by simp
  next
    case (snoc us v)
    with k show ?thesis unfolding dots_first_def by auto
  qed
qed

lemma dots_first_dots: "dots_first b (ws @ [''..'']) \<Longrightarrow> dots_first b (ws @ [''..'', ''..''])"
proof -
  assume "dots_first b (ws @ [''..''])"
  then obtain k vs where k: "ws @ [''..''] = replicate k ''..'' @ vs" "''..'' \<notin> set vs" "b \<longrightarrow> k = 0"
    by (auto simp: dots_first_def)
  then have "vs = []" by (cases vs rule: rev_cases) auto
  with k have "ws @ [''..'', ''..''] = replicate (Suc k) ''..'' @ []" "k \<noteq> 0"
    by (simp_all add: replicate_append_same [symmetric]) (cases k, auto)
  then show ?thesis using k(3) unfolding dots_first_def by (metis empty_iff empty_set)
qed

lemma clean_parts_dots: "dots_first b (rev acc) \<Longrightarrow> dots_first b (clean_parts b acc ws)"
proof (induction b acc ws rule: clean_parts.induct)
  case (2 b acc w ws)
  show ?case
  proof (cases "w = ''..'' \<and> acc = []")
    case True
    have "dots_first b (if b then [] else [''..''])"
      unfolding dots_first_def by (cases b) (auto intro: exI [of _ "0::nat"] exI [of _ "Suc 0"])
    with 2 True show ?thesis by (cases b) auto
  next
    case False
    with 2 dots_first_snoc [of b "rev acc" w] show ?thesis
      by (cases acc)
        (auto simp: dots_first_snoc dots_first_dots dest: dots_first_butlast)
  qed
qed simp

lemma clean_parts_normal:
  "list_all part_ok ws \<Longrightarrow> ''..'' \<notin> set ws \<Longrightarrow> clean_parts b acc ws = rev acc @ ws"
  by (induction ws arbitrary: acc) (auto simp: part_ok_def)

lemma clean_parts_replicate:
  "\<not> b \<Longrightarrow> set acc \<subseteq> {''..''} \<Longrightarrow>
   clean_parts b acc (replicate k ''..'' @ ws) = clean_parts b (replicate k ''..'' @ acc) ws"
proof (induction k arbitrary: acc)
  case (Suc k)
  have "clean_parts b acc (''..'' # replicate k ''..'' @ ws) =
      clean_parts b (''..'' # acc) (replicate k ''..'' @ ws)"
    using Suc.prems by (cases acc) auto
  also have "\<dots> = clean_parts b (replicate k ''..'' @ ''..'' # acc) ws"
    using Suc by (intro Suc.IH) auto
  finally show ?case by (simp add: replicate_app_Cons_same)
qed simp

lemma clean_parts_idem:
  assumes "list_all part_ok ws" and "dots_first b ws"
  shows "clean_parts b [] ws = ws"
proof -
  from assms(2) obtain k vs where k: "ws = replicate k ''..'' @ vs" "''..'' \<notin> set vs" "b \<longrightarrow> k = 0"
    by (auto simp: dots_first_def)
  show ?thesis
  proof (cases b)
    case True
    with k assms(1) show ?thesis by (simp add: clean_parts_normal)
  next
    case False
    with k assms(1) show ?thesis
      by (simp add: clean_parts_replicate clean_parts_normal)
  qed
qed

lemma split_slash_join:
  "ws \<noteq> [] \<Longrightarrow> list_all part_ok ws \<Longrightarrow> split_on (CHR ''/'') (slash_join ws) = ws"
  by (induction ws rule: slash_join.induct)
    (auto simp: part_ok_def split_on_no_sep' split_on_append')

lemma slash_join_hd: "list_all part_ok ws \<Longrightarrow> ws \<noteq> [] \<Longrightarrow> slash_join ws \<noteq> [] \<and> hd (slash_join ws) \<noteq> CHR ''/''"
  by (cases ws rule: slash_join.cases) (auto simp: part_ok_def hd_append dest: hd_in_set)

lemma Clean_idem [simp]: "Clean (Clean p) = Clean p"
proof -
  obtain b where b: "b = (p \<noteq> [] \<and> hd p = CHR ''/'')" by blast
  obtain ws where ws: "ws = clean_parts b [] (split_on (CHR ''/'') p)" by blast
  have ok: "list_all part_ok ws" unfolding ws by (rule cleaned_parts_ok)
  have "dots_first b ws" unfolding ws by (rule clean_parts_dots) (auto simp: dots_first_def)
  note idem = clean_parts_idem [OF ok this]
  have c: "Clean p = (if b then CHR ''/'' # slash_join ws else if ws = [] then ''.'' else slash_join ws)"
    by (simp add: Clean_def Let_def b ws)
  show ?thesis
  proof (cases "ws = []")
    case True
    then show ?thesis unfolding c by (simp add: Clean_def)
  next
    case False
    note sp = split_slash_join [OF False ok] and hd = slash_join_hd [OF ok False]
    show ?thesis
      using sp idem hd False unfolding c
      by (cases b) (simp_all add: Clean_def [of "CHR ''/'' # slash_join ws"] Clean_def [of "slash_join ws"] Let_def)
  qed
qed

lemma Join_in_child:
  assumes "dir rdir u = Inr p"
  shows "Join p ''home.img'' = p @ ''/home.img''" and "p \<noteq> []" and "p \<noteq> ''.''"
proof -
  note d = dir_child [OF assms]
  have p: "p = Join rdir u" using assms by (auto simp: dir_def split: if_splits)
  have "Clean p = p"
  proof (cases "rdir = []")
    case True
    then show ?thesis using p d(3) by (simp add: Join_def)
  next
    case False
    then show ?thesis using p d(3) by (simp add: Join_def)
  qed
  moreover have "p \<noteq> []" "p \<noteq> ''.''" "p \<noteq> ''/''"
    using d slash_join_ok(1) by (auto simp: child_def split: if_splits dest!: arg_cong [of _ "[_]" length])
  moreover have "Join p ''home.img'' = child (Clean p) ''home.img''" by (rule Join_child) auto
  ultimately show "Join p ''home.img'' = p @ ''/home.img''" "p \<noteq> []" "p \<noteq> ''.''"
    by (simp_all add: child_def)
qed

lemma no_slash_prefix:
  "CHR ''/'' \<notin> set u \<Longrightarrow> CHR ''/'' \<notin> set v \<Longrightarrow> u @ CHR ''/'' # x = v @ CHR ''/'' # y \<Longrightarrow> u = v"
proof (induction u arbitrary: v)
  case (Cons a u)
  then show ?case by (cases v) auto
qed (auto simp: append_eq_Cons_conv Cons_eq_append_conv)

lemma homes_apart:
  assumes u: "dir rdir u = Inr du" and v: "dir rdir v = Inr dv" and "u \<noteq> v"
  shows "\<not> has_prefix (Join dv ''home.img'') (du @ ''/'')" and "Join dv ''home.img'' \<noteq> du"
proof -
  note du = dir_child [OF u] and dv = dir_child [OF v]
  have q: "Join dv ''home.img'' = dv @ ''/home.img''" by (rule Join_in_child(1) [OF v])
  obtain b where b: "du = b @ u" "dv = b @ v"
    using du(1) dv(1) by (auto simp: child_def split: if_splits intro: that [of "[]"] that [of "''/''"]
        that [of "Clean rdir @ ''/''"])
  show "\<not> has_prefix (Join dv ''home.img'') (du @ ''/'')"
  proof
    assume "has_prefix (Join dv ''home.img'') (du @ ''/'')"
    then obtain x where "dv @ ''/home.img'' = (du @ ''/'') @ x"
      by (auto simp: has_prefix_def q cut_prefix_Some_iff)
    then have "v @ CHR ''/'' # ''home.img'' = u @ CHR ''/'' # x" by (simp add: b)
    from no_slash_prefix [OF dv(2) du(2) this] \<open>u \<noteq> v\<close> show False by simp
  qed
  show "Join dv ''home.img'' \<noteq> du"
  proof
    assume "Join dv ''home.img'' = du"
    with q have "dv @ ''/home.img'' = du" by simp
    then have "u = v @ ''/home.img''" by (simp add: b)
    with du(2) show False by simp
  qed
qed

section \<open>Properties\<close>

text \<open>
  C30. A user's directory is confined. An accepted user id gives the child of the cleaned root with
  that name, so it contains no separator, is not the root or its parent, and different users never
  share a directory; an id that is empty, over 128 bytes, a dot name or has a separator is refused.
\<close>

theorem dir_is_confined:
  "(\<forall>p. dir rdir u = Inr p \<longrightarrow> p = child (Clean rdir) u \<and> CHR ''/'' \<notin> set u \<and>
      u \<noteq> [] \<and> u \<noteq> ''.'' \<and> u \<noteq> ''..'' \<and> (\<forall>v. dir rdir v = Inr p \<longrightarrow> v = u)) \<and>
   (u = [] \<or> u = ''.'' \<or> u = ''..'' \<or> length u > 128 \<or> CHR ''/'' \<in> set u \<longrightarrow> (\<exists>e. dir rdir u = Inl e))"
proof (intro conjI allI impI)
  fix p assume d: "dir rdir u = Inr p"
  note c = dir_child [OF d]
  show "p = child (Clean rdir) u" "CHR ''/'' \<notin> set u" "u \<noteq> []" "u \<noteq> ''.''" "u \<noteq> ''..''"
    by (fact c)+
  fix v assume "dir rdir v = Inr p"
  from dir_child(1) [OF this] c(1) show "v = u" by (auto simp: child_def split: if_splits)
next
  assume "u = [] \<or> u = ''.'' \<or> u = ''..'' \<or> length u > 128 \<or> CHR ''/'' \<in> set u"
  then show "\<exists>e. dir rdir u = Inl e"
    using id_char_no_slash [of u] by (auto simp: dir_def)
qed


text \<open>
  A new home is complete. Where there is no image, a successful \<^verbatim>\<open>EnsureDisk\<close> leaves one of at
  least the requested size with an empty file system.
\<close>

theorem ensure_makes_home:
  assumes host: "disk_host H view blank" and d: "dir rdir u = Inr dr"
    and h: "view h (Join dr ''home.img'') = None"
    and run: "run_state (EnsureDisk H rdir u m) h = (Inr q, h')"
  shows "q = Join dr ''home.img'' \<and> image_holds view q blank (mib_bytes m) h'"
proof -
  have "wp (EnsureDisk H rdir u m) (\<lambda>r h'. \<forall>q. r = Inr q \<longrightarrow> q = Join dr ''home.img'' \<and>
      image_holds view (Join dr ''home.img'') blank (mib_bytes m) h') h"
    by (rule disk_host.ensure_new [where view = view and h = h and path = "Join dr ''home.img''",
          OF host d refl h])
  from wp_runI [OF this run] show ?thesis by blast
qed


text \<open>
  Deleting a user's home never touches the image of another user.
\<close>

theorem delete_is_confined:
  assumes host: "disk_host H view blank" and u: "dir rdir u = Inr du" and v: "dir rdir v = Inr dv"
    and "u \<noteq> v"
  shows "view (snd (run_state (DeleteHome H rdir u) h)) (Join dv ''home.img'') = view h (Join dv ''home.img'')"
  by (rule disk_host.Delete_confined [OF host u homes_apart [OF u v \<open>u \<noteq> v\<close>]])

end
