(* ===== verification/Userhome_Demo.thy ===== *)
theory Userhome_Demo
  imports Userhome_Props
begin

text \<open>
  A host in memory, on which the laws of \<open>disk_host\<close> hold and on which the disks of \<open>Userhome\<close> can
  be evaluated: \<open>bad n\<close> makes its \<open>n\<close>-th operation fail. It is the instance of the locale, carries
  the witnesses, and shows what happens when a step of the disk code is interrupted.
\<close>

section \<open>The host\<close>

record mhost =
  disks :: "string \<rightharpoonup> string disk"
  tick :: nat

abbreviation io_error :: goerr where
  "io_error \<equiv> Foreign ''input/output error''"

definition tk :: "mhost \<Rightarrow> mhost" where
  "tk h = h\<lparr>tick := Suc (tick h)\<rparr>"

definition set_disk :: "string \<Rightarrow> string disk \<Rightarrow> mhost \<Rightarrow> mhost" where
  "set_disk p d h = h\<lparr>disks := (disks h)(p \<mapsto> d)\<rparr>"

lemma disks_simps [simp]:
  "disks (tk h) = disks h" "tick (tk h) = Suc (tick h)"
  "disks (set_disk p d h) = (disks h)(p \<mapsto> d)" "tick (set_disk p d h) = tick h"
  by (simp_all add: tk_def set_disk_def)

definition with_fs ::
  "string \<Rightarrow> (string disk \<Rightarrow> int \<Rightarrow> string \<Rightarrow> (proc \<times> string) \<times> mhost) \<Rightarrow> mhost \<Rightarrow> (proc \<times> string) \<times> mhost" where
  "with_fs p f h =
     (case disks h p of
        None \<Rightarrow> ((Exit 8, ''No such file''), h)
      | Some d \<Rightarrow> (case fsys d of None \<Rightarrow> ((Exit 8, ''Bad magic number''), h) | Some (s, c) \<Rightarrow> f d s c))"

fun mem_tool :: "string list \<Rightarrow> mhost \<Rightarrow> (proc \<times> string) \<times> mhost" where
  "mem_tool [c, p] h =
     (if c = ''resize2fs''
      then with_fs p (\<lambda>d s x. ((Exit 0, []), set_disk p (d\<lparr>fsys := Some (fsize d, x)\<rparr>) h)) h
      else ((NotStarted, []), h))"
| "mem_tool [c, a, p] h =
     (if c = ''e2fsck'' then with_fs p (\<lambda>d s x. ((Exit 0, []), h)) h
      else if c = ''dumpe2fs'' then ((Exit 0, ''Block size:   4096''), h)
      else if c = ''resize2fs'' \<and> a = ''-P'' then
        (if p \<noteq> [] \<and> last p = CHR ''K'' then ((Exit 1, []), h)
         else with_fs p (\<lambda>d s x. ((Exit 0, ''minimum size: '' @ dec_nat (length x div 4096 + 1)), h)) h)
      else if c = ''resize2fs'' then
        (case sscanf_d p of
           None \<Rightarrow> ((Exit 1, []), h)
         | Some k \<Rightarrow>
             with_fs a (\<lambda>d s x. ((Exit 0, []), set_disk a (d\<lparr>fsys := Some (1024 * k, x)\<rparr>) h)) h)
      else ((NotStarted, []), h))"
| "mem_tool [c, a, b, e, p] h =
     (case disks h p of
        None \<Rightarrow> ((Exit 1, []), h)
      | Some d \<Rightarrow> ((Exit 0, []), set_disk p (d\<lparr>fsys := Some (fsize d, [])\<rparr>) h))"
| "mem_tool _ h = ((NotStarted, []), h)"

definition mem_host :: "(nat \<Rightarrow> bool) \<Rightarrow> mhost host" where
  "mem_host bad =
     \<lparr>mkdir_all = (\<lambda>p h. (if bad (tick h) then Some io_error else None, tk h)),
      stat_size = (\<lambda>p h. (if bad (tick h) then Inl io_error
                          else case disks h p of None \<Rightarrow> Inl (Foreign ''no such file'')
                                               | Some d \<Rightarrow> Inr (fsize d), tk h)),
      create_file = (\<lambda>p h. if bad (tick h) then (Some io_error, tk h)
                           else (None, set_disk p \<lparr>fsize = 0, fsys = None\<rparr> (tk h))),
      truncate_file = (\<lambda>p n h. if bad (tick h) then (Some io_error, tk h)
                               else case disks h p of None \<Rightarrow> (Some io_error, tk h)
                                    | Some d \<Rightarrow> (None, set_disk p (cut_to n d) (tk h))),
      remove_file = (\<lambda>p h. if bad (tick h) then (Some io_error, tk h)
                           else (None, (tk h)\<lparr>disks := (disks h)(p := None)\<rparr>)),
      remove_all = (\<lambda>p h. if bad (tick h) then (Some io_error, tk h)
                          else (None, (tk h)\<lparr>disks := (\<lambda>q. if q = p \<or> has_prefix q (p @ ''/'') then None
                                                           else disks h q)\<rparr>)),
      run_cmd = (\<lambda>args h. if bad (tick h) then ((NotStarted, []), tk h) else mem_tool args (tk h))\<rparr>"

lemma not_sp: "is_digit c \<Longrightarrow> \<not> is_space c"
  by (auto simp: is_digit_def is_space_def)

lemma takeWhile_digits: "list_all is_digit xs \<Longrightarrow> takeWhile is_digit (xs @ ''K'') = xs"
  by (induction xs) (auto simp: is_digit_def)

lemma sscanf_K: "sscanf_d (dec_int k @ ''K'') = None \<or> sscanf_d (dec_int k @ ''K'') = Some k"
proof (cases "k < 0")
  case True
  then show ?thesis
    using takeWhile_digits [OF dec_nat_digits [of "nat (- k)"]]
    by (simp add: dec_int_def sscanf_d_def Let_def is_space_def)
next
  case False
  obtain c cs where c: "dec_nat (nat k) = c # cs" by (cases "dec_nat (nat k)") auto
  then have "is_digit c" using hd_dec_nat_digit [of "nat k"] by simp
  then have "\<not> is_space c" "c \<noteq> CHR ''-''" "c \<noteq> CHR ''+''" by (auto simp: not_sp)
  moreover have "takeWhile is_digit (c # cs @ ''K'') = c # cs"
    using takeWhile_digits [OF dec_nat_digits [of "nat k"]] c by simp
  moreover have "dec_val (c # cs) = nat k" using dec_val_dec_nat [of "nat k"] c by simp
  ultimately show ?thesis using False c by (simp add: dec_int_def sscanf_d_def Let_def)
qed

lemma same_upd [simp]: "\<exists>x. f = f(p := x)"
  by (rule exI [of _ "f p"]) simp

interpretation mem_disks: disk_host "mem_host bad" disks "[]" for bad
proof (unfold_locales, goal_cases)
  case (12 p k h)
  then show ?case
    using sscanf_K [of k]
    by (auto simp: mem_host_def with_fs_def split: if_splits option.splits)
next
  case (13 p k h)
  then show ?case
    by (auto simp: mem_host_def with_fs_def split: if_splits option.splits)
qed (auto simp: mem_host_def with_fs_def mkfs_cmd_def fsck_failed_def split: if_splits option.splits)

section \<open>Examples\<close>

abbreviation good_host :: "mhost host" where
  "good_host \<equiv> mem_host (\<lambda>_. False)"

definition img :: string where "img = ''/homes/alice/home.img''"

definition mib :: int where "mib = 1048576"

text \<open>Alice's home of one MiB with some files.\<close>

definition home_host :: mhost where
  "home_host = \<lparr>disks = [img \<mapsto> \<lparr>fsize = mib, fsys = Some (mib, ''data'')\<rparr>], tick = 0\<rparr>"

definition empty_host :: mhost where
  "empty_host = \<lparr>disks = Map.empty, tick = 0\<rparr>"

lemma alice_dir [simp]: "dir ''/homes'' ''alice'' = Inr ''/homes/alice''"
  by code_simp

lemma bob_dir: "dir ''/homes'' ''bob'' = Inr ''/homes/bob''"
  by code_simp

lemma alice_img [simp]: "Join ''/homes/alice'' ''home.img'' = img"
  by code_simp

lemma home_holds: "image_holds disks img ''data'' 0 home_host"
  by (rule mem_disks.holdsI [where d = "\<lparr>fsize = mib, fsys = Some (mib, ''data'')\<rparr>" and s = mib])
    (simp_all add: home_host_def mib_def)

lemma good_stat:
  "disks h p = Some x \<Longrightarrow> fst (stat_size good_host p h) = Inr (fsize x)"
  by (simp add: mem_host_def)

lemma run_split: "run_state m s = (fst (run_state m s), snd (run_state m s))"
  by simp

theorem dir_is_confined_witness:
  "dir ''/homes'' ''bob'' \<noteq> Inr ''/homes/alice'' \<and> (\<exists>e. dir ''/homes'' ''a/b'' = Inl e)"
  using dir_is_confined [of "''/homes''" "''alice''"] dir_is_confined [of "''/homes''" "''a/b''"] alice_dir
  by (auto dest: sym)


theorem ensure_makes_home_witness:
  "image_holds disks img [] (mib_bytes 1)
     (snd (run_state (EnsureDisk good_host ''/homes'' ''alice'' 1) empty_host))"
proof -
  have "fst (run_state (EnsureDisk good_host ''/homes'' ''alice'' 1) empty_host) = Inr img"
    by code_simp
  then have run: "run_state (EnsureDisk good_host ''/homes'' ''alice'' 1) empty_host =
      (Inr img, snd (run_state (EnsureDisk good_host ''/homes'' ''alice'' 1) empty_host))"
    by (metis prod.collapse)
  have "disks empty_host (Join ''/homes/alice'' ''home.img'') = None" by (simp add: empty_host_def)
  from ensure_makes_home [OF mem_disks.disk_host_axioms alice_dir this run] show ?thesis by simp
qed


theorem delete_is_confined_witness:
  "disks (snd (run_state (DeleteHome good_host ''/homes'' ''bob'') home_host)) img = disks home_host img"
  using delete_is_confined [OF mem_disks.disk_host_axioms [of "\<lambda>_. False"] bob_dir alice_dir, of home_host]
  by simp

section \<open>Interrupted steps\<close>

text \<open>
  A \<^verbatim>\<open>stat\<close> that fails for another reason than a missing file is taken for a missing file: the image
  is created anew, and with it the home of the user is formatted.
\<close>

theorem stat_error_destroys_home:
  "case run_state (EnsureDisk (mem_host (\<lambda>n. n = 1)) ''/homes'' ''alice'' 1) home_host of
     (r, h) \<Rightarrow> files (the (disks home_host img)) = Some ''data'' \<and>
       r = Inr img \<and> files (the (disks h img)) = Some []"
  by code_simp

text \<open>
  A growth whose \<^verbatim>\<open>resize2fs\<close> fails is reported once: the file already has its new size, so the next
  call succeeds although the file system still has the old one.
\<close>

theorem failed_growth_is_forgotten:
  "case run_state (EnsureDisk (mem_host (\<lambda>n. n = 4)) ''/homes'' ''alice'' 2) home_host of
     (r, h) \<Rightarrow> isl r \<and>
       (case run_state (EnsureDisk good_host ''/homes'' ''alice'' 2) h of
          (r', h') \<Rightarrow> r' = Inr img \<and> disks h' img = Some \<lparr>fsize = 2 * mib, fsys = Some (mib, ''data'')\<rparr>)"
  by code_simp

text \<open>
  A creation whose truncation fails leaves an empty image behind, which is never formatted: the next
  call takes it for an existing image, gives the file its size and fails in \<^verbatim>\<open>e2fsck\<close>; the one after
  it finds the size right and succeeds, with an image that has no file system.
\<close>

theorem failed_creation_sticks:
  "case run_state (EnsureDisk (mem_host (\<lambda>n. n = 3)) ''/homes'' ''alice'' 1) empty_host of
     (r, h) \<Rightarrow> isl r \<and>
       (case run_state (EnsureDisk good_host ''/homes'' ''alice'' 1) h of
          (r', h') \<Rightarrow> isl r' \<and>
            (case run_state (EnsureDisk good_host ''/homes'' ''alice'' 1) h' of
               (r'', h'') \<Rightarrow> r'' = Inr img \<and> disks h'' img = Some \<lparr>fsize = mib, fsys = None\<rparr>))"
  by code_simp

end
