(* ===== verification/Service_Demo.thy ===== *)
theory Service_Demo
  imports Service_Invariant Store_Props Userhome_Demo
begin

text \<open>
  What the service relies on in a VM manager, as the locale \<open>vm_manager\<close>, and surroundings in which
  the service can be evaluated: the server in memory, the host in memory, and a VM manager that is a
  list of the ids of its VMs. They carry the witnesses of the service's properties.
\<close>

text \<open>
  \<open>alive\<close> are the VMs that may still run in a state of the manager. A delete that succeeds leaves the
  VM dead, and so does an answer \<open>LiveNo\<close> (\<^verbatim>\<open>LiveNo\<close> is documented as ``definitively not running'').
\<close>

locale vm_manager =
  fixes M :: "'v vm_manager_ops" and alive :: "'v \<Rightarrow> string set"
  assumes delete_kills: "vm_delete M i v = (None, v') \<Longrightarrow> i \<notin> alive v'"
    and no_means_dead: "vm_is_live M i v = (LiveNo, v') \<Longrightarrow> i \<notin> alive v'"
begin

text \<open>What \<^verbatim>\<open>finishTeardown\<close> knows when it goes on to the store.\<close>

lemma torn_down:
  assumes "vm_delete M i v = (d, v1)" and "vm_is_live M i v1 = (l, v2)"
  shows "d = None \<Longrightarrow> i \<notin> alive v1" and "l = LiveNo \<Longrightarrow> i \<notin> alive v2"
  using assms delete_kills no_means_dead by auto

end

definition demo_vmm :: "string list vm_manager_ops" where
  "demo_vmm =
     \<lparr>vm_create = (\<lambda>sp v. (Inr ''10.4.0.2'', SpecID sp # v)),
      vm_delete = (\<lambda>i v. (None, removeAll i v)),
      vm_is_live = (\<lambda>i v. (if i \<in> set v then LiveYes else LiveNo, v)),
      vm_log_tail = (\<lambda>i n v. ([], v)),
      vm_exec = (\<lambda>i argv v. (Inr (''ssh-ed25519 '' @ replicate 68 (CHR ''A''), 0), v)),
      vm_cleanup_stopped = (\<lambda>v. (Inr 0, v)),
      vm_running_count = (\<lambda>v. (Inr (int (length v)), v))\<rparr>"

interpretation demo_vms: vm_manager demo_vmm set
  by unfold_locales (auto simp: demo_vmm_def split: if_splits)

definition demo_cfg :: config where
  "demo_cfg =
     \<lparr>BindAddr = ''0.0.0.0:8200'', DragonflyURL = ''redis://127.0.0.1'', BackendURL = ''https://api'',
      BackendAPIKey = ''key'', NoiseBackendHost = ''10.88.0.1'', NoiseBackendPort = [], BridgePort = ''4000'',
      XClientID = [], XClientSecret = [], ContainerdSock = ''/run/containerd.sock'', Namespace = ''sandbox'',
      Runtime = ''kata'', RuntimeConfig = ''/kata.toml'', KataRuntimeBin = ''kata-runtime'',
      Snapshotter = ''devmapper'', RootfsImage = ''rootfs'', CNIBinDir = ''/opt/cni'', CNIConfDir = ''/etc/cni'',
      UserHomesDir = ''/homes'', MaxVMs = 2, HostMemoryReserveMiB = 4096, VMMemoryMiB = 2048,
      SSHPublicHost = ''198.51.100.7'', SSHPortStart = 40000, SSHPortEnd = 40001, SSHAuthURL = ''https://auth''\<rparr>"

text \<open>Sixteen bytes whose hexadecimal form is an id of \<open>bob\<close>.\<close>

definition demo_bytes :: "8 word list" where
  "demo_bytes = replicate 16 17"

text \<open>Surroundings with a given VM manager, and those with the list.\<close>

definition demo_with :: "'v vm_manager_ops \<Rightarrow> (mem, 'v, mhost) surroundings" where
  "demo_with M =
     \<lparr>rds = calm_env, vmm = M, hostops = mem_host (\<lambda>_. False), cfg = demo_cfg,
      now_ms = (\<lambda>n. 1000 * of_nat n), now_ns = (\<lambda>n. 1000000000 * int n),
      random16 = (\<lambda>_. demo_bytes), statfs = (\<lambda>_. Inr (1000, 600)),
      meminfo = (\<lambda>_. Inr (''MemTotal: 32000000 kB'' @ [CHR ''\<newline>''] @ ''MemAvailable: 16000000 kB'')),
      mint = (\<lambda>_ u i ttl. Inr ''token''), sha256 = (\<lambda>_. replicate 32 0),
      may_listen = (\<lambda>_ _ _. True), map_range = (\<lambda>_ m. m)\<rparr>"

lemma demo_with_simps [simp]:
  "rds (demo_with M) = calm_env" "vmm (demo_with M) = M" "hostops (demo_with M) = mem_host (\<lambda>_. False)"
  "cfg (demo_with M) = demo_cfg" "random16 (demo_with M) = (\<lambda>_. demo_bytes)"
  "statfs (demo_with M) = (\<lambda>_. Inr (1000, 600))" "map_range (demo_with M) = (\<lambda>_ m. m)"
  by (simp_all add: demo_with_def)

lemma demo_with_service: "service (demo_with M) mem_ks own"
  by unfold_locales (simp_all add: calm_env_def mem_exec_spec)

definition demo_E :: "(mem, string list, mhost) surroundings" where
  "demo_E = demo_with demo_vmm"

lemma demo_E_simps [simp]:
  "rds demo_E = calm_env" "vmm demo_E = demo_vmm" "hostops demo_E = mem_host (\<lambda>_. False)"
  "cfg demo_E = demo_cfg" "random16 demo_E = (\<lambda>_. demo_bytes)"
  "statfs demo_E = (\<lambda>_. Inr (1000, 600))" "map_range demo_E = (\<lambda>_ m. m)"
  by (simp_all add: demo_E_def)

interpretation demo_service: service demo_E mem_ks own for own
  by unfold_locales (simp_all add: calm_env_def mem_exec_spec)

lemma demo_bytes_lawful: "demo_bytes \<noteq> []" "demo_own (hex_encode demo_bytes) = ''bob''"
  by code_simp+

definition no_disks :: mhost where
  "no_disks = \<lparr>disks = Map.empty, tick = 0\<rparr>"

text \<open>
  A world with the reserved sandbox \<^verbatim>\<open>a1\<close> of \<^verbatim>\<open>alice\<close>, the given VMs, and a relay on the ports
  40000 to 40001.
\<close>

definition svc_relay :: relay where
  "svc_relay = New ''198.51.100.7'' 40000 40001"

definition demo_world :: "'v \<Rightarrow> (mem, 'v, mhost) world" where
  "demo_world v =
     \<lparr>rdb = demo_conn, vms = v, fs = no_disks, ssh = Some svc_relay, sshPrep = {},
      pendingCreates = 0, pendingMiB = 0, capacityRejected = 0, asked = 0\<rparr>"

lemma demo_world_simps [simp]:
  "rdb (demo_world v) = demo_conn" "vms (demo_world v) = v" "fs (demo_world v) = no_disks"
  "ssh (demo_world v) = Some svc_relay"
  "pendingCreates (demo_world v) = 0" "pendingMiB (demo_world v) = 0" "asked (demo_world v) = 0"
  by (simp_all add: demo_world_def)

lemma svc_relay_ok: "ssh_ok (Some svc_relay)"
  by (simp add: ssh_ok_def relay_ok_def svc_relay_def New_def in_int64_def)

lemma good_demo_world [simp]: "good_world demo_own mem_ks (demo_world v)"
  using svc_relay_ok by (simp add: good_world_def)

definition alice :: identity where
  "alice = \<lparr>IdUserID = ''alice'', Role = ''user'', IsAnonymous = False, ScopeUserID = []\<rparr>"

definition bob :: identity where
  "bob = \<lparr>IdUserID = ''bob'', Role = ''user'', IsAnonymous = False, ScopeUserID = []\<rparr>"

lemma identities [simp]:
  "IdUserID alice = ''alice''" "IdUserID bob = ''bob''" "\<not> IsAdmin alice" "\<not> IsAdmin bob"
  "\<not> IsAnonymous bob" "\<not> IsAnonymous alice" "IsAdmin admin_identity"
  by (simp_all add: alice_def bob_def IsAdmin_def admin_identity_def)

end
