(* ===== verification/Service_Props.thy ===== *)
theory Service_Props
  imports Service_Demo
begin

text \<open>
  What the service promises: the invariant of the inventory, the ledger of the admission control,
  who may see and do what, that a VM's record and slot outlive the VM, that a create leaves no slot
  behind when it fails, that dead holders give way, and that no SSH listener is left for a sandbox
  that is not running.
\<close>

section \<open>The invariant\<close>

text \<open>Operations one after the other, each in surroundings of its own.\<close>

fun run_ops :: "(('r, 'v, 'h) surroundings \<times> svc_op) list \<Rightarrow> ('r, 'v, 'h) world \<Rightarrow> ('r, 'v, 'h) world" where
  "run_ops [] w = w"
| "run_ops ((E, p) # ps) w = run_ops ps (snd (run_state (perform_op E p) w))"

text \<open>
  C1. The service keeps the inventory consistent. After any sequence of its operations, each in
  surroundings of its own (any interleaving with other instances, any failures of the store, the VM
  manager, the host, the backend), the schema and the consistency of the inventory hold (every slot
  names a sandbox of its user that has a record, the index of all ids and the active index are
  exact, every user index lists sandboxes of that user), and so does the relay's invariant.
\<close>

theorem service_keeps_inventory:
  assumes "\<forall>(E, p) \<in> set ops. service E ks own \<and> op_lawful E own p"
    and "good_world own ks w"
  shows "good_world own ks (run_ops ops w)"
  using assms
proof (induction ops arbitrary: w)
  case (Cons op ops)
  obtain E p where op: "op = (E, p)" by (cases op)
  with Cons.prems have "service E ks own" "op_lawful E own p" by auto
  from service.perform_op_keeps [OF this(1) Cons.prems(2) this(2)]
  have "good_world own ks (snd (run_state (perform_op E p) w))" by (simp add: wp_def)
  with Cons op show ?case by auto
qed simp

section \<open>Admission\<close>

text \<open>What \<^verbatim>\<open>admit\<close> reads, and its outcome.\<close>

definition running_now :: "('r, 'v, 'h) surroundings \<Rightarrow> ('r, 'v, 'h) world \<Rightarrow> goerr + int" where
  "running_now E w = fst (vm_running_count (vmm E) (vms w))"

definition memory_now :: "('r, 'v, 'h) surroundings \<Rightarrow> ('r, 'v, 'h) world \<Rightarrow> goerr + 64 word" where
  "memory_now E w = (case meminfo E (asked w) of Inl e \<Rightarrow> Inl e
     | Inr txt \<Rightarrow> mem_available (split_on (CHR ''\<newline>'') txt))"

lemma admit_Inr:
  assumes "run_state (admit E m) w = (Inr b, w')"
  shows "\<exists>n avail. running_now E w = Inr n \<and> n + pendingCreates w < MaxVMs (cfg E) \<and>
           memory_now E w = Inr avail \<and> b = budget (cfg E) m \<and>
           HostMemoryReserveMiB (cfg E) + pendingMiB w + b \<le> avail \<and>
           pendingCreates w' = pendingCreates w + 1 \<and> pendingMiB w' = pendingMiB w + b"
proof -
  have "wp (admit E m) (\<lambda>r w'. r = Inr b \<longrightarrow>
      (\<exists>n avail. running_now E w = Inr n \<and> n + pendingCreates w < MaxVMs (cfg E) \<and>
           memory_now E w = Inr avail \<and> b = budget (cfg E) m \<and>
           HostMemoryReserveMiB (cfg E) + pendingMiB w + b \<le> avail \<and>
           pendingCreates w' = pendingCreates w + 1 \<and> pendingMiB w' = pendingMiB w + b)) w"
    by (auto simp: admit_def memAvailableMiB_def wp_simps running_now_def memory_now_def Let_def not_le
        split: sum.split)
  from wp_runI [OF this assms] show ?thesis by blast
qed

lemma admit_Inl:
  "wp (admit E m) (\<lambda>r w'. \<forall>e. r = Inl e \<longrightarrow> errors_is e ErrCapacity \<and>
      pendingCreates w' = pendingCreates w \<and> pendingMiB w' = pendingMiB w) w"
  by (auto simp: admit_def memAvailableMiB_def wp_simps Let_def capacity_error_def split: sum.split)

text \<open>
  A run of admissions and releases in any order, with the budgets that are still held. Each
  step may have surroundings of its own, and anything else may happen to the world in between.
\<close>

inductive admission_run :: "64 word list \<Rightarrow> ('r, 'v, 'h) world \<Rightarrow> bool" where
  start: "pendingCreates w = 0 \<Longrightarrow> pendingMiB w = 0 \<Longrightarrow> admission_run [] w"
| admitted: "admission_run bs w \<Longrightarrow> run_state (admit E m) w = (Inr b, w') \<Longrightarrow> admission_run (b # bs) w'"
| refused: "admission_run bs w \<Longrightarrow> run_state (admit E m) w = (Inl e, w') \<Longrightarrow> admission_run bs w'"
| released: "admission_run (bs @ b # bs') w \<Longrightarrow>
    admission_run (bs @ bs') (snd (run_state (release b) w))"
| elsewhere: "admission_run bs w \<Longrightarrow> pendingCreates w' = pendingCreates w \<Longrightarrow>
    pendingMiB w' = pendingMiB w \<Longrightarrow> admission_run bs w'"

lemma admission_ledger:
  "admission_run bs w \<Longrightarrow> pendingCreates w = int (length bs) \<and> pendingMiB w = sum_list bs"
proof (induction rule: admission_run.induct)
  case (admitted bs w E m b w')
  with admit_Inr [OF admitted(2)] show ?case by auto
next
  case (refused bs w E m e w')
  then show ?case using wp_runI [OF admit_Inl refused(2)] by simp
next
  case (released bs b bs' w)
  then show ?case by (simp add: release_def)
qed auto

text \<open>
  The ledger is exact. In every interleaving of admissions and releases, the counter of pending
  creates is the number of admissions not yet released, and the pending memory is the sum of their
  budgets (modulo \<open>2 ^ 64\<close>).
\<close>

theorem admission_ledger_exact:
  assumes "admission_run bs w"
  shows "pendingCreates w = int (length bs) \<and> pendingMiB w = sum_list bs"
  by (rule admission_ledger [OF assms])

lemma uint_sum_list:
  "sum_list (map uint (bs :: 64 word list)) < 2 ^ 64 \<Longrightarrow> uint (sum_list bs) = sum_list (map uint bs)"
proof (induction bs)
  case (Cons b bs)
  from Cons.prems have "uint b + sum_list (map uint bs) < 2 ^ 64" by simp
  moreover have "0 \<le> uint b" by (rule uint_ge_0)
  ultimately have "sum_list (map uint bs) < 2 ^ 64" by linarith
  with Cons have s: "uint (sum_list bs) = sum_list (map uint bs)" by simp
  with Cons.prems have "uint b + uint (sum_list bs) < 2 ^ LENGTH(64)" by simp
  from iffD1 [OF uint_add_lem this] s show ?case by simp
qed simp

lemma len64: "2 ^ LENGTH(64) = (2 ^ 64 :: int)"
  by simp

text \<open>
  C10. Admission is safe. A create is admitted only when the VMs that run and the creates that are
  pending, itself included, stay within the limit, and the host's available memory covers the
  reserve and the budget of every pending create and of this one, each at least the default size.
  (The sum is the true one as long as it fits 64 bits.)
\<close>

theorem admission_is_safe:
  assumes "admission_run bs w" and "run_state (admit E m) w = (Inr b, w')"
    and "uint (HostMemoryReserveMiB (cfg E)) + sum_list (map uint (b # bs)) < 2 ^ 64"
  shows "\<exists>n avail. running_now E w = Inr n \<and> n + int (length (b # bs)) \<le> MaxVMs (cfg E) \<and>
           memory_now E w = Inr avail \<and> m \<le> b \<and> VMMemoryMiB (cfg E) \<le> b \<and>
           uint (HostMemoryReserveMiB (cfg E)) + sum_list (map uint (b # bs)) \<le> uint avail"
proof -
  from admit_Inr [OF assms(2)] obtain n avail where
    a: "running_now E w = Inr n" "n + pendingCreates w < MaxVMs (cfg E)" "memory_now E w = Inr avail"
      "b = budget (cfg E) m" "HostMemoryReserveMiB (cfg E) + pendingMiB w + b \<le> avail" by blast
  let ?R = "HostMemoryReserveMiB (cfg E)"
  have nonneg: "0 \<le> uint b" "0 \<le> uint ?R" by (rule uint_ge_0)+
  from assms(3) have total: "uint ?R + (uint b + sum_list (map uint bs)) < 2 ^ 64" by simp
  with nonneg have "sum_list (map uint bs) < 2 ^ 64" by linarith
  from uint_sum_list [OF this] have s: "uint (sum_list bs) = sum_list (map uint bs)" .
  from total nonneg s have "uint ?R + uint (sum_list bs) < 2 ^ LENGTH(64)"
    and lt: "uint ?R + uint (sum_list bs) + uint b < 2 ^ LENGTH(64)"
    unfolding len64 by linarith+
  then have r1: "uint (?R + sum_list bs) = uint ?R + uint (sum_list bs)"
    using iffD1 [OF uint_add_lem] by blast
  with lt have "uint (?R + sum_list bs) + uint b < 2 ^ LENGTH(64)" by presburger
  then have "uint (?R + sum_list bs + b) = uint (?R + sum_list bs) + uint b"
    using iffD1 [OF uint_add_lem] by blast
  with r1 s have "uint (?R + sum_list bs + b) = uint ?R + sum_list (map uint (b # bs))" by simp
  with a(5) admission_ledger [OF assms(1)] have
    "uint ?R + sum_list (map uint (b # bs)) \<le> uint avail" by (simp add: word_le_def)
  moreover have "n + int (length (b # bs)) \<le> MaxVMs (cfg E)"
    using a(2) admission_ledger [OF assms(1)] by simp
  ultimately show ?thesis using a(1,3,4) by (auto simp: budget_def)
qed

text \<open>A program that leaves the ledger alone.\<close>

definition ledger_is :: "int \<Rightarrow> 64 word \<Rightarrow> ('r, 'v, 'h) world \<Rightarrow> bool" where
  "ledger_is n m w \<longleftrightarrow> pendingCreates w = n \<and> pendingMiB w = m"

lemma ledger_parts [pres_intros]:
  "preserves (ledger_is n m) (on_store a)" "preserves (ledger_is n m) (on_vms b)"
  "preserves (ledger_is n m) (on_fs c)" "preserves (ledger_is n m) (ask d)"
  "preserves (ledger_is n m) (close_ssh i)" "preserves (ledger_is n m) (forget_prep i)"
  "preserves (ledger_is n m) (gets e)"
  by (simp_all add: preserves_def wp_on_vms wp_ask wp_close_ssh wp_forget_prep wp_gets ledger_is_def)
    (simp_all add: wp_def ledger_is_def on_store_def on_fs_def split_beta)

lemma ledger_create:
  "preserves (ledger_is n m) (create_admitted E who t sz res)"
  unfolding create_admitted_def new_sandbox_def newID_def reconcileUserSlot_def SvcDelete_def SvcGet_def
    connections_def finishTeardown_def staleDead_def teardownDead_def provision_def failCreate_def Let_def
  by (intro pres_intros)

text \<open>
  C11. A create gives its admission back. However a create ends (admitted or not, on every error
  path and on success), the pending count and the pending memory are what they were before.
\<close>

theorem create_balances_ledger:
  "pendingCreates (snd (run_state (Create E who t sz res) w)) = pendingCreates w \<and>
   pendingMiB (snd (run_state (Create E who t sz res) w)) = pendingMiB w"
proof -
  let ?n = "pendingCreates w" and ?m = "pendingMiB w"
  have w: "ledger_is ?n ?m w" by (simp add: ledger_is_def)
  have disk: "preserves (ledger_is ?n ?m) (diskUsagePercent E)"
    unfolding diskUsagePercent_def by (intro pres_intros)
  have adm: "wp (admit E k) (\<lambda>r w'. case r of Inl _ \<Rightarrow> ledger_is ?n ?m w'
      | Inr b \<Rightarrow> ledger_is (?n + 1) (?m + b) w') w'" if "ledger_is ?n ?m w'" for w' k
    using that by (cases "run_state (admit E k) w'")
      (auto simp: ledger_is_def wp_def dest: admit_Inr wp_runI [OF admit_Inl] split: sum.split)
  have rel: "ledger_is (?n + 1) (?m + b) w' \<Longrightarrow> wp (do { _ \<leftarrow> release b; ret r }) (\<lambda>_. ledger_is ?n ?m) w'"
    for b w' and r :: "goerr + sandbox"
    by (simp add: release_def wp_bind wp_modify wp_return ledger_is_def)
  have rej: "ledger_is ?n ?m w' \<Longrightarrow> wp (do { _ \<leftarrow> modify (\<lambda>w. w\<lparr>capacityRejected := f w\<rparr>); ret r })
      (\<lambda>_. ledger_is ?n ?m) w'" for f w' and r :: "goerr + sandbox"
    by (simp add: wp_bind wp_modify wp_return ledger_is_def)
  have "wp (Create E who t sz res) (\<lambda>_. ledger_is ?n ?m) w"
    unfolding Create_def Let_def
    by (auto intro!: wp_bindI [OF preserves_wp [OF disk w]] wp_bindI [OF adm] rej rel
        wp_bindI [OF preserves_wp [OF ledger_create]] simp: wp_return w split: sum.split)
  then show ?thesis by (simp add: wp_def ledger_is_def)
qed

section \<open>Witnesses\<close>

theorem service_keeps_inventory_witness:
  "good_world demo_own mem_ks (run_ops [(demo_E, OpCreate bob ''ubuntu'' ''small'' no_resources),
      (demo_E, OpGet bob ''a1''), (demo_E, OpTick), (demo_E, OpDelete alice ''a1'')] (demo_world []))"
  using demo_bytes_lawful
  by (intro service_keeps_inventory) (auto simp: op_lawful_def demo_service.service_axioms)

text \<open>An admission in the demo world: the host has 15625 MiB available.\<close>

lemma demo_memory:
  "(case meminfo demo_E n of Inr txt \<Rightarrow> mem_available (split_on (CHR ''\<newline>'') txt) | Inl e \<Rightarrow> Inl e) = Inr 15625"
proof -
  have "split_on (CHR ''\<newline>'')
      (''MemTotal: 32000000 kB'' @ [CHR ''\<newline>''] @ ''MemAvailable: 16000000 kB'') =
      [''MemTotal: 32000000 kB'', ''MemAvailable: 16000000 kB'']"
    by simp
  moreover have "Go_Strings.fields ''MemTotal: 32000000 kB'' = [''MemTotal:'', ''32000000'', ''kB'']"
    "Go_Strings.fields ''MemAvailable: 16000000 kB'' = [''MemAvailable:'', ''16000000'', ''kB'']"
    by code_simp+
  moreover have "parse_uint64 ''16000000'' = Some 16000000"
    by (simp add: parse_uint64_def dec_val_def is_digit_def digit_val_def)
  ultimately show ?thesis by (simp add: demo_E_def demo_with_def)
qed

lemma demo_admissions:
  "run_state (admit demo_E 512) (demo_world []) =
     (Inr 2048, (demo_world [])\<lparr>pendingCreates := 1, pendingMiB := 2048, asked := 1\<rparr>)"
  "run_state (admit demo_E 4096) ((demo_world [])\<lparr>pendingCreates := 1, pendingMiB := 2048, asked := 1\<rparr>) =
     (Inr 4096, (demo_world [])\<lparr>pendingCreates := 2, pendingMiB := 6144, asked := 2\<rparr>)"
  using demo_memory
  by (simp_all add: admit_def memAvailableMiB_def ask_def on_vms_def demo_vmm_def demo_cfg_def budget_def Let_def
      max_def demo_world_def)

lemma demo_admitted: "admission_run [2048] ((demo_world ([] :: string list))\<lparr>pendingCreates := 1, pendingMiB := 2048, asked := 1\<rparr>)"
  by (rule admission_run.admitted [OF admission_run.start demo_admissions(1)]) simp_all

theorem admission_ledger_exact_witness:
  "pendingCreates (snd (run_state (admit demo_E 512) (demo_world []))) = 1"
  using admission_ledger_exact [OF demo_admitted] by (simp add: demo_admissions)

theorem admission_is_safe_witness:
  "\<exists>avail. memory_now demo_E (snd (run_state (admit demo_E 512) (demo_world []))) = Inr avail \<and>
     4096 + 2048 + 4096 \<le> uint avail"
  using admission_is_safe [OF demo_admitted demo_admissions(2)]
  by (auto simp: demo_admissions demo_cfg_def)

end
