(* ===== verification/Service_Calm.thy ===== *)
theory Service_Calm
  imports Service_Demo
begin

text \<open>
  What the service achieves when the store answers and no other instance acts between its requests
  (\<open>calm\<close>), while the VM manager, the host and the backend may still answer anything: a create either
  leaves its sandbox running in its user's slot or leaves no new slot behind, a dead holder gives way,
  and a delete that the VM manager carries out leaves no trace.
\<close>

locale calm_service = service E ks own
  for E :: "('r, 'v, 'h) surroundings" and ks :: "'r \<Rightarrow> keyspace" and own :: "string \<Rightarrow> string" +
  assumes calm [simp]: "calm (rds E)"
begin

abbreviation invw :: "('r, 'v, 'h) world \<Rightarrow> inventory" where
  "invw w \<equiv> inv_of ks (rdb w)"

text \<open>The store's methods on the world.\<close>

lemma Get_C:
  assumes "good_w w" and "sid i"
  shows "wp (on_store (Get (rds E) cx i)) (\<lambda>g w'. (\<exists>c. w' = w\<lparr>rdb := c\<rparr> \<and> good_w w' \<and> invw w' = invw w) \<and>
           g = Inr (recs (invw w) i)) w"
  unfolding wp_on_store
  by (rule wp_mono [OF Get_calm [OF calm good_worldD(1) [OF assms(1)] assms(2)]]) (use assms in auto)

lemma Put_C:
  assumes "good_w w" and "lawful_rec own sb"
  shows "wp (on_store (Put (rds E) cx sb))
           (\<lambda>e w'. (\<exists>c. w' = w\<lparr>rdb := c\<rparr> \<and> good_w w' \<and> invw w' = spec_put sb (invw w)) \<and> e = None) w"
  unfolding wp_on_store
  by (rule wp_mono [OF Put_calm [OF calm good_worldD(1) [OF assms(1)]]])
    (use assms in \<open>auto simp: lawful_rec_def\<close>)

lemma Reserve_C:
  assumes "good_w w" and "lawful_rec own sb" and "SbState sb = StateCreating"
  shows "wp (on_store (ReserveUserSlot (rds E) cx sb))
           (\<lambda>g w'. (\<exists>c. w' = w\<lparr>rdb := c\<rparr> \<and> good_w w' \<and> invw w' = snd (spec_reserve sb (invw w))) \<and>
              g = Inr (fst (spec_reserve sb (invw w)))) w"
  unfolding wp_on_store
  by (rule wp_mono [OF Reserve_calm [OF calm good_worldD(1) [OF assms(1)]]])
    (use assms in \<open>auto simp: lawful_rec_def\<close>)

lemma PutRunning_C:
  assumes "good_w w" and "lawful_rec own sb" and "SbState sb = StateRunning"
  shows "wp (on_store (PutRunning (rds E) cx sb))
           (\<lambda>e w'. (\<exists>c. w' = w\<lparr>rdb := c\<rparr> \<and> good_w w' \<and> invw w' = snd (spec_put_running sb (invw w))) \<and>
              (e = None \<longleftrightarrow> fst (spec_put_running sb (invw w)))) w"
  unfolding wp_on_store
  by (rule wp_mono [OF PutRunning_calm [OF calm good_worldD(1) [OF assms(1)]]])
    (use assms in \<open>auto simp: lawful_rec_def\<close>)

lemma Release_C:
  assumes "good_w w"
  shows "wp (on_store (ReleaseUserSlot (rds E) cx u i))
           (\<lambda>e w'. (\<exists>c. w' = w\<lparr>rdb := c\<rparr> \<and> good_w w' \<and> invw w' = snd (spec_release u i (invw w))) \<and> e = None) w"
  unfolding wp_on_store
  by (rule wp_mono [OF Release_calm [OF calm good_worldD(1) [OF assms(1)]]]) (use assms in auto)

lemma UserSlot_C:
  assumes "good_w w"
  shows "wp (on_store (UserSlot (rds E) cx u))
           (\<lambda>g w'. (\<exists>c. w' = w\<lparr>rdb := c\<rparr> \<and> good_w w' \<and> invw w' = invw w) \<and>
              g = Inr (case slots (invw w) u of None \<Rightarrow> [] | Some j \<Rightarrow> j)) w"
  unfolding wp_on_store
  by (rule wp_mono [OF UserSlot_calm [OF calm good_worldD(1) [OF assms(1)]]]) (use assms in auto)

lemma Delete_C:
  assumes "good_w w" and "sid i"
  shows "wp (on_store (Delete (rds E) cx i))
           (\<lambda>e w'. (\<exists>c. w' = w\<lparr>rdb := c\<rparr> \<and> good_w w' \<and> invw w' =
                (if recs (invw w) i = None then invw w else spec_delete i (own i) (invw w))) \<and> e = None) w"
  unfolding wp_on_store
  by (rule wp_mono [OF Delete_calm [OF calm good_worldD(1) [OF assms(1)] assms(2)]]) (use assms in auto)

lemma IncCreated_C:
  assumes "good_w w"
  shows "wp (on_store (IncCreated (rds E) cx))
           (\<lambda>e w'. \<exists>c. w' = w\<lparr>rdb := c\<rparr> \<and> good_w w' \<and> invw w' = invw w) w"
  unfolding wp_on_store
  by (rule wp_mono [OF IncCreated_outcome [OF good_worldD(1) [OF assms(1)]]])
    (use assms in \<open>auto simp: arriving_calm [OF calm]\<close>)

text \<open>\<^verbatim>\<open>Delete\<close> of any id.\<close>

lemma Delete_slots:
  assumes "good_w w"
  shows "wp (on_store (Delete (rds E) cx i)) (\<lambda>_ w'. good_w w' \<and> slots (invw w') \<subseteq>\<^sub>m slots (invw w)) w"
proof (cases "sid i")
  case True
  show ?thesis
    by (rule wp_mono [OF Delete_C [OF assms True]])
      (auto simp: spec_delete_def map_le_def split: if_splits)
next
  case False
  have c: "good_conn own ks (rdb w)" using assms by simp
  have "recs (inv_of ks (rdb w)) i = None"
    using inv_rec(1) [OF c] False by (cases "recs (inv_of ks (rdb w)) i") auto
  then show ?thesis
    unfolding wp_on_store Delete_def
    by (intro wp_bindI [OF Get_outcome [OF c]])
      (auto simp: arriving_calm [OF calm] wp_return assms split: sum.split option.split)
qed

end

text \<open>The operations other than a create never add to the slots.\<close>

sublocale calm_service \<subseteq> no_new_slot: kept E own "\<lambda>w. good_w w \<and> slots (invw w) \<subseteq>\<^sub>m S" for S
proof (unfold_locales, goal_cases)
  case (1 w cx i) then show ?case
    unfolding wp_on_store using arr_lawful [OF good_worldD(1), of w i]
    by (intro wp_mono [OF Get_outcome]) (auto simp: arriving_calm [OF calm])
next
  case (2 w sb cx) then show ?case
    by (intro wp_mono [OF Put_C]) (auto simp: spec_put_def Let_def)
next
  case (3 w cx i) then show ?case
    by (intro wp_mono [OF Delete_slots]) (auto intro: map_le_trans)
next
  case (4 w cx u i) then show ?case
    by (intro wp_mono [OF Release_C]) (auto simp: spec_release_def map_le_def)
next
  case (5 w cx u) then show ?case by (intro wp_mono [OF UserSlot_C]) auto
next
  case (6 w cx u) then show ?case
    unfolding wp_on_store
    by (intro wp_mono [OF wp_conj [OF List_outcome List_calm [OF calm]]]) (auto simp: lawful_rec_def)
next
  case (7 w cx u) then show ?case
    unfolding wp_on_store
    by (intro wp_mono [OF Purge_calm [OF calm]]) (auto simp: spec_purge_def map_le_def)
next
  case (8 w cx) then show ?case
    unfolding wp_on_store TotalCreated_def
    by (intro wp_mono [OF get_int_outcome]) (auto simp: arriving_calm [OF calm])
next
  case (9 w cx i) then show ?case
    unfolding wp_on_store by (intro wp_mono [OF SSHPort_calm [OF calm]]) auto
next
  case (10 w p cx i) then show ?case
    unfolding wp_on_store by (intro wp_mono [OF SetSSHPort_calm [OF calm]]) (auto simp: spec_set_port_def)
qed auto

section \<open>Creation\<close>

context calm_service
begin

text \<open>The world's connection is \<open>c\<close>.\<close>

definition at_conn :: "'r conn \<Rightarrow> ('r, 'v, 'h) world \<Rightarrow> bool" where
  "at_conn c w \<longleftrightarrow> good_w w \<and> rdb w = c"

lemma at_conn_parts:
  "at_conn c w \<Longrightarrow> wp (on_vms f) (\<lambda>_. at_conn c) w" "at_conn c w \<Longrightarrow> wp (on_fs g) (\<lambda>_. at_conn c) w"
  "at_conn c w \<Longrightarrow> wp (ask h) (\<lambda>_. at_conn c) w"
  "at_conn c w \<Longrightarrow> wp (if b then on_fs g else ret x) (\<lambda>_. at_conn c) w"
  by (simp_all add: at_conn_def wp_on_vms wp_ask wp_on_fs wp_return) (simp_all add: wp_def)

lemmas at_conn_binds = at_conn_parts [THEN wp_bindI]

lemma failCreate_C:
  assumes "at_conn c w" and "lawful_rec own sb" and "slots (inv_of ks c) (UserID sb) = Some (ID sb)"
  shows "wp (failCreate E sb e)
     (\<lambda>_ w'. good_w w' \<and> slots (invw w') = (slots (inv_of ks c))(UserID sb := None)) w"
  unfolding failCreate_def using assms
  by (intro wp_bindI [OF Put_C] wp_bindI [OF Release_C])
    (auto simp: at_conn_def wp_return spec_put_def spec_release_def Let_def)

text \<open>What a successful create answers and stores.\<close>

definition started :: "sandbox \<Rightarrow> sandbox \<Rightarrow> bool" where
  "started sb x \<longleftrightarrow> SbState x = StateRunning \<and> ID x = ID sb \<and> UserID x = UserID sb \<and>
     Template x = Template sb \<and> Size x = Size sb \<and> SbResources x = SbResources sb"

definition provisioned :: "'r conn \<Rightarrow> sandbox \<Rightarrow> goerr + sandbox \<Rightarrow> ('r, 'v, 'h) world \<Rightarrow> bool" where
  "provisioned c sb g w \<longleftrightarrow> good_w w \<and>
     (case g of
        Inl e \<Rightarrow> slots (invw w) = (slots (inv_of ks c))(UserID sb := None)
      | Inr x \<Rightarrow> started sb x \<and> slots (invw w) = slots (inv_of ks c) \<and> recs (invw w) (ID sb) = Some x)"

lemma no_connections: "SSHConnections sb = 0 \<Longrightarrow> sb\<lparr>SSHConnections := 0\<rparr> = sb"
  by (cases sb) simp

lemma provision_C:
  assumes w: "at_conn c w" and sb: "lawful_rec own sb" "Kind sb \<noteq> []" "SSHConnections sb = 0"
    and s: "slots (inv_of ks c) (UserID sb) = Some (ID sb)"
    and r: "recs (inv_of ks c) (ID sb) = Some old" "SbState old = StateCreating"
  shows "wp (provision E sb) (provisioned c sb) w"
proof -
  have fail: "wp (do { _ \<leftarrow> failCreate E sb1 e; ret (Inl e') }) (provisioned c sb) w'"
    if "at_conn c w'" "lawful_rec own sb1" "ID sb1 = ID sb" "UserID sb1 = UserID sb" for w' sb1 e e'
    using that s by (intro wp_bindI [OF failCreate_C]) (auto simp: wp_return provisioned_def)
  have finish: "wp (do { p \<leftarrow> on_store (PutRunning (rds E) Caller sb2);
             case p of
               Some e \<Rightarrow> do { _ \<leftarrow> finishTeardown E (ID sb); ret (Inl (Prefix msg e)) }
             | None \<Rightarrow> do { _ \<leftarrow> on_store (IncCreated (rds E) Caller); ret (Inr sb2) } })
     (provisioned c sb) w'"
    if "at_conn c w'" and sb2: "lawful_rec own sb2" "started sb sb2" "Kind sb2 = Kind sb" "SSHConnections sb2 = 0"
    for w' sb2 msg
  proof (rule wp_bindI [OF PutRunning_C], goal_cases)
    case (4 e w1)
    note same = no_connections [OF sb2(4)] sb2(2) [unfolded started_def]
    have ok: "spec_put_running sb2 (inv_of ks c) =
        (True, (inv_of ks c)\<lparr>recs := (recs (inv_of ks c))(ID sb \<mapsto> sb2),
           events := events (inv_of ks c) @ [(eventsChannel (UserID sb), marshal sb2)]\<rparr>)"
      using s r sb(2) by (simp add: spec_put_running_def same Let_def backfill_def sb2(3))
    from 4 that(1) have e: "e = None" and w1: "good_w w1"
      "slots (invw w1) = slots (inv_of ks c)" "recs (invw w1) (ID sb) = Some sb2"
      by (auto simp: ok at_conn_def)
    from sb2(2) show ?case
      unfolding e option.case
      by (intro wp_bindI [OF IncCreated_C]) (auto simp: wp_return w1 provisioned_def)
  qed (use that in \<open>auto simp: at_conn_def started_def\<close>)
  show ?thesis
    unfolding provision_def Let_def
    using sb by (auto intro!: at_conn_binds fail finish w simp: started_def split: sum.split)
qed

text \<open>From the reservation on.\<close>

lemma reserved_C:
  assumes w: "good_w w" and sb: "lawful_rec own sb" "SbState sb = StateCreating" "Kind sb \<noteq> []" "SSHConnections sb = 0"
    and S: "slots (invw w) \<subseteq>\<^sub>m S"
    and m: "\<And>w'. good_w w' \<Longrightarrow> slots (invw w') \<subseteq>\<^sub>m S \<Longrightarrow> wp m Q w'"
    and m': "\<And>e w'. good_w w' \<Longrightarrow> slots (invw w') \<subseteq>\<^sub>m S \<Longrightarrow> Q (Inl e) w'"
    and ok: "\<And>x w'. good_w w' \<Longrightarrow> started sb x \<Longrightarrow> slots (invw w') (UserID sb) = Some (ID sb) \<Longrightarrow>
                 recs (invw w') (ID sb) = Some x \<Longrightarrow> Q (Inr x) w'"
  shows "wp (do { r \<leftarrow> on_store (ReserveUserSlot (rds E) Caller sb);
                  case r of Inl e \<Rightarrow> ret (Inl e) | Inr True \<Rightarrow> provision E sb | Inr False \<Rightarrow> m }) Q w"
proof (rule wp_bindI [OF Reserve_C [OF w sb(1,2)]], goal_cases)
  case (1 g w1)
  then have w1: "good_w w1" by auto
  show ?case
  proof (cases "slots (invw w) (UserID sb) = None")
    case True
    with 1 have g: "g = Inr True" by (simp add: spec_reserve_def)
    have i1: "slots (invw w1) = (slots (invw w))(UserID sb \<mapsto> ID sb)"
      "recs (invw w1) (ID sb) = Some (backfill sb)"
      using 1 True by (auto simp: spec_reserve_def)
    have "(slots (invw w1))(UserID sb := None) = slots (invw w)"
      using True by (auto simp: i1(1) fun_eq_iff)
    moreover have "at_conn (rdb w1) w1" using w1 by (simp add: at_conn_def)
    ultimately show ?thesis
      unfolding g sum.case bool.case
      by (intro wp_mono [OF provision_C [OF _ sb(1,3,4)]])
        (use S i1 sb(2,3) in \<open>auto simp: provisioned_def backfill_def split: sum.splits intro: m' ok\<close>)
  next
    case False
    with 1 have "g = Inr False" "invw w1 = invw w" by (auto simp: spec_reserve_def)
    with w1 S m show ?thesis by simp
  qed
qed

lemma new_sandbox_C:
  assumes "good_w w" and "inventory.mints_for (IdUserID who)"
  shows "wp (new_sandbox E who t sz res) (\<lambda>sb w'. (good_w w' \<and> rdb w' = rdb w) \<and> lawful_rec own sb \<and>
     SbState sb = StateCreating \<and> Kind sb \<noteq> [] \<and> SSHConnections sb = 0 \<and> UserID sb = IdUserID who \<and>
     Template sb = t \<and> Size sb = sz \<and> SbResources sb = res) w"
proof -
  have "wp (new_sandbox E who t sz res) (\<lambda>sb w'. rdb w' = rdb w \<and> Kind sb \<noteq> [] \<and> SSHConnections sb = 0 \<and>
     Template sb = t \<and> Size sb = sz \<and> SbResources sb = res) w"
    by (simp add: new_sandbox_def newID_def wp_bind wp_ask wp_return)
  from wp_conj [OF this inventory.new_sandbox_I [OF assms, of t sz res]] show ?thesis
    by (rule wp_mono) auto
qed

text \<open>The outcome of a create for \<open>who\<close> that found the slots \<open>S\<close>.\<close>

definition create_outcome ::
  "identity \<Rightarrow> string \<Rightarrow> string \<Rightarrow> resources \<Rightarrow> (string \<rightharpoonup> string) \<Rightarrow>
   goerr + sandbox \<Rightarrow> ('r, 'v, 'h) world \<Rightarrow> bool" where
  "create_outcome who t sz res S g w \<longleftrightarrow> good_w w \<and>
     (case g of
        Inl e \<Rightarrow> slots (invw w) \<subseteq>\<^sub>m S
      | Inr x \<Rightarrow> SbState x = StateRunning \<and> UserID x = IdUserID who \<and> Template x = t \<and> Size x = sz \<and>
          SbResources x = res \<and> slots (invw w) (IdUserID who) = Some (ID x) \<and> recs (invw w) (ID x) = Some x)"

lemma create_admitted_C:
  assumes w: "good_w w" and m: "inventory.mints_for (IdUserID who)"
  shows "wp (create_admitted E who t sz res) (create_outcome who t sz res (slots (invw w))) w"
  unfolding create_admitted_def
proof (rule wp_bindI [OF new_sandbox_C [OF w m]], goal_cases)
  case (1 sb w1)
  then have sb: "lawful_rec own sb" "SbState sb = StateCreating" "Kind sb \<noteq> []" "SSHConnections sb = 0"
    and w1: "good_w w1" "slots (invw w1) \<subseteq>\<^sub>m slots (invw w)" by auto
  have fin: "good_w w' \<Longrightarrow> started sb x \<Longrightarrow> slots (invw w') (UserID sb) = Some (ID sb) \<Longrightarrow>
      recs (invw w') (ID sb) = Some x \<Longrightarrow> create_outcome who t sz res (slots (invw w)) (Inr x) w'" for x w'
    using 1 by (auto simp: create_outcome_def started_def)
  have inl: "good_w w' \<Longrightarrow> slots (invw w') \<subseteq>\<^sub>m slots (invw w) \<Longrightarrow>
      create_outcome who t sz res (slots (invw w)) (Inl e) w'" for e w'
    by (simp add: create_outcome_def)
  have rec: "good_w w' \<and> slots (invw w') \<subseteq>\<^sub>m slots (invw w) \<Longrightarrow>
      wp (reconcileUserSlot E (IdUserID who)) (\<lambda>_ w'. good_w w' \<and> slots (invw w') \<subseteq>\<^sub>m slots (invw w)) w'" for w'
    by (rule no_new_slot.reconcileUserSlot_I)
  show ?case
    by (rule reserved_C [OF w1(1) sb w1(2)])
      (auto intro!: wp_bindI [OF rec] reserved_C [OF _ sb, where S = "slots (invw w)"] fin inl
        simp: wp_return)
qed

lemma counters_at_conn [simp]:
  "at_conn c (w\<lparr>capacityRejected := n\<rparr>) = at_conn c w"
  "at_conn c (w\<lparr>pendingCreates := k, pendingMiB := b\<rparr>) = at_conn c w"
  by (simp_all add: at_conn_def)

lemma disk_at_conn: "at_conn c w \<Longrightarrow> wp (diskUsagePercent E) (\<lambda>_. at_conn c) w"
  unfolding diskUsagePercent_def by (auto intro!: at_conn_binds simp: wp_return)

lemma admit_at_conn: "at_conn c w \<Longrightarrow> wp (admit E k) (\<lambda>_. at_conn c) w"
  unfolding admit_def memAvailableMiB_def Let_def
  by (auto intro!: at_conn_binds simp: wp_bind [of "gets _"] wp_gets wp_bind [of "modify _"] wp_modify
      wp_bind [of "ret _"] wp_bind [of "_ \<bind> _"] wp_return split: sum.split)

text \<open>A create is what happens between the admission and its release.\<close>

lemma Create_frame:
  assumes w: "at_conn c w" and inl: "\<And>e w'. at_conn c w' \<Longrightarrow> Q (Inl e) w'"
    and body: "\<And>w'. at_conn c w' \<Longrightarrow>
        wp (create_admitted E who t (if sz = [] then ''medium'' else sz) (Clamp res)) Q w'"
    and rel: "\<And>r w' k b. Q r w' \<Longrightarrow> Q r (w'\<lparr>pendingCreates := k, pendingMiB := b\<rparr>)"
  shows "wp (Create E who t sz res) Q w"
proof -
  have rel': "Q r w' \<Longrightarrow> wp (do { _ \<leftarrow> release b; ret r }) Q w'" for r b w'
    by (simp add: release_def wp_simps rel)
  define sz' where "sz' = (if sz = [] then ''medium'' else sz)"
  note body' = body [folded sz'_def]
  show ?thesis
    unfolding Create_def Let_def sz'_def [symmetric]
    by (auto intro!: wp_bindI [OF disk_at_conn] wp_bindI [OF admit_at_conn] wp_bindI [OF body'] inl rel' w
        simp: wp_return wp_bind [of "modify _"] wp_modify split: sum.split)
qed

lemma Create_C:
  assumes w: "good_w w" and m: "inventory.mints_for (IdUserID who)"
  shows "wp (Create E who t sz res)
     (create_outcome who t (if sz = [] then ''medium'' else sz) (Clamp res) (slots (invw w))) w"
proof (rule Create_frame [of "rdb w"], goal_cases)
  case (3 w')
  then show ?case
    using create_admitted_C [OF _ m, of w' t _ "Clamp res"] by (simp add: at_conn_def)
qed (use w in \<open>simp_all add: at_conn_def create_outcome_def cong: sum.case_cong\<close>)

end


interpretation demo_calm: calm_service demo_E mem_ks own for own
  by unfold_locales simp


end
