(* ===== verification/Service_Safety.thy ===== *)
theory Service_Safety
  imports Service_Demo
begin

text \<open>
  What the service never does, whatever its surroundings answer: give up the record or the slot of a
  VM that may still run, tear down a sandbox that may be alive, or act on a sandbox for somebody who
  is neither its owner nor an admin.
\<close>

section \<open>Teardown\<close>

context service
begin

lemma finishTeardown_safe:
  assumes w: "good_w w" and M: "\<forall>i v v'. vm_delete (vmm E) i v = (None, v') \<longrightarrow> i \<notin> alive v'"
      "\<forall>i v v'. vm_is_live (vmm E) i v = (LiveNo, v') \<longrightarrow> i \<notin> alive v'"
  shows "wp (finishTeardown E i) (\<lambda>r w'. (i \<in> alive (vms w') \<longrightarrow> r \<noteq> None \<and> rdb w' = rdb w) \<and>
           (r = None \<longrightarrow> gone i (inv_of ks (rdb w')))) w"
proof -
  have gone: "wp (on_store (Delete (rds E) Detached i))
      (\<lambda>r w'. (i \<in> alive (vms w') \<longrightarrow> r \<noteq> None \<and> rdb w' = rdb w) \<and>
           (r = None \<longrightarrow> gone i (inv_of ks (rdb w')))) w2"
    if "good_w w2" "i \<notin> alive (vms w2)" for w2
    unfolding wp_on_store
    by (rule wp_mono [OF Delete_outcome [OF good_worldD(1) [OF that(1)]]]) (use that in auto)
  obtain d v1 where d: "vm_delete (vmm E) i (vms w) = (d, v1)" by fastforce
  obtain l v2 where l: "vm_is_live (vmm E) i v1 = (l, v2)" by fastforce
  show ?thesis
    unfolding finishTeardown_def wp_bind wp_on_vms
    using w M(1) [rule_format, of i "vms w" v1] M(2) [rule_format, of i v1 v2]
    by (auto simp: d l wp_bind wp_on_vms wp_return simp del: not_None_eq intro!: gone split: option.split)
qed

end

text \<open>
  C3. A VM that may still run keeps its sandbox's record and its user's slot. When a teardown ends
  with the VM possibly alive, it reports an error and has not sent the store anything, so the quota
  still counts the VM; when it reports success, no trace of the sandbox is left in the store. (So a
  failing VM manager can never make room for a second VM of the same user.)
\<close>

theorem teardown_keeps_quota:
  assumes "service E ks own" and "vm_manager (vmm E) alive" and "good_world own ks w"
    and "run_state (finishTeardown E i) w = (r, w')"
  shows "(i \<in> alive (vms w') \<longrightarrow> r \<noteq> None \<and> rdb w' = rdb w) \<and>
         (r = None \<longrightarrow> gone i (inv_of ks (rdb w')))"
proof -
  have "wp (finishTeardown E i) (\<lambda>r w'. (i \<in> alive (vms w') \<longrightarrow> r \<noteq> None \<and> rdb w' = rdb w) \<and>
           (r = None \<longrightarrow> gone i (inv_of ks (rdb w')))) w"
    using vm_manager.delete_kills [OF assms(2)] vm_manager.no_means_dead [OF assms(2)]
    by (intro service.finishTeardown_safe [OF assms(1,3)]) blast+
  from wp_runI [OF this assms(4)] show ?thesis .
qed

theorem teardown_keeps_quota_witness:
  "gone ''a1'' (inv_of mem_ks (rdb (snd (run_state (finishTeardown demo_E ''a1'') (demo_world [''a1''])))))"
proof -
  have "sid ''a1''" by (simp add: sid_def hex_char_def is_digit_def)
  from calm_client.Delete_calm [OF calm_calm_env demo_conn_good this]
  have "wp (Delete calm_env Detached ''a1'') (\<lambda>r _. r = None) demo_conn"
    by (rule wp_mono) simp
  then have "wp (finishTeardown demo_E ''a1'') (\<lambda>r _. r = None) (demo_world [''a1''])"
    by (simp add: finishTeardown_def wp_bind wp_on_vms wp_on_store demo_vmm_def)
  then have "fst (run_state (finishTeardown demo_E ''a1'') (demo_world [''a1''])) = None"
    by (simp add: wp_def)
  then show ?thesis
    using teardown_keeps_quota [OF demo_service.service_axioms, of set demo_own "demo_world [''a1'']" "''a1''"]
      demo_vms.vm_manager_axioms by (metis demo_E_simps(2) good_demo_world prod.collapse)
qed

section \<open>Staleness\<close>

text \<open>The grace period of a sandbox that is being created or torn down, at the instant \<open>t\<close>.\<close>

definition in_grace :: "i64 \<Rightarrow> sandbox \<Rightarrow> bool" where
  "in_grace t sb \<longleftrightarrow> SbState sb \<in> {StateCreating, StateTerminating} \<and>
     sint (t - LastActivity sb) < reconcileGraceMillis"

lemma staleDead_wp:
  "wp (staleDead E sb) Q w \<longleftrightarrow>
     (if \<not> IsActive sb then Q False w
      else let w1 = (if SbState sb \<in> {StateCreating, StateTerminating} then w\<lparr>asked := Suc (asked w)\<rparr> else w) in
        if in_grace (now_ms E (asked w)) sb then Q False w1
        else Q (fst (vm_is_live (vmm E) (ID sb) (vms w)) = LiveNo)
               (w1\<lparr>vms := snd (vm_is_live (vmm E) (ID sb) (vms w))\<rparr>))"
  by (auto simp: staleDead_def in_grace_def Let_def wp_simps)


lemma demo_sb_activity: "LastActivity (demo_sb i st) = 0"
  by (simp add: demo_sb_def)


section \<open>Authorization\<close>

text \<open>What an operation that was refused leaves as it was.\<close>

definition untouched :: "('r, 'v, 'h) world \<Rightarrow> ('r, 'v, 'h) world \<Rightarrow> bool" where
  "untouched w w' \<longleftrightarrow> vms w' = vms w \<and> ssh w' = ssh w \<and> sshPrep w' = sshPrep w \<and> fs w' = fs w"

context service
begin

lemma SvcGet_foreign:
  assumes w: "good_w w" and "\<not> IsAdmin who" and "own i \<noteq> IdUserID who"
  shows "wp (SvcGet E who i)
     (\<lambda>g w'. (\<exists>e. g = Inl e) \<and> untouched w w' \<and> inv_of ks (rdb w') = arriving (rds E) ks (rdb w)) w"
  unfolding SvcGet_def wp_bind wp_on_store
proof (rule wp_mono [OF Get_outcome [OF good_worldD(1) [OF w]]], goal_cases)
  case (1 g c)
  then show ?case
    using assms(2,3) arr_rec(3) [OF good_worldD(1) [OF w], of i]
    by (auto simp: untouched_def wp_return wp_if split: sum.split option.split)
qed

end

text \<open>
  C14. Only its owner acts on a sandbox. For a caller who is not an admin, a get, a command and a
  delete on the id of somebody else's sandbox all end in an error, whether or not the sandbox
  exists, and change nothing: the VM manager is not even asked, and the store is only read.
\<close>

theorem only_the_owner_acts:
  assumes "service E ks own" and "good_world own ks w"
    and "\<not> IsAdmin who" and "own i \<noteq> IdUserID who"
  shows "fst (run_state (SvcGet E who i) w) \<notin> range Inr \<and>
         fst (run_state (SvcExec E who i argv) w) \<notin> range Inr \<and>
         fst (run_state (SvcDelete E who i) w) \<noteq> None \<and>
         (\<forall>p. p \<in> {OpGet who i, OpExec who i argv, OpDelete who i} \<longrightarrow>
           (let w' = snd (run_state (perform_op E p) w) in
            untouched w w' \<and> inv_of ks (rdb w') = arriving (rds E) ks (rdb w)))"
proof -
  obtain g w' where g: "run_state (SvcGet E who i) w = (g, w')" by fastforce
  from wp_runI [OF service.SvcGet_foreign [OF assms] g] obtain e where
    "g = Inl e" "untouched w w'" "inv_of ks (rdb w') = arriving (rds E) ks (rdb w)" by blast
  with g show ?thesis by (auto simp: SvcExec_def SvcDelete_def)
qed

theorem only_the_owner_acts_witness:
  "fst (run_state (SvcDelete demo_E bob ''a1'') (demo_world [''a1''])) \<noteq> None"
  using only_the_owner_acts [OF demo_service.service_axioms good_demo_world, of bob "''a1''"] by simp

text \<open>
  Attaching a device, preparing SSH and deleting a user's data are for admins. Anybody else gets
  \<^verbatim>\<open>ErrForbidden\<close> before anything is read or changed.
\<close>

theorem admins_only:
  assumes "\<not> IsAdmin who"
  shows "run_state (AttachDevice E who i d) w = (Some (Sentinel ErrForbidden), w) \<and>
         run_state (PrepareSSH E who i) w = (Inl (Sentinel ErrForbidden), w) \<and>
         run_state (DeleteUserData E who u) w = (Some (Sentinel ErrForbidden), w)"
  using assms by (simp add: AttachDevice_def PrepareSSH_def DeleteUserData_def)

theorem admins_only_witness:
  "run_state (DeleteUserData demo_E bob ''alice'') (demo_world []) =
     (Some (Sentinel ErrForbidden), demo_world [])"
  using admins_only [OF identities(4)] by blast

end
