(* ===== verification/Service_Eviction.thy ===== *)
theory Service_Eviction
  imports Service_Calm Service_Safety
begin

text \<open>
  Who holds a user's slot, and how a holder gives way: a live holder blocks a create, a dead one is
  torn down and makes room, a delete and the deletion of a user's data leave no trace. As in
  \<open>Service_Calm\<close>, the store answers and no other instance acts.
\<close>

context calm_service
begin

text \<open>The inventory is \<open>a\<close>, and the listeners of the sandboxes in \<open>off\<close> are closed.\<close>

definition at_inv :: "inventory \<Rightarrow> ('r, 'v, 'h) world \<Rightarrow> bool" where
  "at_inv a w \<longleftrightarrow> good_w w \<and> invw w = a"

lemma at_inv_parts:
  "at_inv a w \<Longrightarrow> wp (on_vms f) (\<lambda>_. at_inv a) w" "at_inv a w \<Longrightarrow> wp (on_fs g) (\<lambda>_. at_inv a) w"
  "at_inv a w \<Longrightarrow> wp (ask h) (\<lambda>_. at_inv a) w" "at_inv a w \<Longrightarrow> wp (close_ssh i) (\<lambda>_. at_inv a) w"
  "at_inv a w \<Longrightarrow> wp (forget_prep i) (\<lambda>_. at_inv a) w"
  "at_inv a w \<Longrightarrow> wp (connections E i) (\<lambda>_. at_inv a) w"
  "at_inv a w \<Longrightarrow> wp (staleDead E sb) (\<lambda>_. at_inv a) w"
  by (simp_all add: at_inv_def wp_on_vms wp_ask wp_on_fs wp_close_ssh wp_forget_prep connections_def
      wp_bind wp_gets wp_return ssh_ok_Close staleDead_wp Let_def) (simp add: wp_def)

lemmas at_inv_binds = at_inv_parts [THEN wp_bindI]

lemma at_inv_Get:
  "at_inv a w \<Longrightarrow> sid i \<Longrightarrow>
   wp (on_store (Get (rds E) cx i)) (\<lambda>g w'. at_inv a w' \<and> g = Inr (recs a i) \<and> vms w' = vms w \<and> asked w' = asked w) w"
  by (rule wp_mono [OF Get_C]) (auto simp: at_inv_def)

lemma at_inv_UserSlot:
  "at_inv a w \<Longrightarrow> wp (on_store (UserSlot (rds E) cx u))
     (\<lambda>g w'. at_inv a w' \<and> g = Inr (case slots a u of None \<Rightarrow> [] | Some j \<Rightarrow> j) \<and> asked w' = asked w) w"
  by (rule wp_mono [OF UserSlot_C]) (auto simp: at_inv_def)

lemma at_inv_holder:
  assumes "at_inv a w" and "slots a u = Some j"
  shows "sid j" and "j \<noteq> []" and "own j = u"
proof -
  from assms have c: "consistent own a" "good_conn own ks (rdb w)" "inv_of ks (rdb w) = a"
    using consistent_inv by (auto simp: at_inv_def)
  from c(1) assms(2) obtain h where h: "recs a j = Some h" and o: "own j = u"
    unfolding consistent_def by blast
  with inv_rec(1) [OF c(2)] c(3) show "sid j" by auto
  then show "j \<noteq> []" by (auto simp: sid_def)
  show "own j = u" by (fact o)
qed

section \<open>A live holder\<close>

lemma holder_read:
  assumes w: "at_inv a w" and s: "slots a u = Some j" and h: "recs a j = Some h" "SbState h \<noteq> StateError"
    and step: "\<And>w'. at_inv a w' \<Longrightarrow>
      wp (do { dead \<leftarrow> staleDead E h; if dead then teardownDead E h else ret () }) Q w'"
  shows "wp (reconcileUserSlot E u) Q w"
  unfolding reconcileUserSlot_def
proof (rule wp_bindI [OF at_inv_UserSlot [OF w]], goal_cases)
  case (1 g w1)
  note j = at_inv_holder [OF w s]
  have rd: "wp (on_store (Get (rds E) Caller j)) (\<lambda>g w'. at_inv a w' \<and> g = Inr (Some h)) w1"
    by (rule wp_mono [OF at_inv_Get [OF _ j(1)]]) (use 1 h in auto)
  show ?case using step h(2) j(2) 1 s by (auto intro!: wp_bindI [OF rd])
qed

lemma live_holder_stays:
  assumes w: "at_inv a w" and s: "slots a u = Some j" and h: "recs a j = Some h" "IsActive h"
    and live: "\<forall>v. fst (vm_is_live (vmm E) (ID h) v) \<noteq> LiveNo"
  shows "wp (reconcileUserSlot E u) (\<lambda>_. at_inv a) w"
proof (rule holder_read [OF w s h(1)])
  show "SbState h \<noteq> StateError" using h(2) by (auto simp: IsActive_def)
  have no: "at_inv a w' \<Longrightarrow> wp (staleDead E h) (\<lambda>dead w'. at_inv a w' \<and> \<not> dead) w'" for w'
    using live h(2) by (auto simp: staleDead_wp Let_def at_inv_def)
  show "at_inv a w' \<Longrightarrow> wp (do { dead \<leftarrow> staleDead E h; if dead then teardownDead E h else ret () }) (\<lambda>_. at_inv a) w'"
    for w' by (auto intro!: wp_bindI [OF no] simp: wp_return)
qed

lemma live_holder_admitted:
  assumes w: "good_w w" and s: "slots (invw w) (IdUserID who) = Some j" and h: "recs (invw w) j = Some h" "IsActive h"
    and live: "\<forall>v. fst (vm_is_live (vmm E) (ID h) v) \<noteq> LiveNo"
    and m: "inventory.mints_for (IdUserID who)"
  shows "wp (create_admitted E who t sz res) (\<lambda>r w'. at_inv (invw w) w' \<and> r = Inl (Sentinel ErrQuota)) w"
  unfolding create_admitted_def
proof (rule wp_bindI [OF new_sandbox_C [OF w m]], goal_cases)
  case (1 sb w1)
  then have sb: "lawful_rec own sb" "SbState sb = StateCreating" and u: "UserID sb = IdUserID who"
    and w1: "at_inv (invw w) w1" by (auto simp: at_inv_def)
  have full: "wp (on_store (ReserveUserSlot (rds E) Caller sb)) (\<lambda>g w'. at_inv (invw w) w' \<and> g = Inr False) w'"
    if "at_inv (invw w) w'" for w'
    using that s u by (intro wp_mono [OF Reserve_C [OF _ sb]]) (auto simp: at_inv_def spec_reserve_def)
  show ?case
    by (auto intro!: wp_bindI [OF full] wp_bindI [OF live_holder_stays [OF _ s h live]] w1 simp: wp_return)
qed

lemma live_holder_blocks_C:
  assumes w: "good_w w" and s: "slots (invw w) (IdUserID who) = Some j" and h: "recs (invw w) j = Some h" "IsActive h"
    and live: "\<forall>v. fst (vm_is_live (vmm E) (ID h) v) \<noteq> LiveNo"
    and m: "inventory.mints_for (IdUserID who)"
  shows "wp (Create E who t sz res) (\<lambda>r w'. at_inv (invw w) w' \<and> (\<exists>e. r = Inl e)) w"
proof (rule Create_frame [of "rdb w"], goal_cases)
  case (3 w')
  then have w': "good_w w'" "invw w' = invw w" by (simp_all add: at_conn_def)
  show ?case
    by (rule wp_mono [OF live_holder_admitted [OF w'(1)]]) (use w' s h live m in auto)
qed (use w in \<open>auto simp: at_conn_def at_inv_def\<close>)

section \<open>Teardown of a dead VM\<close>

text \<open>No trace of \<open>i\<close> in the store and no listener in the relay.\<close>

definition removed :: "string \<Rightarrow> ('r, 'v, 'h) world \<Rightarrow> bool" where
  "removed i w \<longleftrightarrow> gone i (invw w) \<and>
     (case ssh w of None \<Rightarrow> True | Some r \<Rightarrow> map_of (byID r) i = None)"

definition cut_off :: "inventory \<Rightarrow> string \<Rightarrow> ('r, 'v, 'h) world \<Rightarrow> bool" where
  "cut_off a i w \<longleftrightarrow> at_inv a w \<and> (case ssh w of None \<Rightarrow> True | Some r \<Rightarrow> map_of (byID r) i = None)"

lemma Close_cuts:
  "wp (close_ssh i) (\<lambda>_ w'. case ssh w' of None \<Rightarrow> True | Some r \<Rightarrow> map_of (byID r) i = None) w"
  by (auto simp: wp_close_ssh Close_def retire_def map_of_delete_None split: option.splits)

lemma close_ssh_cuts: "at_inv a w \<Longrightarrow> wp (close_ssh i) (\<lambda>_. cut_off a i) w"
  by (rule wp_mono [OF wp_conj [OF at_inv_parts(4) Close_cuts]]) (simp_all add: cut_off_def)

lemma cut_off_parts:
  "cut_off a i w \<Longrightarrow> wp (on_vms f) (\<lambda>_. cut_off a i) w" "cut_off a i w \<Longrightarrow> wp (forget_prep j) (\<lambda>_. cut_off a i) w"
  by (simp_all add: cut_off_def at_inv_def wp_on_vms wp_forget_prep)

lemma delete_removes:
  assumes w: "cut_off a i w" and "sid i"
  shows "wp (on_store (Delete (rds E) cx i)) (\<lambda>e w'. good_w w' \<and> e = None \<and> removed i w' \<and>
     invw w' = (if recs a i = None then a else spec_delete i (own i) a)) w"
proof -
  have g: "good_w w" "invw w = a" and c: "case ssh w of None \<Rightarrow> True | Some r \<Rightarrow> map_of (byID r) i = None"
    using w by (auto simp: cut_off_def at_inv_def)
  show ?thesis
  proof (rule wp_mono [OF Delete_C [OF g(1) assms(2)]], goal_cases)
    case (1 e w')
    then have w': "good_w w'" and i': "invw w' = (if recs a i = None then a else spec_delete i (own i) a)"
      and rest: "ssh w' = ssh w" "e = None" using g(2) by auto
    have "recs (invw w') i = None" by (simp add: i')
    with consistent_gone [OF consistent_inv, of "rdb w'" i] w' have "gone i (invw w')" by simp
    with w' i' rest c show ?case by (simp add: removed_def)
  qed
qed

text \<open>A VM manager that either deletes or, when it does not, answers that the VM is dead.\<close>

definition yields :: "string \<Rightarrow> bool" where
  "yields i \<longleftrightarrow> (\<forall>v. fst (vm_delete (vmm E) i v) = None \<or>
     fst (vm_is_live (vmm E) i (snd (vm_delete (vmm E) i v))) = LiveNo)"

lemma finishTeardown_removes:
  assumes w: "cut_off a i w" and i: "sid i" and y: "yields i"
  shows "wp (finishTeardown E i) (\<lambda>e w'. good_w w' \<and> e = None \<and> removed i w' \<and>
     invw w' = (if recs a i = None then a else spec_delete i (own i) a)) w"
proof -
  have at: "cut_off a i (w\<lparr>vms := v\<rparr>)" for v
    using w by (simp add: cut_off_def at_inv_def)
  from y have "fst (vm_delete (vmm E) i (vms w)) = None \<or>
     fst (vm_is_live (vmm E) i (snd (vm_delete (vmm E) i (vms w)))) = LiveNo" by (simp add: yields_def)
  then show ?thesis
    unfolding finishTeardown_def wp_bind wp_on_vms
    using delete_removes [OF at i]
    by (cases "fst (vm_delete (vmm E) i (vms w))") (auto simp: wp_bind wp_on_vms)
qed

lemma Put_at:
  "at_inv a w \<Longrightarrow> lawful_rec own sb \<Longrightarrow>
   wp (on_store (Put (rds E) cx sb)) (\<lambda>e w'. at_inv (spec_put sb a) w' \<and> e = None) w"
  by (rule wp_mono [OF Put_C]) (auto simp: at_inv_def)

lemma teardownDead_removes:
  assumes w: "at_inv a w" and sb: "lawful_rec own sb" and y: "yields (ID sb)"
  shows "wp (teardownDead E sb) (\<lambda>_. removed (ID sb)) w"
proof -
  have i: "sid (ID sb)" using sb by (simp add: lawful_rec_def)
  show ?thesis
    unfolding teardownDead_def
    by (auto intro!: at_inv_binds wp_bindI [OF Put_at] wp_bindI [OF close_ssh_cuts]
        wp_bindI [OF cut_off_parts(2)] wp_bindI [OF finishTeardown_removes [OF _ i y]] w
        simp: sb wp_return)
qed

lemma dead_holder_removed:
  assumes w: "at_inv a w" and s: "slots a u = Some j" and h: "recs a j = Some h" "SbState h = StateRunning"
    and dead: "\<forall>v. fst (vm_is_live (vmm E) j v) = LiveNo"
  shows "wp (reconcileUserSlot E u) (\<lambda>_. removed j) w"
proof (rule holder_read [OF w s h(1)])
  show "SbState h \<noteq> StateError" using h(2) by simp
  have c: "good_conn own ks (rdb w)" and a: "a = inv_of ks (rdb w)" using w by (auto simp: at_inv_def)
  from inv_rec [OF c h(1) [unfolded a]] have id: "ID h = j" and law: "lawful_rec own h"
    by (auto simp: lawful_rec_def)
  have y: "yields (ID h)" using dead by (simp add: yields_def id)
  have yes: "at_inv a w' \<Longrightarrow> wp (staleDead E h) (\<lambda>d w'. at_inv a w' \<and> d) w'" for w'
    using dead h(2) by (auto simp: staleDead_wp Let_def at_inv_def in_grace_def IsActive_def id)
  show "at_inv a w' \<Longrightarrow> wp (do { d \<leftarrow> staleDead E h; if d then teardownDead E h else ret () }) (\<lambda>_. removed j) w'"
    for w' using teardownDead_removes [OF _ law y] by (auto intro!: wp_bindI [OF yes] simp: id)
qed

section \<open>Deletion\<close>

lemma SvcGet_at:
  assumes w: "at_inv a w" and i: "sid i"
  shows "wp (SvcGet E who i) (\<lambda>g w'. at_inv a w' \<and>
     (case recs a i of
        None \<Rightarrow> g = Inl (Sentinel ErrNotFound)
      | Some sb \<Rightarrow>
          if IsAdmin who \<or> UserID sb = IdUserID who then \<exists>n. g = Inr (sb\<lparr>SSHConnections := n\<rparr>)
          else g = Inl (Sentinel ErrForbidden))) w"
  unfolding SvcGet_def
proof (rule wp_bindI [OF at_inv_Get [OF w i]], goal_cases)
  case (1 g w1)
  then have w1: "at_inv a w1" and g: "g = Inr (recs a i)" by auto
  have conn: "wp (connections E j) (\<lambda>_. at_inv a) w1" for j
    by (rule at_inv_parts(6) [OF w1])
  show ?case
    unfolding g by (auto intro!: wp_bindI [OF conn] simp: wp_return w1 split: option.split)
qed

lemma SvcDelete_at:
  assumes w: "at_inv a w" and i: "sid i" "yields i"
    and who: "\<And>sb. recs a i = Some sb \<Longrightarrow> IsAdmin who \<or> UserID sb = IdUserID who"
  shows "wp (SvcDelete E who i) (\<lambda>e w'. good_w w' \<and> recs (invw w') = (recs a)(i := None) \<and>
     (case recs a i of None \<Rightarrow> e = Some (Sentinel ErrNotFound) | Some _ \<Rightarrow> e = None \<and> removed i w')) w"
  unfolding SvcDelete_def
proof (rule wp_bindI [OF SvcGet_at [OF w i(1)]], goal_cases)
  case (1 g w1)
  show ?case
  proof (cases "recs a i")
    case None
    with 1 show ?thesis by (auto simp: wp_return at_inv_def fun_eq_iff)
  next
    case (Some sb)
    with 1 who obtain n where g: "g = Inr (sb\<lparr>SSHConnections := n\<rparr>)" and w1: "at_inv a w1" by auto
    have c: "good_conn own ks (rdb w)" and a: "a = inv_of ks (rdb w)" using w by (auto simp: at_inv_def)
    from inv_rec [OF c Some [unfolded a]] have id: "ID sb = i" and law: "lawful_rec own sb"
      by (auto simp: lawful_rec_def)
    have fin: "cut_off (spec_put sb' a) i w' \<Longrightarrow> ID sb' = i \<Longrightarrow>
        wp (finishTeardown E i) (\<lambda>e w'. good_w w' \<and> recs (invw w') = (recs a)(i := None) \<and> e = None \<and> removed i w') w'"
      for sb' w'
      by (rule wp_mono [OF finishTeardown_removes [OF _ i]])
        (auto simp: spec_put_def spec_delete_def Let_def)
    show ?thesis
      unfolding g sum.case Some option.case
      using fin law id
      by (auto intro!: at_inv_binds wp_bindI [OF Put_at] wp_bindI [OF close_ssh_cuts]
          wp_bindI [OF cut_off_parts(2)] w1)
  qed
qed

lemma wp_for_each_err_all:
  assumes "I xs w" and "\<And>x xs w. I (x # xs) w \<Longrightarrow> wp (f x) (\<lambda>r w'. r = None \<and> I xs w') w"
  shows "wp (for_each_err xs f) (\<lambda>r w'. r = None \<and> I [] w') w"
  using assms(1)
proof (induction xs arbitrary: w)
  case (Cons x xs)
  show ?case
    unfolding for_each_err.simps
    by (rule wp_bindI [OF assms(2) [OF Cons.prems]]) (auto intro: Cons.IH)
qed (simp add: wp_return)

text \<open>The sandboxes of \<open>u\<close> that are still there are among those still to be deleted.\<close>

definition left_over :: "string \<Rightarrow> sandbox list \<Rightarrow> ('r, 'v, 'h) world \<Rightarrow> bool" where
  "left_over u sbs w \<longleftrightarrow> good_w w \<and> (\<forall>i sb. recs (invw w) i = Some sb \<and> UserID sb = u \<longrightarrow> i \<in> ID ` set sbs) \<and>
     (\<forall>sb \<in> set sbs. sid (ID sb) \<and> own (ID sb) = u)"

lemma delete_each:
  assumes w: "left_over u (sb # sbs) w" and who: "IsAdmin who" and y: "\<forall>i. own i = u \<longrightarrow> yields i"
  shows "wp (do { d \<leftarrow> SvcDelete E who (ID sb);
                  ret (case d of None \<Rightarrow> None | Some e \<Rightarrow> if errors_is e ErrNotFound then None else Some e) })
     (\<lambda>r w'. r = None \<and> left_over u sbs w') w"
proof -
  from w have at: "at_inv (invw w) w" and i: "sid (ID sb)" "yields (ID sb)"
    using y by (auto simp: left_over_def at_inv_def)
  show ?thesis
    by (rule wp_bindI [OF SvcDelete_at [OF at i]])
      (use w who in \<open>auto simp: wp_return left_over_def split: option.splits if_splits\<close>)
qed

text \<open>Two facts of the locales this one extends, under its own name.\<close>

lemma reconcileUserSlot_slots:
  "good_w w \<Longrightarrow> wp (reconcileUserSlot E u) (\<lambda>_ w'. slots (invw w') \<subseteq>\<^sub>m slots (invw w)) w"
  by (rule wp_mono [OF no_new_slot.reconcileUserSlot_I [where S = "slots (invw w)"]]) auto

lemma rec_sid: "good_w w \<Longrightarrow> recs (invw w) i = Some sb \<Longrightarrow> sid i"
  using inv_rec(1) [OF good_worldD(1)] .

lemma DeleteUserData_C:
  assumes w: "good_w w" and who: "IsAdmin who" and y: "\<forall>i. own i = u \<longrightarrow> yields i"
  shows "wp (DeleteUserData E who u) (\<lambda>_ w'. (\<forall>i sb. recs (invw w') i = Some sb \<longrightarrow> UserID sb \<noteq> u) \<and>
     slots (invw w') u = None \<and> by_user (invw w') u = {}) w"
proof -
  have scan: "wp (on_store (ListByUserScan (rds E) Caller u)) (\<lambda>g w'. \<exists>sbs. g = Inr sbs \<and> left_over u sbs w') w"
    unfolding ListByUserScan_def wp_on_store
  proof (rule wp_bindI [OF List_calm [OF calm good_worldD(1) [OF w]]], goal_cases)
    case (1 g c1)
    then obtain "is" where g: "g = Inr (map (the \<circ> recs (invw w)) is)" "set is = all_ids (invw w)"
      and c1: "good_conn own ks c1" "inv_of ks c1 = invw w" by (auto simp: listed_def)
    from consistent_inv [OF good_worldD(1) [OF w]] g(2) have dm: "set is = dom (recs (invw w))"
      by (simp add: consistent_def)
    have ids: "recs (invw w) i = Some sb \<Longrightarrow> ID sb = i \<and> UserID sb = own i \<and> sid i" for i sb
      using inv_rec [OF good_worldD(1) [OF w]] by blast
    show ?case
      using w c1 ids dm by (force simp: g(1) wp_return left_over_def)
  qed
  have purge: "left_over u [] w' \<Longrightarrow> wp (on_store (PurgeUserIndexes (rds E) Caller u)) (\<lambda>e w'. e = None \<and>
      (\<forall>i sb. recs (invw w') i = Some sb \<longrightarrow> UserID sb \<noteq> u) \<and> slots (invw w') u = None \<and> by_user (invw w') u = {}) w'" for w'
    unfolding wp_on_store left_over_def
    by (rule wp_mono [OF Purge_calm [OF calm]]) (auto simp: spec_purge_def)
  show ?thesis
    unfolding DeleteUserData_def
    by (auto intro!: wp_bindI [OF scan] wp_bindI [OF wp_for_each_err_all [where I = "left_over u"]]
        wp_bindI [OF purge] delete_each [OF _ who y] simp: who wp_return wp_on_fs)
      (simp add: wp_def)
qed

end

section \<open>The properties\<close>

text \<open>No listener of the relay serves \<open>i\<close>.\<close>

definition unserved :: "string \<Rightarrow> relay option \<Rightarrow> bool" where
  "unserved i rl \<longleftrightarrow> (case rl of None \<Rightarrow> True | Some r \<Rightarrow> map_of (byID r) i = None)"

text \<open>
  C8. One sandbox per user, in the service. While the user's slot is held by an active sandbox whose
  VM is not definitively dead, every create of that user fails, whatever it asks for, and leaves
  the inventory exactly as it was.
\<close>

theorem live_holder_blocks:
  assumes "calm_service E ks own" and "good_world own ks w"
    and "\<forall>n. random16 E n \<noteq> [] \<and> own (hex_encode (random16 E n)) = IdUserID who"
    and "slots (inv_of ks (rdb w)) (IdUserID who) = Some j"
    and "recs (inv_of ks (rdb w)) j = Some h" and "IsActive h"
    and "\<forall>v. fst (vm_is_live (vmm E) (ID h) v) \<noteq> LiveNo"
    and "run_state (Create E who t sz res) w = (r, w')"
  shows "(\<exists>e. r = Inl e) \<and> inv_of ks (rdb w') = inv_of ks (rdb w)"
  using wp_runI [OF calm_service.live_holder_blocks_C [OF assms(1,2,4-7,3)] assms(8)]
  unfolding calm_service.at_inv_def [OF assms(1)] by blast




section \<open>Witnesses\<close>

lemma calm_surroundings:
  fixes E :: "(mem, 'v, 'h) surroundings"
  assumes "rds E = calm_env"
  shows "calm_service E mem_ks own"
  by unfold_locales (simp_all add: assms, simp_all add: calm_env_def mem_exec_spec)

text \<open>A VM manager that always gives the same answer about a VM, and ids for \<^verbatim>\<open>alice\<close>.\<close>

definition demo_E2 :: "liveness \<Rightarrow> (mem, string list, mhost) surroundings" where
  "demo_E2 l = demo_E\<lparr>vmm := demo_vmm\<lparr>vm_is_live := (\<lambda>_ v. (l, v))\<rparr>, random16 := (\<lambda>_. [162])\<rparr>"

lemma demo_E2_calm: "calm_service (demo_E2 l) mem_ks own"
  by (rule calm_surroundings) (simp add: demo_E2_def)

theorem live_holder_blocks_witness:
  "\<exists>e. fst (run_state (Create (demo_E2 LiveUnknown) alice ''ubuntu'' [] no_resources) (demo_world [])) = Inl e"
proof -
  obtain r w' where run: "run_state (Create (demo_E2 LiveUnknown) alice ''ubuntu'' [] no_resources) (demo_world []) = (r, w')"
    by fastforce
  have "hex_encode [162] = ''a2''" by code_simp
  then have "\<forall>n. random16 (demo_E2 LiveUnknown) n \<noteq> [] \<and>
      demo_own (hex_encode (random16 (demo_E2 LiveUnknown) n)) = IdUserID alice"
    by (simp add: demo_E2_def)
  from live_holder_blocks [OF demo_E2_calm good_demo_world this, where j = "''a1''" and h = "demo_sb ''a1'' StateCreating"] run
  show ?thesis by (simp add: demo_inv IsActive_def demo_E2_def)
qed

text \<open>The sandbox of \<^verbatim>\<open>alice\<close>, running.\<close>

definition running_world :: "(mem, string list, mhost) world" where
  "running_world = (demo_world [])\<lparr>rdb := \<lparr>server = perform mem_exec (QRunning (demo_sb ''a1'' StateRunning)) demo_mem,
     calls = 0\<rparr>\<rparr>"

lemma running_world_state:
  "good_world demo_own mem_ks running_world"
  "slots (inv_of mem_ks (rdb running_world)) ''alice'' = Some ''a1''"
  "recs (inv_of mem_ks (rdb running_world)) ''a1'' = Some (demo_sb ''a1'' StateRunning)"
proof -
  have l: "lawful demo_own (QRunning (demo_sb ''a1'' StateRunning))"
    by (simp add: demo_own_def sid_def hex_char_def is_digit_def)
  have "inventory_of (mem_ks demo_mem) = inv_of mem_ks demo_conn"
    by (simp add: inv_of_def demo_conn_def)
  with mem.perform_refines [OF goodD(1) [OF demo_mem_state(1)] l] demo_inv
  have i: "inventory_of (mem_ks (perform mem_exec (QRunning (demo_sb ''a1'' StateRunning)) demo_mem)) =
      (inv_of mem_ks demo_conn)\<lparr>recs := [''a1'' \<mapsto> demo_sb ''a1'' StateRunning],
         events := events (inv_of mem_ks demo_conn) @ [(eventsChannel ''alice'', marshal (demo_sb ''a1'' StateRunning))]\<rparr>"
    by (simp add: spec_put_running_def Let_def)
  show "good_world demo_own mem_ks running_world"
    using mem.perform_good [OF demo_mem_state(1) l] good_demo_world [of "[]"]
    by (simp add: running_world_def good_world_def good_conn_def)
  show "slots (inv_of mem_ks (rdb running_world)) ''alice'' = Some ''a1''"
    "recs (inv_of mem_ks (rdb running_world)) ''a1'' = Some (demo_sb ''a1'' StateRunning)"
    using i demo_inv by (simp_all del: perform.simps add: running_world_def inv_of_def [of _ "\<lparr>server = _, calls = _\<rparr>"])
qed


lemma demo_deletes [simp]: "fst (vm_delete demo_vmm i v) = None"
  by (simp add: demo_vmm_def)



end
