(* ===== verification/Api.thy ===== *)
theory Api
  imports Service_Invariant
begin

text \<open>
  \<^verbatim>\<open>internal/api/api.go\<close>: the HTTP surface. A request is what the handlers read of it (method, the
  decoded segments of the cleaned path, the \<^verbatim>\<open>Authorization\<close> header, the query parameter
  \<^verbatim>\<open>user_id\<close>, the first JSON value of the body), a response its status, headers and body. The
  router is the part of \<^verbatim>\<open>net/http.ServeMux\<close> that the patterns use. Each handler is a program on
  the service's \<open>world\<close>. The keys of a JSON body match field names in any case, as in
  \<^verbatim>\<open>encoding/json\<close>.
\<close>

section \<open>Requests and responses\<close>

record http_request =
  ReqMethod :: string
  ReqPath :: "string list"
  Authorization :: string
  QueryUserID :: string
  Body :: "json option"

datatype body = NoBody | TextBody string | JsonBody json

record http_response =
  Status :: nat
  Headers :: "(string \<times> string) list"
  RespBody :: body

definition writeJSON :: "nat \<Rightarrow> json \<Rightarrow> http_response" where
  "writeJSON code v =
     \<lparr>Status = code, Headers = [(''Content-Type'', ''application/json'')], RespBody = JsonBody v\<rparr>"

definition httpErr :: "nat \<Rightarrow> string \<Rightarrow> http_response" where
  "httpErr code msg = writeJSON code (JObj [(''error'', JStr msg)])"

definition noContent :: http_response where
  "noContent = \<lparr>Status = 204, Headers = [], RespBody = NoBody\<rparr>"

definition writeServiceErr :: "goerr \<Rightarrow> http_response" where
  "writeServiceErr e =
     (if errors_is e ErrNotFound then httpErr 404 (err_text e)
      else if errors_is e ErrForbidden then httpErr 403 (err_text e)
      else if errors_is e ErrQuota \<or> errors_is e ErrAnonymous then httpErr 409 (err_text e)
      else if errors_is e ErrDiskFull \<or> errors_is e ErrSSH then httpErr 503 (err_text e)
      else if errors_is e ErrCapacity
      then (httpErr 503 (err_text e))\<lparr>Headers := [(''Retry-After'', ''60''), (''Content-Type'', ''application/json'')]\<rparr>
      else httpErr 500 (err_text e))"

section \<open>Routes\<close>

datatype gate = Open | Auth | Admin

datatype endpoint =
  EHealth | EList | ECreate | EGet string | EDelete string | EExec string | EAttach string
| EPrepareSSH string | EStats | ETemplates | EDeleteUserData string

text \<open>The patterns that match a path, with their methods; a wildcard matches one non-empty segment.\<close>

definition patterns :: "string list \<Rightarrow> (string \<times> gate \<times> endpoint) list" where
  "patterns p =
     (let wild = (\<lambda>k. k < length p \<and> p ! k \<noteq> []) in
      if p = [''health''] then [(''GET'', Open, EHealth)]
      else if p = [''sandbox''] then [(''GET'', Auth, EList), (''POST'', Auth, ECreate)]
      else if length p = 2 \<and> p ! 0 = ''sandbox'' \<and> wild 1
      then [(''GET'', Auth, EGet (p ! 1)), (''DELETE'', Auth, EDelete (p ! 1))]
      else if length p = 3 \<and> p ! 0 = ''sandbox'' \<and> wild 1 \<and> p ! 2 = ''exec''
      then [(''POST'', Auth, EExec (p ! 1))]
      else if length p = 3 \<and> p ! 0 = ''sandbox'' \<and> wild 1 \<and> p ! 2 = ''attach-device''
      then [(''POST'', Auth, EAttach (p ! 1))]
      else if length p = 3 \<and> p ! 0 = ''sandbox'' \<and> wild 1 \<and> p ! 2 = ''ssh''
      then [(''POST'', Admin, EPrepareSSH (p ! 1))]
      else if p = [''stats''] then [(''GET'', Auth, EStats)]
      else if p = [''templates''] then [(''GET'', Auth, ETemplates)]
      else if p = [''admin'', ''api'', ''sandbox''] then [(''GET'', Admin, EList)]
      else if length p = 4 \<and> take 3 p = [''admin'', ''api'', ''sandbox''] \<and> wild 3
      then [(''GET'', Admin, EGet (p ! 3)), (''DELETE'', Admin, EDelete (p ! 3))]
      else if length p = 5 \<and> take 3 p = [''admin'', ''api'', ''users''] \<and> wild 3 \<and> p ! 4 = ''data''
      then [(''DELETE'', Admin, EDeleteUserData (p ! 3))]
      else if p = [''admin'', ''api'', ''stats''] then [(''GET'', Admin, EStats)]
      else [])"

text \<open>The endpoint of a request, or the status the router answers. \<^verbatim>\<open>GET\<close> also matches \<^verbatim>\<open>HEAD\<close>.\<close>

definition route :: "string \<Rightarrow> string list \<Rightarrow> nat + gate \<times> endpoint" where
  "route meth p =
     (let m = (if meth = ''HEAD'' then ''GET'' else meth) in
      case map_of (patterns p) m of
        Some g \<Rightarrow> Inr g
      | None \<Rightarrow> Inl (if patterns p = [] then 404 else 405))"

text \<open>What the router answers itself, without the \<^verbatim>\<open>Allow\<close> header.\<close>

definition router_error :: "nat \<Rightarrow> http_response" where
  "router_error code =
     \<lparr>Status = code, Headers = [(''Content-Type'', ''text/plain; charset=utf-8'')],
      RespBody = TextBody (if code = 404 then ''404 page not found'' else ''Method Not Allowed'')\<rparr>"

section \<open>Bodies\<close>

text \<open>The fields of a body for \<^verbatim>\<open>Decode\<close> into a struct; \<^verbatim>\<open>null\<close> leaves the struct as it is.\<close>

definition body_fields :: "json option \<Rightarrow> Sandbox_Record.fields option" where
  "body_fields b =
     (case b of
        Some (JObj ob) \<Rightarrow> Some (map (\<lambda>(k, v). (map to_lower k, v)) ob)
      | Some JNull \<Rightarrow> Some []
      | _ \<Rightarrow> None)"

record create_body =
  BodyUserID :: string
  BodyTemplate :: string
  BodySize :: string
  BodyResources :: resources

definition decode_create :: "json option \<Rightarrow> create_body option" where
  "decode_create b = do {
     ob \<leftarrow> body_fields b;
     u \<leftarrow> dec_str ''user_id'' ob;
     t \<leftarrow> dec_str ''template'' ob;
     sz \<leftarrow> dec_str ''size'' ob;
     mem \<leftarrow> dec_uint ''memory_mib'' ob;
     cpu \<leftarrow> dec_uint ''vcpus'' ob;
     disk \<leftarrow> dec_uint ''disk_mib'' ob;
     Some \<lparr>BodyUserID = u, BodyTemplate = t, BodySize = sz,
           BodyResources = \<lparr>MemoryMiB = mem, VCPUs = cpu, ResDiskMiB = disk\<rparr>\<rparr> }"

fun dec_strs :: "json list \<Rightarrow> string list option" where
  "dec_strs [] = Some []"
| "dec_strs (JStr s # js) = map_option (\<lambda>r. s # r) (dec_strs js)"
| "dec_strs (JNull # js) = map_option (\<lambda>r. [] # r) (dec_strs js)"
| "dec_strs (_ # js) = None"

definition decode_argv :: "json option \<Rightarrow> string list option" where
  "decode_argv b = do {
     ob \<leftarrow> body_fields b;
     case json_field ''argv'' ob of
       None \<Rightarrow> Some [] | Some JNull \<Rightarrow> Some [] | Some (JArr js) \<Rightarrow> dec_strs js | _ \<Rightarrow> None }"

definition decode_device :: "json option \<Rightarrow> string option" where
  "decode_device b = do { ob \<leftarrow> body_fields b; dec_str ''device_id'' ob }"

section \<open>Handlers\<close>

text \<open>The identity and the arguments with which \<^verbatim>\<open>create\<close> calls the service.\<close>

definition create_args :: "identity \<Rightarrow> create_body \<Rightarrow> identity \<times> string \<times> string \<times> resources" where
  "create_args who b =
     (let who' = (if IsAdmin who \<and> BodyUserID b \<noteq> [] then who\<lparr>IdUserID := BodyUserID b\<rparr> else who) in
      if IsAdmin who' then (who', BodyTemplate b, BodySize b, BodyResources b)
      else (who', BodyTemplate b, [], no_resources))"

definition api_create ::
  "('r, 'v, 'h) surroundings \<Rightarrow> http_request \<Rightarrow> identity \<Rightarrow> ('r, 'v, 'h, http_response) svc" where
  "api_create E req who =
     (case decode_create (Body req) of
        None \<Rightarrow> ret (httpErr 400 ''invalid JSON body'')
      | Some b \<Rightarrow>
          (case create_args who b of
             (who', t, sz, res) \<Rightarrow>
               do { r \<leftarrow> Create E who' t sz res;
                    ret (case r of Inl e \<Rightarrow> writeServiceErr e
                         | Inr sb \<Rightarrow> writeJSON 201 (sandbox_json sb)) }))"

definition api_get ::
  "('r, 'v, 'h) surroundings \<Rightarrow> string \<Rightarrow> identity \<Rightarrow> ('r, 'v, 'h, http_response) svc" where
  "api_get E i who =
     do { r \<leftarrow> SvcGet E who i;
          ret (case r of Inl e \<Rightarrow> writeServiceErr e | Inr sb \<Rightarrow> writeJSON 200 (sandbox_json sb)) }"

definition list_identity :: "http_request \<Rightarrow> identity \<Rightarrow> identity" where
  "list_identity req who = (if IsAdmin who then who\<lparr>ScopeUserID := QueryUserID req\<rparr> else who)"

definition api_list ::
  "('r, 'v, 'h) surroundings \<Rightarrow> http_request \<Rightarrow> identity \<Rightarrow> ('r, 'v, 'h, http_response) svc" where
  "api_list E req who =
     do { r \<leftarrow> SvcList E (list_identity req who);
          ret (case r of Inl e \<Rightarrow> httpErr 500 (err_text e)
               | Inr sbs \<Rightarrow> writeJSON 200 (JArr (map sandbox_json sbs))) }"

text \<open>The answer to an operation without a result.\<close>

definition done_or_err :: "goerr option \<Rightarrow> http_response" where
  "done_or_err r = (case r of Some e \<Rightarrow> writeServiceErr e | None \<Rightarrow> noContent)"

definition api_delete ::
  "('r, 'v, 'h) surroundings \<Rightarrow> string \<Rightarrow> identity \<Rightarrow> ('r, 'v, 'h, http_response) svc" where
  "api_delete E i who = do { r \<leftarrow> SvcDelete E who i; ret (done_or_err r) }"

definition api_deleteUserData ::
  "('r, 'v, 'h) surroundings \<Rightarrow> string \<Rightarrow> identity \<Rightarrow> ('r, 'v, 'h, http_response) svc" where
  "api_deleteUserData E u who = do { r \<leftarrow> DeleteUserData E who u; ret (done_or_err r) }"

definition api_exec ::
  "('r, 'v, 'h) surroundings \<Rightarrow> http_request \<Rightarrow> string \<Rightarrow> identity \<Rightarrow> ('r, 'v, 'h, http_response) svc" where
  "api_exec E req i who =
     (case decode_argv (Body req) of
        None \<Rightarrow> ret (httpErr 400 ''invalid JSON body'')
      | Some argv \<Rightarrow>
          if argv = [] then ret (httpErr 400 ''argv is required'')
          else do { r \<leftarrow> SvcExec E who i argv;
                    ret (case r of
                           Inl e \<Rightarrow> writeServiceErr e
                         | Inr (out, code) \<Rightarrow>
                             writeJSON 200 (JObj [(''exit_code'', JInt code), (''output'', JStr out)])) })"

definition api_attachDevice ::
  "('r, 'v, 'h) surroundings \<Rightarrow> http_request \<Rightarrow> string \<Rightarrow> identity \<Rightarrow> ('r, 'v, 'h, http_response) svc" where
  "api_attachDevice E req i who =
     (case decode_device (Body req) of
        None \<Rightarrow> ret (httpErr 400 ''invalid JSON body'')
      | Some d \<Rightarrow>
          if d = [] then ret (httpErr 400 ''device_id is required'')
          else do { r \<leftarrow> AttachDevice E who i d; ret (done_or_err r) })"

definition endpoint_json :: "ssh_endpoint \<Rightarrow> json" where
  "endpoint_json ep = JObj
     [(''host'', JStr (EpHost ep)), (''port'', JInt (EpPort ep)), (''hostKey'', JStr (EpHostKey ep)),
      (''user'', JStr (EpUser ep)), (''cloudDeviceId'', JStr (EpCloudDeviceID ep))]"

definition api_prepareSSH ::
  "('r, 'v, 'h) surroundings \<Rightarrow> string \<Rightarrow> identity \<Rightarrow> ('r, 'v, 'h, http_response) svc" where
  "api_prepareSSH E i who =
     do { r \<leftarrow> PrepareSSH E who i;
          ret (case r of Inl e \<Rightarrow> writeServiceErr e | Inr ep \<Rightarrow> writeJSON 200 (endpoint_json ep)) }"

definition api_stats :: "('r, 'v, 'h) surroundings \<Rightarrow> ('r, 'v, 'h, http_response) svc" where
  "api_stats E =
     do { r \<leftarrow> Stats E;
          ret (case r of Inl e \<Rightarrow> httpErr 500 (err_text e)
               | Inr st \<Rightarrow> writeJSON 200 (JObj (map (\<lambda>(k, n). (k, JInt n)) st))) }"

definition api_templates :: http_response where
  "api_templates = writeJSON 200 (JArr [JObj
     [(''id'', JStr ''ubuntu-base''), (''name'', JStr ''Ubuntu base''),
      (''description'', JStr ''Default Ubuntu userland with the tfa-* CLI toolset.'')]])"

definition api_health :: http_response where
  "api_health = \<lparr>Status = 200, Headers = [], RespBody = TextBody ''ok''\<rparr>"

fun dispatch ::
  "('r, 'v, 'h) surroundings \<Rightarrow> http_request \<Rightarrow> endpoint \<Rightarrow> identity \<Rightarrow> ('r, 'v, 'h, http_response) svc" where
  "dispatch E req EHealth who = ret api_health"
| "dispatch E req EList who = api_list E req who"
| "dispatch E req ECreate who = api_create E req who"
| "dispatch E req (EGet i) who = api_get E i who"
| "dispatch E req (EDelete i) who = api_delete E i who"
| "dispatch E req (EExec i) who = api_exec E req i who"
| "dispatch E req (EAttach i) who = api_attachDevice E req i who"
| "dispatch E req (EPrepareSSH i) who = api_prepareSSH E i who"
| "dispatch E req EStats who = api_stats E"
| "dispatch E req ETemplates who = ret api_templates"
| "dispatch E req (EDeleteUserData u) who = api_deleteUserData E u who"

section \<open>The server\<close>

text \<open>
  \<^verbatim>\<open>auth\<close>: the bearer token's identity is given to the handler. \<open>pt\<close> is
  \<^verbatim>\<open>time.Parse(time.RFC3339, _)\<close> in nanoseconds.
\<close>

definition api_auth ::
  "('r, 'v, 'h) surroundings \<Rightarrow> (string \<Rightarrow> int option) \<Rightarrow> http_request \<Rightarrow>
   (identity \<Rightarrow> ('r, 'v, 'h, http_response) svc) \<Rightarrow> ('r, 'v, 'h, http_response) svc" where
  "api_auth E pt req handler =
     (case cut_prefix (Authorization req) ''Bearer '' of
        None \<Rightarrow> ret (httpErr 401 ''missing bearer token'')
      | Some tok \<Rightarrow>
          if tok = [] then ret (httpErr 401 ''missing bearer token'')
          else do {
            t \<leftarrow> ask (now_ns E);
            r \<leftarrow> on_store (ResolveIdentity (rds E) Caller pt t tok);
            case r of
              Inl _ \<Rightarrow> ret (httpErr 401 ''invalid token'')
            | Inr None \<Rightarrow> ret (httpErr 401 ''invalid token'')
            | Inr (Some who) \<Rightarrow> handler who })"

definition api_admin ::
  "('r, 'v, 'h) surroundings \<Rightarrow> (string \<Rightarrow> int option) \<Rightarrow> http_request \<Rightarrow>
   (identity \<Rightarrow> ('r, 'v, 'h, http_response) svc) \<Rightarrow> ('r, 'v, 'h, http_response) svc" where
  "api_admin E pt req handler =
     api_auth E pt req (\<lambda>who. if \<not> IsAdmin who then ret (httpErr 403 ''admin role required'') else handler who)"

definition ServeHTTP ::
  "('r, 'v, 'h) surroundings \<Rightarrow> (string \<Rightarrow> int option) \<Rightarrow> http_request \<Rightarrow> ('r, 'v, 'h, http_response) svc" where
  "ServeHTTP E pt req =
     (case route (ReqMethod req) (ReqPath req) of
        Inl code \<Rightarrow> ret (router_error code)
      | Inr (Open, ep) \<Rightarrow> ret api_health
      | Inr (Auth, ep) \<Rightarrow> api_auth E pt req (dispatch E req ep)
      | Inr (Admin, ep) \<Rightarrow> api_admin E pt req (dispatch E req ep))"

end
