(* ===== verification/Identity_Props.thy ===== *)
theory Identity_Props
  imports Store_Props
begin

text \<open>
  Who a token is resolved to (\<^verbatim>\<open>ResolveIdentity\<close>). The keys it reads are written by another program,
  so the theorems speak of any property \<open>P\<close> of the keyspace that nobody changes meanwhile.
\<close>

text \<open>
  What vouches for an identity, in keyspaces of the set \<open>P\<close>: the resource token names the user; or
  the API-key hash does, with the role; or an unexpired session of the token does.
\<close>

definition by_resource_token :: "(keyspace \<Rightarrow> bool) \<Rightarrow> string \<Rightarrow> identity \<Rightarrow> bool" where
  "by_resource_token P tok i \<longleftrightarrow> \<not> IsAdmin i \<and> IdUserID i \<noteq> [] \<and>
     (\<exists>s. P s \<and> kv s (''resource:token:'' @ tok) = Some (RStr (Text (IdUserID i))))"

definition by_api_key :: "(keyspace \<Rightarrow> bool) \<Rightarrow> string \<Rightarrow> identity \<Rightarrow> bool" where
  "by_api_key P tok i \<longleftrightarrow> IdUserID i \<noteq> [] \<and> \<not> IsAnonymous i \<and>
     (\<exists>s h. P s \<and> kv s (''apikey:'' @ tok) = Some (RHash h) \<and> h ''userId'' = Some (IdUserID i) \<and>
            (IsAdmin i \<longrightarrow> h ''role'' = Some ''admin''))"

definition by_session ::
  "(keyspace \<Rightarrow> bool) \<Rightarrow> (string \<Rightarrow> int option) \<Rightarrow> int \<Rightarrow> string \<Rightarrow> identity \<Rightarrow> bool" where
  "by_session P pt now tok i \<longleftrightarrow> \<not> IsAdmin i \<and> IdUserID i \<noteq> [] \<and>
     (\<exists>s A s' h sess. P s \<and> kv s (''session:idx:token:'' @ tok) = Some (RSet A) \<and> sess \<in> A \<and>
        P s' \<and> kv s' (''session:'' @ sess) = Some (RHash h) \<and> h ''userId'' = Some (IdUserID i) \<and>
        \<not> (\<exists>e t. h ''expiresAt'' = Some e \<and> e \<noteq> [] \<and> pt e = Some t \<and> t < now))"

text \<open>A command that only reads, under a property of the keyspace that the others keep.\<close>

locale stable_reads = redis_server "exec E" ks
  for E :: "'r redis_env" and ks :: "'r \<Rightarrow> keyspace" +
  fixes P :: "keyspace \<Rightarrow> bool"
  assumes others_keep: "P (ks r) \<Longrightarrow> P (ks (others E n r))"
begin

abbreviation stable :: "'r conn \<Rightarrow> bool" where
  "stable c \<equiv> P (ks (server c))"

lemma read_under:
  assumes "stable c" and "\<And>r. ks (snd (exec E cmd r)) = ks r"
  shows "wp (rdb_do E cx cmd)
           (\<lambda>res c'. stable c' \<and> (\<forall>rep. res = Inr rep \<longrightarrow> (\<exists>r. P (ks r) \<and> rep = fst (exec E cmd r)))) c"
proof -
  have "P (ks (others E (calls c) (server c)))" using assms(1) others_keep by simp
  then show ?thesis
    using assms(2) unfolding rdb_do_def wp_bind wp_return
    by (auto simp: wp_def run_roundtrip Let_def split_beta split: fault.splits reply.splits)
qed

lemma get_under:
  assumes "stable c"
  shows "wp (rdb_get E cx k) (\<lambda>g c'. stable c' \<and>
           (\<forall>v. g = Inr (Some v) \<longrightarrow> (\<exists>s. P s \<and> kv s k = Some (RStr v)))) c"
  unfolding rdb_get_def
proof (rule wp_bindI [OF read_under [OF assms get_spec(2)]], goal_cases)
  case (1 res c1)
  show ?case
  proof (cases res)
    case (Inr rep)
    with 1 obtain r where "P (ks r)" "rep = fst (exec E (CGet k) r)" by blast
    then show ?thesis
      using 1 by (cases "kv (ks r) k") (auto simp: Inr wp_return get_spec split: rval.splits)
  qed (use 1 in \<open>simp add: wp_return\<close>)
qed

lemma hmget_under:
  assumes "stable c"
  shows "wp (rdb_hmget2 E cx k f g) (\<lambda>v c'. stable c' \<and>
           (\<forall>a b. v = Inr (a, b) \<longrightarrow> (a = [] \<and> b = []) \<or>
              (\<exists>s h. P s \<and> kv s k = Some (RHash h) \<and> a = case_option [] id (h f) \<and>
                     b = case_option [] id (h g)))) c"
  unfolding rdb_hmget2_def
proof (rule wp_bindI [OF read_under [OF assms hmget_spec(2)]], goal_cases)
  case (1 res c1)
  show ?case
  proof (cases res)
    case (Inr rep)
    with 1 obtain r where r: "P (ks r)" "rep = fst (exec E (CHMGet k [f, g]) r)" by blast
    then show ?thesis
      using 1 by (cases "kv (ks r) k") (auto simp: Inr wp_return hmget_spec split: rval.splits)
  qed (use 1 in \<open>simp add: wp_return\<close>)
qed

lemma hget_under:
  assumes "stable c"
  shows "wp (rdb_hget_or_empty E cx k f) (\<lambda>v c'. stable c') c"
  unfolding rdb_hget_or_empty_def
  by (rule wp_bindI [OF read_under [OF assms hget_spec(2)]]) (simp add: wp_return)

lemma smembers_under:
  assumes "stable c"
  shows "wp (rdb_smembers E cx k) (\<lambda>v c'. stable c' \<and>
           (\<forall>xs x. v = Inr xs \<and> x \<in> set xs \<longrightarrow> (\<exists>s A. P s \<and> kv s k = Some (RSet A) \<and> x \<in> A))) c"
  unfolding rdb_smembers_def
proof (rule wp_bindI [OF read_under [OF assms smembers_keeps]], goal_cases)
  case (1 res c1)
  show ?case
  proof (cases res)
    case (Inr rep)
    with 1 obtain r where r: "P (ks r)" "rep = fst (exec E (CSMembers k) r)" by blast
    then show ?thesis
      using 1 smembers_spec [where r = r and k = k]
      by (cases "kv (ks r) k") (auto simp: Inr wp_return split: rval.splits reply.splits)
  qed (use 1 in \<open>simp add: wp_return\<close>)
qed

text \<open>What each source of an identity can answer.\<close>

lemma apikey_under:
  assumes "stable c"
  shows "wp (resolve_apikey E cx tok) (\<lambda>r c'. stable c' \<and>
           (\<forall>i. r = Some i \<longrightarrow> by_api_key P tok i)) c"
  unfolding resolve_apikey_def
proof (rule wp_bindI [OF hmget_under [OF assms]], goal_cases)
  case (1 v c1)
  show ?case
  proof (cases "\<exists>a b. v = Inr (a, b) \<and> a \<noteq> []")
    case True
    then obtain a b where v: "v = Inr (a, b)" "a \<noteq> []" by blast
    with 1 obtain s h where h: "P s" "kv s (''apikey:'' @ tok) = Some (RHash h)"
      "a = case_option [] id (h ''userId'')" "b = case_option [] id (h ''role'')" by blast
    from h(3) v(2) have "h ''userId'' = Some a" by (auto split: option.splits)
    moreover have "b = ''admin'' \<Longrightarrow> h ''role'' = Some ''admin''" using h(4) by (auto split: option.splits)
    ultimately show ?thesis
      using v h(1,2) 1 by (auto simp: wp_return mk_identity_def IsAdmin_def by_api_key_def)
  next
    case False
    with 1 show ?thesis by (auto simp: wp_return split: sum.splits prod.splits)
  qed
qed

lemma session_under:
  assumes "stable c"
  shows "wp (resolve_session E cx pt now tok) (\<lambda>r c'. stable c' \<and>
           (\<forall>i. r = Inr (Some i) \<longrightarrow> by_session P pt now tok i)) c"
  unfolding resolve_session_def
proof (rule wp_bindI [OF smembers_under [OF assms]], goal_cases)
  case (1 v c1)
  then have c1: "stable c1" by simp
  show ?case
  proof (cases "\<exists>sess xs. v = Inr (sess # xs)")
    case True
    then obtain sess xs where v: "v = Inr (sess # xs)" by blast
    with 1 obtain s A where A: "P s" "kv s (''session:idx:token:'' @ tok) = Some (RSet A)" "sess \<in> A"
      by auto
    show ?thesis
      unfolding v sum.case list.case
    proof (rule wp_bindI [OF hmget_under [OF c1]], goal_cases)
      case (1 w c2)
      then have c2: "stable c2" by simp
      show ?case
      proof (cases "\<exists>u e. w = Inr (u, e) \<and> u \<noteq> []")
        case True
        then obtain u e where w: "w = Inr (u, e)" "u \<noteq> []" by blast
        with 1 obtain s' h where h: "P s'" "kv s' (''session:'' @ sess) = Some (RHash h)"
          "u = case_option [] id (h ''userId'')" "e = case_option [] id (h ''expiresAt'')" by blast
        from h(3) w(2) have u: "h ''userId'' = Some u" by (auto split: option.splits)
        let ?exp = "e \<noteq> [] \<and> (case pt e of None \<Rightarrow> False | Some t \<Rightarrow> t < now)"
        have e: "\<not> ?exp \<Longrightarrow> \<not> (\<exists>e t. h ''expiresAt'' = Some e \<and> e \<noteq> [] \<and> pt e = Some t \<and> t < now)"
          using h(4) by auto
        show ?thesis
        proof (cases ?exp)
          case True
          with w c2 show ?thesis by (simp add: wp_return)
        next
          case False
          with w have eq: "(if u = [] then ret (Inr None) else if ?exp then ret (Inr None) else m) = m" for m
            by auto
          have ex: "by_session P pt now tok (mk_identity u ''user'' an)" for an
            using A h(1,2) u w(2) e [OF False]
            unfolding by_session_def IsAdmin_def mk_identity_def identity.simps by blast
          show ?thesis
            unfolding w(1) sum.case prod.case eq
            by (rule wp_bindI [OF hget_under [OF c2]]) (use ex in \<open>simp add: wp_return\<close>)
        qed
      next
        case False
        with c2 show ?thesis by (auto simp: wp_return split: sum.splits prod.splits)
      qed
    qed
  next
    case False
    with c1 show ?thesis by (auto simp: wp_return split: sum.splits list.splits)
  qed
qed

lemma ResolveIdentity_under:
  assumes "stable c"
  shows "wp (ResolveIdentity E cx pt now token) (\<lambda>r c'. stable c' \<and>
           (\<forall>i. r = Inr (Some i) \<longrightarrow> by_resource_token P (strip_signature token) i \<or>
              by_api_key P (strip_signature token) i \<or> by_session P pt now (strip_signature token) i)) c"
  unfolding ResolveIdentity_def Let_def
proof (rule wp_bindI [OF get_under [OF assms]], goal_cases)
  case (1 g c1)
  let ?tok = "strip_signature token"
  from 1 have c1: "stable c1" by simp
  have rest: "wp (do { a \<leftarrow> resolve_apikey E cx ?tok;
        case a of Some i \<Rightarrow> ret (Inr (Some i)) | None \<Rightarrow> resolve_session E cx pt now ?tok })
      (\<lambda>r c'. stable c' \<and> (\<forall>i. r = Inr (Some i) \<longrightarrow> by_resource_token P ?tok i \<or>
         by_api_key P ?tok i \<or> by_session P pt now ?tok i)) c1"
  proof (rule wp_bindI [OF apikey_under [OF c1]], goal_cases)
    case (1 a c2)
    then show ?case
      by (cases a) (auto simp: wp_return intro: wp_mono [OF session_under])
  qed
  show ?case
  proof (cases "\<exists>ch cs. g = Inr (Some (Text (ch # cs)))")
    case True
    then obtain ch cs where g: "g = Inr (Some (Text (ch # cs)))" by blast
    with 1 obtain s where "P s" "kv s (''resource:token:'' @ ?tok) = Some (RStr (Text (ch # cs)))" by blast
    then have "by_resource_token P ?tok (mk_identity (ch # cs) ''user'' False)"
      unfolding by_resource_token_def IsAdmin_def mk_identity_def identity.simps by blast
    with g c1 show ?thesis by (simp add: wp_return)
  next
    case False
    with rest c1 show ?thesis
      by (cases g rule: sum.exhaust)
        (auto simp: wp_return split: option.split bulk.split list.split)
  qed
qed

end

text \<open>
  Every identity has a source. Whatever the server answers and whichever requests fail, a token
  is resolved to a user only when its resource token, its API key or an unexpired session of it
  names that user, in a keyspace the server really was in (\<open>P\<close> is any property of the keyspace that
  holds at the start and that the other clients keep).
\<close>

theorem identity_has_a_source:
  assumes "stable_reads E ks P" and "P (ks (server c))"
    and "run_state (ResolveIdentity E cx pt now token) c = (Inr (Some i), c')"
  shows "by_resource_token P (strip_signature token) i \<or> by_api_key P (strip_signature token) i \<or>
         by_session P pt now (strip_signature token) i"
  using stable_reads.ResolveIdentity_under [OF assms(1,2), of cx pt now token] wp_run [OF assms(3)]
  by simp

text \<open>
  C36. Admin rights come from an API key only. If, as long as the request runs, the API-key hash of
  the presented token does not carry the role \<^verbatim>\<open>admin\<close>, then the token is not resolved to an
  admin, in any environment.
\<close>

theorem admin_only_by_api_key:
  assumes "stable_reads E ks (\<lambda>s. \<forall>h. kv s (''apikey:'' @ strip_signature token) = Some (RHash h) \<longrightarrow>
                                      h ''role'' \<noteq> Some ''admin'')"
    and "\<forall>h. kv (ks (server c)) (''apikey:'' @ strip_signature token) = Some (RHash h) \<longrightarrow>
             h ''role'' \<noteq> Some ''admin''"
    and "run_state (ResolveIdentity E cx pt now token) c = (Inr (Some i), c')"
  shows "\<not> IsAdmin i"
  using stable_reads.ResolveIdentity_under [OF assms(1), of c cx pt now token] assms(2)
    wp_run [OF assms(3)]
  by (auto simp: by_resource_token_def by_api_key_def by_session_def)

section \<open>On the server in memory\<close>

interpretation calm_reads: stable_reads calm_env mem_ks P for P
  by unfold_locales (simp_all add: calm_env_def mem_exec_spec)

text \<open>A session of an anonymous user, and an API key of an administrator.\<close>

definition id_mem :: mem where
  "id_mem = \<lparr>tbl = [''session:idx:token:t'' \<mapsto> MSet [''s''],
                    ''session:s'' \<mapsto> MHash [(''userId'', ''u'')],
                    ''user:u'' \<mapsto> MHash [(''isAnonymous'', ''1'')],
                    ''apikey:k'' \<mapsto> MHash [(''userId'', ''root''), (''role'', ''admin'')]],
            sent = []\<rparr>"

definition id_conn :: "mem conn" where
  "id_conn = \<lparr>server = id_mem, calls = 0\<rparr>"

lemmas resolve_defs = ResolveIdentity_def resolve_apikey_def resolve_session_def rdb_get_def
  rdb_hmget2_def rdb_hget_or_empty_def rdb_smembers_def rdb_do_def strip_signature_def run_roundtrip
  mk_identity_def Let_def

lemma resolve_session_example:
  "fst (run_state (ResolveIdentity calm_env Caller (\<lambda>_. None) 0 ''t.sig'') id_conn) =
     Inr (Some (mk_identity ''u'' ''user'' True))"
  by (simp add: resolve_defs id_conn_def id_mem_def calm_env_def)

lemma resolve_apikey_example:
  "fst (run_state (ResolveIdentity calm_env Caller (\<lambda>_. None) 0 ''k'') id_conn) =
     Inr (Some (mk_identity ''root'' ''admin'' False))"
  by (simp add: resolve_defs id_conn_def id_mem_def calm_env_def)

text \<open>
  The anonymity check fails open: when the last request of the resolution is refused, the error is
  dropped and the anonymous user of the same session is taken for a full one.
\<close>

theorem anonymity_check_fails_open:
  "fst (run_state (ResolveIdentity (calm_env\<lparr>fault := (\<lambda>n. if n = 4 then Refused else Delivered)\<rparr>)
                     Caller (\<lambda>_. None) 0 ''t.sig'') id_conn) =
     Inr (Some (mk_identity ''u'' ''user'' False))"
  by (simp add: resolve_defs id_conn_def id_mem_def calm_env_def)

theorem identity_has_a_source_witness:
  "by_resource_token (\<lambda>_. True) ''k'' (mk_identity ''root'' ''admin'' False) \<or>
   by_api_key (\<lambda>_. True) ''k'' (mk_identity ''root'' ''admin'' False) \<or>
   by_session (\<lambda>_. True) (\<lambda>_. None) 0 ''k'' (mk_identity ''root'' ''admin'' False)"
  using identity_has_a_source [OF calm_reads.stable_reads_axioms TrueI,
      of Caller "\<lambda>_. None" 0 "''k''" id_conn] resolve_apikey_example
  by (cases "run_state (ResolveIdentity calm_env Caller (\<lambda>_. None) 0 ''k'') id_conn")
    (simp add: strip_signature_def)

theorem admin_only_by_api_key_witness:
  "\<not> IsAdmin (mk_identity ''u'' ''user'' True)"
proof -
  obtain c' where run: "run_state (ResolveIdentity calm_env Caller (\<lambda>_. None) 0 ''t.sig'') id_conn =
      (Inr (Some (mk_identity ''u'' ''user'' True)), c')"
    using resolve_session_example
    by (cases "run_state (ResolveIdentity calm_env Caller (\<lambda>_. None) 0 ''t.sig'') id_conn") auto
  show ?thesis
    by (rule admin_only_by_api_key [OF calm_reads.stable_reads_axioms _ run])
      (simp add: strip_signature_def id_conn_def id_mem_def)
qed

end
