(* ===== verification/Api_Props.thy ===== *)
theory Api_Props
  imports Api Identity_Props Service_Demo
begin

text \<open>
  What the HTTP surface adds to the service: a request performs at most one operation of the
  service, after its token was resolved and the gate of its route was passed; who may ask for what;
  which status an error becomes; and the inventory stays consistent under any sequence of requests.
\<close>

section \<open>The operation of a request\<close>

fun op_of :: "identity \<Rightarrow> http_request \<Rightarrow> endpoint \<Rightarrow> svc_op option" where
  "op_of who req EHealth = None"
| "op_of who req EList = Some (OpList (list_identity req who))"
| "op_of who req ECreate =
     (case decode_create (Body req) of
        None \<Rightarrow> None
      | Some b \<Rightarrow> (case create_args who b of (who', t, sz, res) \<Rightarrow> Some (OpCreate who' t sz res)))"
| "op_of who req (EGet i) = Some (OpGet who i)"
| "op_of who req (EDelete i) = Some (OpDelete who i)"
| "op_of who req (EExec i) =
     (case decode_argv (Body req) of
        None \<Rightarrow> None | Some argv \<Rightarrow> if argv = [] then None else Some (OpExec who i argv))"
| "op_of who req (EAttach i) =
     (case decode_device (Body req) of
        None \<Rightarrow> None | Some d \<Rightarrow> if d = [] then None else Some (OpAttach who i d))"
| "op_of who req (EPrepareSSH i) = Some (OpPrepareSSH who i)"
| "op_of who req EStats = Some OpStats"
| "op_of who req ETemplates = None"
| "op_of who req (EDeleteUserData u) = Some (OpDeleteUserData who u)"

text \<open>The effect of an operation that may be none.\<close>

definition after_op :: "('r, 'v, 'h) surroundings \<Rightarrow> svc_op option \<Rightarrow> ('r, 'v, 'h) world \<Rightarrow> ('r, 'v, 'h) world" where
  "after_op E q w = (case q of None \<Rightarrow> w | Some p \<Rightarrow> snd (run_state (perform_op E p) w))"

lemmas handler_defs = api_list_def api_create_def api_get_def api_delete_def api_exec_def
  api_attachDevice_def api_prepareSSH_def api_stats_def api_deleteUserData_def

lemma dispatch_performs:
  "snd (run_state (dispatch E req ep who) w) = after_op E (op_of who req ep) w"
  by (cases ep) (auto simp: handler_defs after_op_def split_beta split: option.split prod.split)

text \<open>The resolution of a token, as \<^verbatim>\<open>auth\<close> runs it.\<close>

definition resolve_token ::
  "('r, 'v, 'h) surroundings \<Rightarrow> (string \<Rightarrow> int option) \<Rightarrow> string \<Rightarrow> ('r, 'v, 'h, goerr + identity option) svc" where
  "resolve_token E pt tok =
     do { t \<leftarrow> ask (now_ns E); on_store (ResolveIdentity (rds E) Caller pt t tok) }"

text \<open>The world after a request whose token was resolved with the outcome \<open>r\<close> in \<open>w\<close>.\<close>

definition after_auth ::
  "('r, 'v, 'h) surroundings \<Rightarrow> http_request \<Rightarrow> gate \<Rightarrow> endpoint \<Rightarrow> goerr + identity option \<Rightarrow>
   ('r, 'v, 'h) world \<Rightarrow> ('r, 'v, 'h) world" where
  "after_auth E req g ep r w =
     (case r of
        Inr (Some who) \<Rightarrow> if g = Admin \<and> \<not> IsAdmin who then w else after_op E (op_of who req ep) w
      | _ \<Rightarrow> w)"

lemma auth_performs:
  assumes "Authorization req = ''Bearer '' @ tok" and "tok \<noteq> []"
    and "run_state (resolve_token E pt tok) w = (r, w1)"
  shows "snd (run_state (api_auth E pt req (dispatch E req ep)) w) = after_auth E req Auth ep r w1"
    and "snd (run_state (api_admin E pt req (dispatch E req ep)) w) = after_auth E req Admin ep r w1"
  using assms(3) unfolding api_admin_def api_auth_def assms(1) cut_prefix_append resolve_token_def
  by (auto simp: assms(2) split_beta after_auth_def dispatch_performs
      split: sum.split option.split prod.splits)

lemma no_token: "cut_prefix (Authorization req) ''Bearer '' \<in> {None, Some []} \<Longrightarrow>
    run_state (api_auth E pt req h) w = (httpErr 401 ''missing bearer token'', w) \<and>
    run_state (api_admin E pt req h) w = (httpErr 401 ''missing bearer token'', w)"
  by (auto simp: api_auth_def api_admin_def)

text \<open>The token of a request, when it carries one.\<close>

definition bearer :: "http_request \<Rightarrow> string option" where
  "bearer req =
     (case cut_prefix (Authorization req) ''Bearer '' of
        None \<Rightarrow> None | Some tok \<Rightarrow> if tok = [] then None else Some tok)"

text \<open>The world after a request: the operation of its endpoint, once its token was resolved.\<close>

definition request_effect ::
  "('r, 'v, 'h) surroundings \<Rightarrow> (string \<Rightarrow> int option) \<Rightarrow> http_request \<Rightarrow> ('r, 'v, 'h) world \<Rightarrow> ('r, 'v, 'h) world" where
  "request_effect E pt req w =
     (case (route (ReqMethod req) (ReqPath req), bearer req) of
        (Inr (g, ep), Some tok) \<Rightarrow>
          if g = Open then w
          else (case run_state (resolve_token E pt tok) w of (r, w1) \<Rightarrow> after_auth E req g ep r w1)
      | _ \<Rightarrow> w)"

lemma one_operation: "snd (run_state (ServeHTTP E pt req) w) = request_effect E pt req w"
proof (cases "route (ReqMethod req) (ReqPath req)")
  case (Inr ge)
  obtain g ep where ge: "ge = (g, ep)" by (cases ge)
  show ?thesis
  proof (cases "bearer req")
    case None
    then have "cut_prefix (Authorization req) ''Bearer '' \<in> {None, Some []}"
      by (auto simp: bearer_def split: option.splits if_splits)
    from no_token [OF this, of E pt "dispatch E req ep" w] None show ?thesis
      by (cases g) (simp_all add: ServeHTTP_def request_effect_def Inr ge)
  next
    case (Some tok)
    then have tok: "Authorization req = ''Bearer '' @ tok" "tok \<noteq> []"
      by (auto simp: bearer_def cut_prefix_Some_iff split: option.splits if_splits)
    obtain r w1 where r: "run_state (resolve_token E pt tok) w = (r, w1)" by fastforce
    show ?thesis
      using auth_performs [OF tok r, of ep]
      by (cases g) (simp_all add: ServeHTTP_def request_effect_def Inr ge Some r)
  qed
qed (simp add: ServeHTTP_def request_effect_def)

text \<open>
  C37. A request performs at most one operation of the service. Without a matching route, on the
  health check and without a bearer token nothing happens at all. Otherwise the token is resolved
  and, when it has an identity and the identity passes the gate of the route, exactly the operation
  of the endpoint is performed, on behalf of that identity.
\<close>

theorem request_performs_one_operation:
  "snd (run_state (ServeHTTP E pt req) w) =
     (case (route (ReqMethod req) (ReqPath req), bearer req) of
        (Inr (g, ep), Some tok) \<Rightarrow>
          if g = Open then w
          else (case run_state (resolve_token E pt tok) w of (r, w1) \<Rightarrow> after_auth E req g ep r w1)
      | _ \<Rightarrow> w)"
  by (rule one_operation [unfolded request_effect_def])

section \<open>Authorization\<close>

text \<open>
  C38. What a caller who is not an admin can ask for. The operation of such a request is on behalf of
  the caller itself, whatever the body says: a create has no size and no resources of its own, a
  listing is not widened; and no route behind the admin gate has an operation.
\<close>

theorem callers_are_confined:
  assumes "\<not> IsAdmin who" and "op_of who req ep = Some p"
  shows "(\<forall>who' t sz res. p = OpCreate who' t sz res \<longrightarrow> who' = who \<and> sz = [] \<and> res = no_resources) \<and>
         (\<forall>who'. p = OpList who' \<longrightarrow> who' = who) \<and>
         (\<forall>who' i. p = OpGet who' i \<or> p = OpDelete who' i \<longrightarrow> who' = who) \<and>
         (\<forall>who' i argv. p = OpExec who' i argv \<longrightarrow> who' = who \<and> argv \<noteq> []) \<and>
         after_auth E req Admin ep (Inr (Some who)) w = w"
  using assms
  by (cases ep) (auto simp: create_args_def list_identity_def after_auth_def split: option.splits if_splits)

section \<open>Statuses\<close>

lemma one_sentinel: "errors_is e s \<Longrightarrow> errors_is e t \<longleftrightarrow> t = s"
  by (induction e) auto

lemma service_err_of:
  assumes "errors_is e s"
  shows "writeServiceErr e =
     (case s of ErrNotFound \<Rightarrow> httpErr 404 (err_text e) | ErrForbidden \<Rightarrow> httpErr 403 (err_text e)
      | ErrQuota \<Rightarrow> httpErr 409 (err_text e) | ErrAnonymous \<Rightarrow> httpErr 409 (err_text e)
      | ErrDiskFull \<Rightarrow> httpErr 503 (err_text e) | ErrSSH \<Rightarrow> httpErr 503 (err_text e)
      | ErrCapacity \<Rightarrow> (httpErr 503 (err_text e))
          \<lparr>Headers := [(''Retry-After'', ''60''), (''Content-Type'', ''application/json'')]\<rparr>)"
  using one_sentinel [OF assms] by (cases s) (simp_all add: writeServiceErr_def)

text \<open>
  The status of an error. 404, 403, 409 and 503 are answered exactly for the errors documented
  for them, every other error is a 500, the body always carries the error's text, and only a refusal
  for lack of capacity asks the client to retry.
\<close>

theorem error_status:
  "(Status (writeServiceErr e) = 404 \<longleftrightarrow> errors_is e ErrNotFound) \<and>
   (Status (writeServiceErr e) = 403 \<longleftrightarrow> errors_is e ErrForbidden) \<and>
   (Status (writeServiceErr e) = 409 \<longleftrightarrow> errors_is e ErrQuota \<or> errors_is e ErrAnonymous) \<and>
   (Status (writeServiceErr e) = 503 \<longleftrightarrow>
      errors_is e ErrDiskFull \<or> errors_is e ErrSSH \<or> errors_is e ErrCapacity) \<and>
   (Status (writeServiceErr e) = 500 \<longleftrightarrow> (\<forall>s. \<not> errors_is e s)) \<and>
   ((''Retry-After'', ''60'') \<in> set (Headers (writeServiceErr e)) \<longleftrightarrow> errors_is e ErrCapacity) \<and>
   RespBody (writeServiceErr e) = JsonBody (JObj [(''error'', JStr (err_text e))])"
proof (cases "\<exists>s. errors_is e s")
  case True
  then obtain s where s: "errors_is e s" by blast
  from one_sentinel [OF s] service_err_of [OF s] show ?thesis
    by (cases s) (simp_all add: httpErr_def writeJSON_def)
next
  case False
  then show ?thesis by (simp add: writeServiceErr_def httpErr_def writeJSON_def)
qed

section \<open>The inventory\<close>

sublocale service \<subseteq> tokens: stable_reads "rds E" ks "good own"
  by unfold_locales (rule others_good)

context service
begin

lemma resolve_token_I:
  assumes "good_w w"
  shows "wp (resolve_token E pt tok) (\<lambda>_. good_w) w"
proof -
  have c: "good own (ks (server (rdb w)))"
    using assms unfolding good_world_def good_conn_def by blast
  show ?thesis
    unfolding resolve_token_def wp_bind wp_ask wp_on_store
    by (rule wp_mono [OF tokens.ResolveIdentity_under])
      (simp_all add: assms c good_conn_def)
qed

end

text \<open>The requests of clients one after the other, each in surroundings of its own.\<close>

fun serve_all ::
  "(('r, 'v, 'h) surroundings \<times> http_request) list \<Rightarrow> (string \<Rightarrow> int option) \<Rightarrow> ('r, 'v, 'h) world \<Rightarrow> ('r, 'v, 'h) world" where
  "serve_all [] pt w = w"
| "serve_all ((E, req) # rs) pt w = serve_all rs pt (snd (run_state (ServeHTTP E pt req) w))"

text \<open>The ids the random source makes during a create are minted for the user it is for.\<close>

definition mints_for_request ::
  "('r, 'v, 'h) surroundings \<Rightarrow> (string \<Rightarrow> string) \<Rightarrow> (string \<Rightarrow> int option) \<Rightarrow> http_request \<Rightarrow> bool" where
  "mints_for_request E own pt req \<longleftrightarrow>
     (\<forall>ep w tok who p. fst (run_state (resolve_token E pt tok) w) = Inr (Some who) \<longrightarrow>
        op_of who req ep = Some p \<longrightarrow> op_lawful E own p)"

lemma request_keeps:
  assumes "service E ks own" and "good_world own ks w" and "mints_for_request E own pt req"
  shows "good_world own ks (snd (run_state (ServeHTTP E pt req) w))"
proof -
  note kept = service.perform_op_keeps [OF assms(1)]
  have res: "wp (resolve_token E pt tok) (\<lambda>_. good_world own ks) w" for tok
    by (rule service.resolve_token_I [OF assms(1,2)])
  have "good_world own ks (after_auth E req g ep r w1)"
    if "run_state (resolve_token E pt tok) w = (r, w1)" for tok g ep r w1
  proof -
    from wp_runI [OF res that] have w1: "good_world own ks w1" .
    have "good_world own ks (after_op E (op_of who req ep) w1)" if r: "r = Inr (Some who)" for who
    proof (cases "op_of who req ep")
      case (Some p)
      have "op_lawful E own p"
        using assms(3) Some \<open>run_state (resolve_token E pt tok) w = (r, w1)\<close> r
        unfolding mints_for_request_def by (metis fst_conv)
      from kept [OF w1 this] Some show ?thesis by (simp add: after_op_def wp_def)
    qed (simp add: after_op_def w1)
    with w1 show ?thesis by (simp add: after_auth_def split: sum.split option.split)
  qed
  with assms(2) show ?thesis
    unfolding one_operation request_effect_def
    by (auto split: sum.split option.split prod.splits)
qed

text \<open>
  The inventory stays consistent under any sequence of HTTP requests, whatever their methods,
  paths, tokens and bodies are, each served in surroundings of its own.
\<close>

theorem requests_keep_inventory:
  assumes "\<forall>(E, req) \<in> set rs. service E ks own \<and> mints_for_request E own pt req"
    and "good_world own ks w"
  shows "good_world own ks (serve_all rs pt w)"
  using assms
proof (induction rs arbitrary: w)
  case (Cons r rs)
  obtain E req where r: "r = (E, req)" by (cases r)
  with Cons.prems have "service E ks own" "mints_for_request E own pt req" by auto
  from request_keeps [OF this(1) Cons.prems(2) this(2)] Cons r show ?case by auto
qed simp

section \<open>Witnesses\<close>

theorem callers_are_confined_witness:
  "op_of bob \<lparr>ReqMethod = ''POST'', ReqPath = [''sandbox''], Authorization = ''Bearer t'', QueryUserID = [],
      Body = Some (JObj [(''size'', JStr ''xlarge''), (''user_id'', JStr ''alice'')])\<rparr> ECreate =
   Some (OpCreate bob [] [] no_resources)"
proof -
  let ?req = "\<lparr>ReqMethod = ''POST'', ReqPath = [''sandbox''], Authorization = ''Bearer t'', QueryUserID = [],
      Body = Some (JObj [(''size'', JStr ''xlarge''), (''user_id'', JStr ''alice'')])\<rparr>"
  have "decode_create (Body ?req) = Some \<lparr>BodyUserID = ''alice'', BodyTemplate = [], BodySize = ''xlarge'',
      BodyResources = no_resources\<rparr>"
    by code_simp
  then obtain who t sz res where p: "op_of bob ?req ECreate = Some (OpCreate who t sz res)" and t: "t = []"
    by (auto simp: create_args_def)
  from callers_are_confined [OF identities(4) p, of demo_E "demo_world []"] p t show ?thesis by simp
qed

text \<open>A listing by \<^verbatim>\<open>GET\<close> and a request with a wrong method.\<close>

definition list_request :: http_request where
  "list_request = \<lparr>ReqMethod = ''GET'', ReqPath = [''sandbox''], Authorization = ''Bearer t'',
     QueryUserID = [], Body = None\<rparr>"

lemma list_request_op: "op_of who list_request ep = Some p \<Longrightarrow> op_lawful E own p"
  by (cases ep) (auto simp: list_request_def decode_create_def body_fields_def op_lawful_def
      split: option.splits if_splits)

theorem requests_keep_inventory_witness:
  "good_world demo_own mem_ks (serve_all [(demo_E, list_request), (demo_E, list_request\<lparr>ReqMethod := ''PUT''\<rparr>)]
     (\<lambda>_. None) (demo_world []))"
proof -
  have "op_of who (list_request\<lparr>ReqMethod := m\<rparr>) ep = op_of who list_request ep" for who m ep
    by (cases ep) (simp_all add: list_identity_def)
  then show ?thesis
    using list_request_op
    by (intro requests_keep_inventory) (auto simp: mints_for_request_def demo_service.service_axioms)
qed

end
