(* ===== verification/Vm_Host.thy ===== *)
theory Vm_Host
  imports Service_State
begin

text \<open>
  The host as \<^verbatim>\<open>internal/vm/manager.go\<close> sees it. containerd, the CNI library, the command line tools,
  \<^verbatim>\<open>/proc\<close>, the files and the clock are not code of the repository. Every use of them is a value of
  \<open>hcall\<close> with the arguments the code passes, and is answered by an arbitrary function of the calls
  made so far and of the call itself. The manager's state is the history of its calls with their
  answers, the newest first, so a theorem for every such function covers every behaviour of the host,
  every failure and every interleaving with what else happens on it.

  What a history says about the host is a function of it: the resources that may be held
  (\<open>holds\<close>), those whose last release failed (\<open>stuck\<close>), and the content of files (\<open>content\<close>).
\<close>

section \<open>Errors\<close>

text \<open>The classes of \<^verbatim>\<open>errdefs\<close> the code tells apart, with the message.\<close>

datatype ckind = KNotFound | KAlreadyExists | KOther

datatype cerr = CErr (kind_of: ckind) (cerr_text: string)

definition IsNotFound :: "cerr \<Rightarrow> bool" where
  "IsNotFound e \<longleftrightarrow> kind_of e = KNotFound"

definition IsAlreadyExists :: "cerr \<Rightarrow> bool" where
  "IsAlreadyExists e \<longleftrightarrow> kind_of e = KAlreadyExists"

definition go_err :: "cerr \<Rightarrow> goerr" where
  "go_err e = Foreign (cerr_text e)"

section \<open>Calls\<close>

datatype task_status = TUnknown | TCreated | TRunning | TStopped | TPaused | TPausing

record mount =
  Destination :: string
  MountSource :: string
  MountType :: string
  MountOptions :: "string list"

text \<open>The options \<^verbatim>\<open>Create\<close> gives to \<^verbatim>\<open>NewContainer\<close>, and the process of an \<^verbatim>\<open>Exec\<close>.\<close>

record container_spec =
  CsImage :: string
  CsSnapshotter :: string
  CsNewSnapshot :: string
  CsRuntime :: string
  CsConfigPath :: string
  CsLabels :: "(string \<times> string) list"
  CsAnnotations :: "string \<rightharpoonup> string"
  CsEnv :: "string list"
  CsMounts :: "mount list"
  CsHostname :: string
  CsNetns :: string
  CsDevices :: "(string \<times> string) list"
  CsCapabilities :: "string list"
  CsCgroup :: string

record exec_process =
  ExArgs :: "string list"
  ExCwd :: string
  ExEnv :: "string list"

text \<open>
  The context of a call is the caller's or a fresh one. The commands are \<open>NetnsAdd\<close>, \<open>NetnsDel\<close>,
  \<open>Losetup\<close>, \<open>LosetupDetach\<close>, \<open>VolumeAdd\<close> and \<open>VolumeRemove\<close>; their command lines are below.
\<close>

datatype (plugins only: code size) hcall =
  GetImage ctx string | Pull ctx string | IsUnpacked ctx string string
| WithLease | ReleaseLease | Unpack string string | AwaitUnpack ctx
| SnapStat string string | SnapRemove ctx string string
| NewContainer ctx string container_spec | ContDelete ctx string | LoadContainer ctx string
| Containers ctx | ContInfo ctx string | ContSpec ctx string
| NewTask ctx string string | GetTask ctx string | TaskStart ctx string | TaskStatus ctx string
| TaskWait ctx string | TaskKill ctx string | AwaitExit string | TaskDelete ctx string
| TaskExec ctx string string exec_process
| ProcWait ctx string string | ProcStart ctx string string | ProcExit string string | ProcDelete ctx string string
| CniSetup ctx string string | CniRemove ctx string string
| NetnsAdd string | NetnsDel string | Losetup string | LosetupDetach string
| VolumeAdd string string json | VolumeRemove string string
| MkdirAll string | WriteFile string string | CreateFile string | Chmod string
| ReadFile string | ReadJson string | RemoveAll string | RemoveFile string
| Glob string | Kill int | Sleep | Now | RandRead nat

fun command_line :: "hcall \<Rightarrow> string list" where
  "command_line (NetnsAdd i) = [''ip'', ''netns'', ''add'', i]"
| "command_line (NetnsDel i) = [''ip'', ''netns'', ''del'', i]"
| "command_line (Losetup img) = [''losetup'', ''--find'', ''--show'', img]"
| "command_line (LosetupDetach dev) = [''losetup'', ''-d'', dev]"
| "command_line (VolumeAdd rt vp info) =
     [rt, ''direct-volume'', ''add'', ''--volume-path'', vp, ''--mount-info'']"
| "command_line (VolumeRemove rt vp) = [rt, ''direct-volume'', ''remove'', ''--volume-path'', vp]"
| "command_line _ = []"

datatype ans =
  AOk | AErr cerr | AFail string string | AImage string | ABool bool | AIds "string list"
| ANum int | AStatus task_status | AEnv "string list option" | AIps "nat list list list"
| AData string | AJson json | AExit "string list" "32 word" | ABytes "8 word list"

type_synonym history = "(hcall \<times> ans) list"
type_synonym plant = "history \<Rightarrow> hcall \<Rightarrow> ans"

text \<open>
  Reading an answer. A failed command has its error and its output. An answer of another type than
  the call's counts as an error.
\<close>

definition as_err :: "ans \<Rightarrow> cerr option" where
  "as_err a = (case a of AErr e \<Rightarrow> Some e | AFail e out \<Rightarrow> Some (CErr KOther e) | _ \<Rightarrow> None)"

definition bad_answer :: "ans \<Rightarrow> cerr" where
  "bad_answer a = (case as_err a of Some e \<Rightarrow> e | None \<Rightarrow> CErr KOther ''unexpected answer'')"

definition as_image :: "ans \<Rightarrow> cerr + string" where
  "as_image a = (case a of AImage i \<Rightarrow> Inr i | _ \<Rightarrow> Inl (bad_answer a))"

definition as_bool :: "ans \<Rightarrow> cerr + bool" where
  "as_bool a = (case a of ABool b \<Rightarrow> Inr b | _ \<Rightarrow> Inl (bad_answer a))"

definition as_ids :: "ans \<Rightarrow> cerr + string list" where
  "as_ids a = (case a of AIds is \<Rightarrow> Inr is | _ \<Rightarrow> Inl (bad_answer a))"

definition as_num :: "ans \<Rightarrow> cerr + int" where
  "as_num a = (case a of ANum n \<Rightarrow> Inr n | _ \<Rightarrow> Inl (bad_answer a))"

definition as_status :: "ans \<Rightarrow> cerr + task_status" where
  "as_status a = (case a of AStatus s \<Rightarrow> Inr s | _ \<Rightarrow> Inl (bad_answer a))"

definition as_data :: "ans \<Rightarrow> cerr + string" where
  "as_data a = (case a of AData s \<Rightarrow> Inr s | _ \<Rightarrow> Inl (bad_answer a))"

definition as_ips :: "ans \<Rightarrow> cerr + nat list list list" where
  "as_ips a = (case a of AIps l \<Rightarrow> Inr l | _ \<Rightarrow> Inl (bad_answer a))"

definition cmd_output :: "ans \<Rightarrow> string" where
  "cmd_output a = (case a of AFail e out \<Rightarrow> out | AData out \<Rightarrow> out | _ \<Rightarrow> [])"

section \<open>The manager's state\<close>

type_synonym 'a vm = "(history, 'a) state"

definition call :: "plant \<Rightarrow> hcall \<Rightarrow> ans vm" where
  "call A c = State (\<lambda>h. (A h c, (c, A h c) # h))"

text \<open>A call whose answer is not used.\<close>

definition try_call :: "plant \<Rightarrow> hcall \<Rightarrow> unit vm" where
  "try_call A c = do { _ \<leftarrow> call A c; ret () }"

lemma wp_call [wp_simps]:
  "wp (call A c) Q h \<longleftrightarrow> Q (A h c) ((c, A h c) # h)"
  by (simp add: call_def wp_State)

lemma wp_try_call [wp_simps]:
  "wp (try_call A c) Q h \<longleftrightarrow> Q () ((c, A h c) # h)"
  by (simp add: try_call_def wp_simps)

section \<open>What a history says\<close>

datatype resource =
  RSnapshot string | RContainer string | RTask string | RProc string string | RNetns string
| RCni string | RLoop string | RVolume string | RDir string | RFile string

text \<open>A path is below a directory.\<close>

definition below :: "string \<Rightarrow> string \<Rightarrow> bool" where
  "below q p \<longleftrightarrow> has_prefix q (p @ ''/'')"

text \<open>
  What a call may have acquired, given its answer, by the documentation of what is called: a failed
  \<^verbatim>\<open>NewContainer\<close> may leave the snapshot it prepared unless the error is \<^verbatim>\<open>AlreadyExists\<close>; CNI and Kata's
  \<^verbatim>\<open>direct-volume add\<close> may have done part of their work when they fail.
\<close>

fun acquires :: "hcall \<Rightarrow> ans \<Rightarrow> resource \<Rightarrow> bool" where
  "acquires (NewContainer cx i s) a r \<longleftrightarrow>
     (case as_err a of
        None \<Rightarrow> r = RContainer i \<or> r = RSnapshot (CsNewSnapshot s)
      | Some e \<Rightarrow> \<not> IsAlreadyExists e \<and> r = RSnapshot (CsNewSnapshot s))"
| "acquires (NewTask cx i p) a r \<longleftrightarrow> as_err a = None \<and> r = RTask i"
| "acquires (TaskExec cx i x p) a r \<longleftrightarrow> as_err a = None \<and> r = RProc i x"
| "acquires (NetnsAdd i) a r \<longleftrightarrow> as_err a = None \<and> r = RNetns i"
| "acquires (CniSetup cx i p) a r \<longleftrightarrow> r = RCni i"
| "acquires (Losetup img) a r \<longleftrightarrow>
     (case as_data a of Inl _ \<Rightarrow> False | Inr out \<Rightarrow> trim_space out \<noteq> [] \<and> r = RLoop (trim_space out))"
| "acquires (VolumeAdd rt vp info) a r \<longleftrightarrow> r = RVolume vp"
| "acquires (MkdirAll p) a r \<longleftrightarrow> as_err a = None \<and> r = RDir p"
| "acquires (WriteFile p s) a r \<longleftrightarrow> r = RFile p"
| "acquires (CreateFile p) a r \<longleftrightarrow> as_err a = None \<and> r = RFile p"
| "acquires _ a r \<longleftrightarrow> False"

text \<open>
  What a call releases when it succeeds. containerd deletes a container only when it has no task, and
  with \<^verbatim>\<open>WithSnapshotCleanup\<close> deletes its snapshot.
\<close>

fun tries :: "hcall \<Rightarrow> resource \<Rightarrow> bool" where
  "tries (SnapRemove cx sn k) r \<longleftrightarrow> r = RSnapshot k"
| "tries (ContDelete cx i) r \<longleftrightarrow> r = RContainer i \<or> r = RTask i \<or> r = RSnapshot (i @ ''-snap'')"
| "tries (TaskDelete cx i) r \<longleftrightarrow> r = RTask i"
| "tries (ProcDelete cx i x) r \<longleftrightarrow> r = RProc i x"
| "tries (CniRemove cx i p) r \<longleftrightarrow> r = RCni i"
| "tries (NetnsDel i) r \<longleftrightarrow> r = RNetns i"
| "tries (LosetupDetach dev) r \<longleftrightarrow> r = RLoop dev"
| "tries (VolumeRemove rt vp) r \<longleftrightarrow> r = RVolume vp"
| "tries (RemoveAll p) r \<longleftrightarrow>
     (case r of RDir q \<Rightarrow> q = p \<or> below q p | RFile q \<Rightarrow> q = p \<or> below q p | _ \<Rightarrow> False)"
| "tries (RemoveFile p) r \<longleftrightarrow> r = RFile p"
| "tries _ r \<longleftrightarrow> False"

text \<open>
  What an answer shows to be gone: a release that succeeded, or a lookup that found nothing. A
  snapshot or a file that is not found is gone, too.
\<close>

fun shows_gone :: "hcall \<Rightarrow> cerr \<Rightarrow> resource \<Rightarrow> bool" where
  "shows_gone (LoadContainer cx i) e r \<longleftrightarrow> IsNotFound e \<and> (r = RContainer i \<or> r = RTask i)"
| "shows_gone (ContDelete cx i) e r \<longleftrightarrow> IsNotFound e \<and> (r = RContainer i \<or> r = RTask i)"
| "shows_gone (GetTask cx i) e r \<longleftrightarrow> IsNotFound e \<and> r = RTask i"
| "shows_gone (TaskDelete cx i) e r \<longleftrightarrow> IsNotFound e \<and> r = RTask i"
| "shows_gone (SnapRemove cx sn k) e r \<longleftrightarrow> IsNotFound e \<and> r = RSnapshot k"
| "shows_gone (RemoveFile p) e r \<longleftrightarrow> IsNotFound e \<and> r = RFile p"
| "shows_gone _ e r \<longleftrightarrow> False"

definition releases :: "hcall \<Rightarrow> ans \<Rightarrow> resource \<Rightarrow> bool" where
  "releases c a r = (case as_err a of None \<Rightarrow> tries c r | Some e \<Rightarrow> shows_gone c e r)"

fun holds :: "history \<Rightarrow> resource \<Rightarrow> bool" where
  "holds [] r \<longleftrightarrow> False"
| "holds ((c, a) # h) r \<longleftrightarrow> acquires c a r \<or> (holds h r \<and> \<not> releases c a r)"

text \<open>The last attempt to release the resource since it was acquired failed.\<close>

fun stuck :: "history \<Rightarrow> resource \<Rightarrow> bool" where
  "stuck [] r \<longleftrightarrow> False"
| "stuck ((c, a) # h) r \<longleftrightarrow>
     \<not> acquires c a r \<and> (if tries c r then \<not> releases c a r else stuck h r)"

text \<open>The content of a file that was written and not touched since.\<close>

fun content :: "history \<Rightarrow> string \<Rightarrow> string option" where
  "content [] p = None"
| "content ((c, a) # h) p =
     (case c of
        WriteFile q s \<Rightarrow> if q = p then (if as_err a = None then Some s else None) else content h p
      | CreateFile q \<Rightarrow> if q = p then None else content h p
      | RemoveFile q \<Rightarrow> if q = p then None else content h p
      | RemoveAll q \<Rightarrow> if q = p \<or> below p q then None else content h p
      | _ \<Rightarrow> content h p)"

text \<open>A host on which a file reads back as it was written.\<close>

definition reads_back :: "plant \<Rightarrow> bool" where
  "reads_back A \<longleftrightarrow> (\<forall>h p s. content h p = Some s \<longrightarrow> as_data (A h (ReadFile p)) = Inr s)"

end
