(* ===== verification/Vm_Manager.thy ===== *)
theory Vm_Manager
  imports Vm_Host
begin

text \<open>
  \<^verbatim>\<open>internal/vm/manager.go\<close>: the life of a microVM, as programs that issue calls to the host. Log
  output is left out. \<open>AwaitUnpack\<close> is the \<^verbatim>\<open>select\<close> at the end of \<^verbatim>\<open>ensureUnpacked\<close>; the background
  unpack itself, which many creates share, is modelled in \<open>Vm_Unpack\<close>.
\<close>

section \<open>Home disks\<close>

definition volRoot :: string where
  "volRoot = ''/run/sandbox-manager/home-volumes''"

definition volumePath :: "string \<Rightarrow> string" where
  "volumePath i = Join volRoot i"

definition loopFile :: "string \<Rightarrow> string" where
  "loopFile vp = Join vp ''loop''"

text \<open>\<^verbatim>\<open>base64.StdEncoding.EncodeToString\<close>.\<close>

definition base64_char :: "nat \<Rightarrow> char" where
  "base64_char n =
     (if n < 26 then char_of (65 + n) else if n < 52 then char_of (71 + n)
      else if n < 62 then digit_char (n - 52) else if n = 62 then CHR ''+'' else CHR ''/'')"

fun base64 :: "string \<Rightarrow> string" where
  "base64 [] = []"
| "base64 [a] =
     (let n = of_char a :: nat in
      [base64_char (n div 4), base64_char ((n mod 4) * 16)] @ ''=='')"
| "base64 [a, b] =
     (let n = of_char a * 256 + of_char b :: nat in
      [base64_char (n div 1024), base64_char ((n div 16) mod 64), base64_char ((n mod 16) * 4)] @ ''='')"
| "base64 (a # b # c # s) =
     (let n = of_char a * 65536 + of_char b * 256 + of_char c :: nat in
      [base64_char (n div 262144), base64_char ((n div 4096) mod 64),
       base64_char ((n div 64) mod 64), base64_char (n mod 64)] @ base64 s)"

definition kataInfoFile :: "string \<Rightarrow> string" where
  "kataInfoFile vp =
     Join (Join ''/run/kata-containers/shared/direct-volumes'' (base64 vp)) ''mountInfo.json''"

text \<open>The field \<^verbatim>\<open>device\<close> of a JSON value, errors of \<^verbatim>\<open>json.Unmarshal\<close> ignored.\<close>

definition info_device :: "json \<Rightarrow> string" where
  "info_device j =
     (case j of
        JObj ob \<Rightarrow>
          foldl (\<lambda>d (k, v). if map to_lower k = ''device'' then (case v of JStr s \<Rightarrow> s | _ \<Rightarrow> d) else d) [] ob
      | _ \<Rightarrow> [])"

definition recordedLoop :: "plant \<Rightarrow> string \<Rightarrow> string vm" where
  "recordedLoop A vp = do {
     a \<leftarrow> call A (ReadFile (loopFile vp));
     let loop = (case as_data a of Inl _ \<Rightarrow> [] | Inr b \<Rightarrow> trim_space b);
     if loop \<noteq> [] then ret loop
     else do {
       b \<leftarrow> call A (ReadJson (kataInfoFile vp));
       ret (case b of AJson j \<Rightarrow> info_device j | _ \<Rightarrow> []) } }"

definition Detach :: "plant \<Rightarrow> config \<Rightarrow> string \<Rightarrow> unit vm" where
  "Detach A c i = do {
     let vp = volumePath i;
     loop \<leftarrow> recordedLoop A vp;
     _ \<leftarrow> (if loop \<noteq> [] then try_call A (LosetupDetach loop) else ret ());
     _ \<leftarrow> try_call A (VolumeRemove (KataRuntimeBin c) vp);
     try_call A (RemoveAll vp) }"

definition mount_info :: "string \<Rightarrow> json" where
  "mount_info loop = JObj
     [(''device'', JStr loop), (''fstype'', JStr ''ext4''), (''metadata'', JObj []),
      (''options'', JArr []), (''volume-type'', JStr ''block'')]"

text \<open>The steps of \<^verbatim>\<open>Attach\<close> after it cleared what an earlier attempt left.\<close>

definition attach_fresh :: "plant \<Rightarrow> config \<Rightarrow> string \<Rightarrow> string \<Rightarrow> (goerr + string) vm" where
  "attach_fresh A c vp img = do {
     a \<leftarrow> call A (MkdirAll vp);
     case as_err a of
       Some e \<Rightarrow> ret (Inl (Prefix ''mkdir volume path'' (go_err e)))
     | None \<Rightarrow> do {
         b \<leftarrow> call A (Losetup img);
         case as_data b of
           Inl e \<Rightarrow> ret (Inl (Prefix (''losetup '' @ img) (go_err e)))
         | Inr out \<Rightarrow> do {
             let loop = trim_space out;
             _ \<leftarrow> try_call A (WriteFile (loopFile vp) loop);
             d \<leftarrow> call A (VolumeAdd (KataRuntimeBin c) vp (mount_info loop));
             case as_err d of
               None \<Rightarrow> ret (Inr vp)
             | Some e \<Rightarrow> do {
                 _ \<leftarrow> try_call A (LosetupDetach loop);
                 _ \<leftarrow> try_call A (VolumeRemove (KataRuntimeBin c) vp);
                 _ \<leftarrow> try_call A (RemoveAll vp);
                 ret (Inl (Foreign (''direct-volume add: '' @ cerr_text e @ '': '' @ cmd_output d))) } } } }"

definition Attach :: "plant \<Rightarrow> config \<Rightarrow> string \<Rightarrow> string \<Rightarrow> (goerr + string) vm" where
  "Attach A c i img = do {
     _ \<leftarrow> Detach A c i;
     attach_fresh A c (volumePath i) img }"

section \<open>Networking\<close>

definition netnsPath :: "string \<Rightarrow> string" where
  "netnsPath i = ''/var/run/netns/'' @ i"

text \<open>
  The result of \<^verbatim>\<open>cni.Setup\<close> is the list of the addresses of each interface, the interfaces in the
  order in which Go ranges over the map.
\<close>

definition first_ip4 :: "nat list list list \<Rightarrow> string" where
  "first_ip4 ifaces =
     (case List.map_filter (\<lambda>ip. if length ip = 4 then Some ip else To4 ip) (concat ifaces) of
        [] \<Rightarrow> [] | ip # _ \<Rightarrow> dotted ip)"

definition NetSetup :: "plant \<Rightarrow> ctx \<Rightarrow> string \<Rightarrow> (goerr + string \<times> string) vm" where
  "NetSetup A cx i = do {
     a \<leftarrow> call A (NetnsAdd i);
     case as_err a of
       Some e \<Rightarrow> ret (Inl (Foreign (''netns add: '' @ cerr_text e @ '': '' @ cmd_output a)))
     | None \<Rightarrow> do {
         b \<leftarrow> call A (CniSetup cx i (netnsPath i));
         case as_ips b of
           Inl e \<Rightarrow> do {
             _ \<leftarrow> try_call A (CniRemove cx i (netnsPath i));
             _ \<leftarrow> try_call A (NetnsDel i);
             ret (Inl (Prefix ''cni setup'' (go_err e))) }
         | Inr ifaces \<Rightarrow> ret (Inr (netnsPath i, first_ip4 ifaces)) } }"

definition Teardown :: "plant \<Rightarrow> ctx \<Rightarrow> string \<Rightarrow> unit vm" where
  "Teardown A cx i = do {
     _ \<leftarrow> try_call A (CniRemove cx i (netnsPath i));
     try_call A (NetnsDel i) }"

section \<open>The guest's log\<close>

definition guestLogDir :: string where
  "guestLogDir = ''/run/sandbox-manager/guest-logs''"

definition log_path :: "string \<Rightarrow> string" where
  "log_path i = Join guestLogDir (i @ ''.log'')"

definition guestLogPath :: "plant \<Rightarrow> string \<Rightarrow> string vm" where
  "guestLogPath A i = do {
     _ \<leftarrow> try_call A (MkdirAll guestLogDir);
     a \<leftarrow> call A (CreateFile (log_path i));
     _ \<leftarrow> (if as_err a = None then try_call A (Chmod (log_path i)) else ret ());
     ret (log_path i) }"

definition GuestLogTail :: "plant \<Rightarrow> string \<Rightarrow> nat \<Rightarrow> string vm" where
  "GuestLogTail A i maxBytes = do {
     p \<leftarrow> guestLogPath A i;
     a \<leftarrow> call A (ReadFile p);
     ret (case as_data a of Inl _ \<Rightarrow> [] | Inr b \<Rightarrow> trim_space (drop (length b - maxBytes) b)) }"

section \<open>The root file system\<close>

text \<open>
  A create that finds the image not unpacked starts the background unpack, unless one is under way,
  and waits for it or for the end of its context. The wait is answered with success, with the error of
  the unpack, or, as a failed call, with that of the context.
\<close>

definition ensureUnpacked :: "plant \<Rightarrow> config \<Rightarrow> ctx \<Rightarrow> string \<Rightarrow> goerr option vm" where
  "ensureUnpacked A c cx img = do {
     a \<leftarrow> call A (IsUnpacked cx img (Snapshotter c));
     case as_bool a of
       Inl e \<Rightarrow> ret (Some (Prefix (''check unpacked '' @ RootfsImage c) (go_err e)))
     | Inr unpacked \<Rightarrow>
         if unpacked then ret None
         else do {
           b \<leftarrow> call A (AwaitUnpack cx);
           ret (case b of
                  AErr e \<Rightarrow> Some (go_err e)
                | AFail e out \<Rightarrow> Some (Prefix ''waiting for rootfs unpack'' (Foreign e))
                | _ \<Rightarrow> None) } }"

text \<open>The background unpack, under a lease of its own.\<close>

definition unpack :: "plant \<Rightarrow> config \<Rightarrow> string \<Rightarrow> goerr option vm" where
  "unpack A c img = do {
     a \<leftarrow> call A WithLease;
     case as_err a of
       Some e \<Rightarrow> ret (Some (Prefix ''unpack lease'' (go_err e)))
     | None \<Rightarrow> do {
         b \<leftarrow> call A (Unpack img (Snapshotter c));
         _ \<leftarrow> try_call A ReleaseLease;
         ret (map_option (\<lambda>e. Prefix (''unpack '' @ RootfsImage c @ '' into '' @ Snapshotter c) (go_err e)) (as_err b)) } }"

text \<open>\<^verbatim>\<open>checkSnapshotter\<close>, and its up to ten tries at the start of the manager.\<close>

definition thin_pool_hint :: string where
  "thin_pool_hint = [CHR '' '', CHR 0xE2, CHR 0x80, CHR 0x94] @
     '' devmapper thin-pool likely missing after reboot; run scripts/sandbox-pool-up.sh and restart containerd''"

definition checkSnapshotter :: "plant \<Rightarrow> config \<Rightarrow> cerr option vm" where
  "checkSnapshotter A c = do {
     a \<leftarrow> call A (SnapStat (Snapshotter c) []);
     ret (case as_err a of
            None \<Rightarrow> None
          | Some e \<Rightarrow> if IsNotFound e then None else Some e) }"

definition snapshotter_error :: "config \<Rightarrow> cerr \<Rightarrow> goerr" where
  "snapshotter_error c e =
     Foreign (''snapshotter '' @ [CHR 0x22] @ Snapshotter c @ [CHR 0x22] @ '' unavailable: '' @ cerr_text e @
       (if contains (cerr_text e) ''snapshotter not loaded'' then thin_pool_hint else []))"

fun await_snapshotter :: "nat \<Rightarrow> plant \<Rightarrow> config \<Rightarrow> cerr option vm" where
  "await_snapshotter 0 A c = ret None"
| "await_snapshotter (Suc n) A c = do {
     r \<leftarrow> checkSnapshotter A c;
     if r = None \<or> n = 0 then ret r
     else do { _ \<leftarrow> try_call A Sleep; await_snapshotter n A c } }"

definition NewManager :: "plant \<Rightarrow> config \<Rightarrow> goerr option vm" where
  "NewManager A c = do {
     r \<leftarrow> await_snapshotter 10 A c;
     ret (map_option (snapshotter_error c) r) }"

section \<open>Create\<close>

definition create_env :: "config \<Rightarrow> vm_spec \<Rightarrow> string list" where
  "create_env c sp =
     [''DEVICE_NAME='' @ DeviceName sp] @
     (if EnrollToken sp \<noteq> [] then [''ENROLL_TOKEN='' @ EnrollToken sp] else []) @
     (if NoiseBackendHost c \<noteq> [] then [''NOISE_BACKEND_HOST='' @ NoiseBackendHost c] else []) @
     (if NoiseBackendPort c \<noteq> [] then [''NOISE_BACKEND_PORT='' @ NoiseBackendPort c] else []) @
     (if BridgePort c \<noteq> [] then [''BRIDGE_PORT='' @ BridgePort c] else []) @
     (if XClientID c \<noteq> [] then [''X_CLIENT_ID='' @ XClientID c, ''X_CLIENT_SECRET='' @ XClientSecret c] else [])"

definition container_spec_of ::
  "config \<Rightarrow> vm_spec \<Rightarrow> string \<Rightarrow> mount list \<Rightarrow> string \<Rightarrow> container_spec" where
  "container_spec_of c sp img mounts nsPath =
     \<lparr>CsImage = img,
      CsSnapshotter = Snapshotter c,
      CsNewSnapshot = SpecID sp @ ''-snap'',
      CsRuntime = Runtime c,
      CsConfigPath = RuntimeConfig c,
      CsLabels = [(''todoforai.sandbox'', ''true''), (''todoforai.user_id'', SpecUserID sp),
                  (''todoforai.template'', SpecTemplate sp), (''todoforai.size'', SpecSize sp)],
      CsAnnotations = machineResourceAnnotations (SpecSize sp) (SpecResources sp),
      CsEnv = create_env c sp,
      CsMounts = mounts,
      CsHostname = replace_char (CHR ''_'') (CHR ''-'') (DeviceName sp),
      CsNetns = nsPath,
      CsDevices = [(''/dev/fuse'', ''rwm'')],
      CsCapabilities = [''CAP_SYS_ADMIN''],
      CsCgroup = ''/'' @ SpecID sp\<rparr>"

definition home_mount :: "string \<Rightarrow> mount" where
  "home_mount vp =
     \<lparr>Destination = ''/root'', MountSource = vp, MountType = ''bind'', MountOptions = [''rbind'', ''rw'']\<rparr>"

text \<open>The image, pulled when it is not there.\<close>

definition get_image :: "plant \<Rightarrow> config \<Rightarrow> ctx \<Rightarrow> (goerr + string) vm" where
  "get_image A c cx = do {
     a \<leftarrow> call A (GetImage cx (RootfsImage c));
     case as_image a of
       Inr img \<Rightarrow> ret (Inr img)
     | Inl _ \<Rightarrow> do {
         b \<leftarrow> call A (Pull cx (RootfsImage c));
         ret (case as_image b of
                Inl e \<Rightarrow> Inl (Prefix (''pull '' @ RootfsImage c) (go_err e))
              | Inr img \<Rightarrow> Inr img) } }"

definition attach_home :: "plant \<Rightarrow> config \<Rightarrow> vm_spec \<Rightarrow> (goerr + mount list) vm" where
  "attach_home A c sp =
     (if HomeImg sp = [] then ret (Inr [])
      else do {
        r \<leftarrow> Attach A c (SpecID sp) (HomeImg sp);
        ret (case r of
               Inl e \<Rightarrow> Inl (Prefix ''attach home disk'' e)
             | Inr vp \<Rightarrow> Inr [home_mount vp]) })"

definition detachHome :: "plant \<Rightarrow> config \<Rightarrow> vm_spec \<Rightarrow> unit vm" where
  "detachHome A c sp = (if HomeImg sp \<noteq> [] then Detach A c (SpecID sp) else ret ())"

text \<open>The end of every failure after the network was set up.\<close>

definition undo_host :: "plant \<Rightarrow> config \<Rightarrow> ctx \<Rightarrow> vm_spec \<Rightarrow> unit vm" where
  "undo_host A c cx sp = do { _ \<leftarrow> Teardown A cx (SpecID sp); detachHome A c sp }"

text \<open>The container, its task, and the boot; each failure undoes what was done.\<close>

definition boot :: "plant \<Rightarrow> config \<Rightarrow> ctx \<Rightarrow> vm_spec \<Rightarrow> string \<Rightarrow> mount list \<Rightarrow> string \<Rightarrow> goerr option vm" where
  "boot A c cx sp img mounts nsPath = do {
     let i = SpecID sp;
     a \<leftarrow> call A (NewContainer cx i (container_spec_of c sp img mounts nsPath));
     case as_err a of
       Some e \<Rightarrow> do {
         _ \<leftarrow> (if \<not> IsAlreadyExists e then try_call A (SnapRemove Detached (Snapshotter c) (i @ ''-snap''))
              else ret ());
         _ \<leftarrow> undo_host A c cx sp;
         ret (Some (Prefix ''new container'' (go_err e))) }
     | None \<Rightarrow> do {
         p \<leftarrow> guestLogPath A i;
         b \<leftarrow> call A (NewTask cx i p);
         case as_err b of
           Some e \<Rightarrow> do {
             _ \<leftarrow> try_call A (ContDelete Detached i);
             _ \<leftarrow> undo_host A c cx sp;
             ret (Some (Prefix ''new task'' (go_err e))) }
         | None \<Rightarrow> do {
             d \<leftarrow> call A (TaskStart cx i);
             case as_err d of
               Some e \<Rightarrow> do {
                 _ \<leftarrow> try_call A (TaskDelete Detached i);
                 _ \<leftarrow> try_call A (ContDelete Detached i);
                 _ \<leftarrow> undo_host A c cx sp;
                 ret (Some (Prefix ''task start'' (go_err e))) }
             | None \<Rightarrow> ret None } } }"

text \<open>The network first, then the VM in it.\<close>

definition boot_in_netns ::
  "plant \<Rightarrow> config \<Rightarrow> ctx \<Rightarrow> vm_spec \<Rightarrow> string \<Rightarrow> mount list \<Rightarrow> (goerr + string) vm" where
  "boot_in_netns A c cx sp img mounts = do {
     n \<leftarrow> NetSetup A cx (SpecID sp);
     case n of
       Inl e \<Rightarrow> do { _ \<leftarrow> detachHome A c sp; ret (Inl (Prefix ''network setup'' e)) }
     | Inr (nsPath, ip) \<Rightarrow> do {
         b \<leftarrow> boot A c cx sp img mounts nsPath;
         ret (case b of Some e \<Rightarrow> Inl e | None \<Rightarrow> Inr ip) } }"

definition create_from_image ::
  "plant \<Rightarrow> config \<Rightarrow> ctx \<Rightarrow> vm_spec \<Rightarrow> string \<Rightarrow> (goerr + string) vm" where
  "create_from_image A c cx sp img = do {
     u \<leftarrow> ensureUnpacked A c cx img;
     case u of
       Some e \<Rightarrow> ret (Inl e)
     | None \<Rightarrow> do {
         ms \<leftarrow> attach_home A c sp;
         case ms of
           Inl e \<Rightarrow> ret (Inl e)
         | Inr mounts \<Rightarrow> boot_in_netns A c cx sp img mounts } }"

definition VmCreate :: "plant \<Rightarrow> config \<Rightarrow> ctx \<Rightarrow> vm_spec \<Rightarrow> (goerr + string) vm" where
  "VmCreate A c cx sp = do {
     im \<leftarrow> get_image A c cx;
     case im of
       Inl e \<Rightarrow> ret (Inl e)
     | Inr img \<Rightarrow> create_from_image A c cx sp img }"

section \<open>Liveness\<close>

definition running_one :: "plant \<Rightarrow> ctx \<Rightarrow> string \<Rightarrow> (cerr + bool) vm" where
  "running_one A cx i = do {
     a \<leftarrow> call A (GetTask cx i);
     case as_err a of
       Some e \<Rightarrow> ret (if IsNotFound e then Inr False else Inl e)
     | None \<Rightarrow> do {
         b \<leftarrow> call A (TaskStatus cx i);
         ret (case as_status b of Inl e \<Rightarrow> Inl e | Inr s \<Rightarrow> Inr (s = TRunning)) } }"

fun count_running :: "plant \<Rightarrow> ctx \<Rightarrow> string list \<Rightarrow> int \<Rightarrow> (cerr + int) vm" where
  "count_running A cx [] n = ret (Inr n)"
| "count_running A cx (i # is) n = do {
     r \<leftarrow> running_one A cx i;
     case r of
       Inl e \<Rightarrow> ret (Inl e)
     | Inr b \<Rightarrow> count_running A cx is (if b then n + 1 else n) }"

definition RunningCount :: "plant \<Rightarrow> ctx \<Rightarrow> (cerr + int) vm" where
  "RunningCount A cx = do {
     a \<leftarrow> call A (Containers cx);
     case as_ids a of
       Inl e \<Rightarrow> ret (Inl e)
     | Inr is \<Rightarrow> count_running A cx is 0 }"

definition IsLive :: "plant \<Rightarrow> ctx \<Rightarrow> string \<Rightarrow> liveness vm" where
  "IsLive A cx i = do {
     a \<leftarrow> call A (LoadContainer cx i);
     case as_err a of
       Some e \<Rightarrow> ret (if IsNotFound e then LiveNo else LiveUnknown)
     | None \<Rightarrow> do {
         b \<leftarrow> call A (GetTask cx i);
         case as_err b of
           Some e \<Rightarrow> ret (if IsNotFound e then LiveNo else LiveUnknown)
         | None \<Rightarrow> do {
             d \<leftarrow> call A (TaskStatus cx i);
             ret (case as_status d of
                    Inl e \<Rightarrow> LiveUnknown
                  | Inr s \<Rightarrow> if s = TRunning then LiveYes else LiveNo) } } }"

section \<open>Delete\<close>

text \<open>
  \<^verbatim>\<open>killFirecracker\<close>: of the processes of \<^verbatim>\<open>/proc\<close>, those of Firecracker whose command line names the
  sandbox get a SIGKILL.
\<close>

definition names_vmm :: "string \<Rightarrow> string \<Rightarrow> string \<Rightarrow> bool" where
  "names_vmm i comm cmdline \<longleftrightarrow>
     trim_space comm = ''firecracker'' \<and> contains (replace_char (CHR 0x00) (CHR '' '') cmdline) (''--id '' @ i)"

definition path_base :: "string \<Rightarrow> string" where
  "path_base p = rev (takeWhile (\<lambda>c. c \<noteq> CHR ''/'') (rev p))"

definition read_file :: "plant \<Rightarrow> string \<Rightarrow> string vm" where
  "read_file A p = do { a \<leftarrow> call A (ReadFile p); ret (case as_data a of Inl _ \<Rightarrow> [] | Inr b \<Rightarrow> b) }"

definition kill_if_vmm :: "plant \<Rightarrow> string \<Rightarrow> string \<Rightarrow> unit vm" where
  "kill_if_vmm A i p = do {
     comm \<leftarrow> read_file A (p @ ''/comm'');
     if trim_space comm \<noteq> ''firecracker'' then ret ()
     else do {
       cmdline \<leftarrow> read_file A (p @ ''/cmdline'');
       if \<not> names_vmm i comm cmdline then ret ()
       else case atoi (path_base p) of
              None \<Rightarrow> ret ()
            | Some pid \<Rightarrow> try_call A (Kill pid) } }"

definition killFirecracker :: "plant \<Rightarrow> string \<Rightarrow> unit vm" where
  "killFirecracker A i = do {
     a \<leftarrow> call A (Glob ''/proc/[0-9]*'');
     for_each (case as_ids a of Inl _ \<Rightarrow> [] | Inr ps \<Rightarrow> ps) (kill_if_vmm A i) }"

text \<open>The task of a container that was found: killed, awaited for at most 15 seconds, deleted.\<close>

definition delete_container :: "plant \<Rightarrow> ctx \<Rightarrow> string \<Rightarrow> cerr option vm" where
  "delete_container A cx i = do {
     a \<leftarrow> call A (GetTask cx i);
     _ \<leftarrow> (if as_err a = None
           then do {
             _ \<leftarrow> try_call A (TaskWait cx i);
             _ \<leftarrow> try_call A (TaskKill cx i);
             _ \<leftarrow> try_call A (AwaitExit i);
             try_call A (TaskDelete cx i) }
           else ret ());
     b \<leftarrow> call A (ContDelete cx i);
     ret (as_err b) }"

definition delete_found :: "plant \<Rightarrow> ctx \<Rightarrow> string \<Rightarrow> cerr option vm" where
  "delete_found A cx i = do {
     a \<leftarrow> call A (LoadContainer cx i);
     case as_err a of
       None \<Rightarrow> delete_container A cx i
     | Some e \<Rightarrow> ret (if IsNotFound e then None else Some e) }"

text \<open>The clean-up of the host, whatever containerd answered.\<close>

definition cleanup_host :: "plant \<Rightarrow> config \<Rightarrow> ctx \<Rightarrow> string \<Rightarrow> unit vm" where
  "cleanup_host A c cx i = do {
     _ \<leftarrow> killFirecracker A i;
     _ \<leftarrow> Teardown A cx i;
     Detach A c i }"

definition VmDelete :: "plant \<Rightarrow> config \<Rightarrow> ctx \<Rightarrow> string \<Rightarrow> cerr option vm" where
  "VmDelete A c cx i = do {
     p \<leftarrow> guestLogPath A i;
     err \<leftarrow> delete_found A cx i;
     _ \<leftarrow> cleanup_host A c cx i;
     _ \<leftarrow> try_call A (RemoveFile p);
     ret err }"

section \<open>Cleaning up\<close>

text \<open>\<^verbatim>\<open>cleanupGrace\<close> in nanoseconds.\<close>

definition cleanupGrace :: int where
  "cleanupGrace = 600000000000"

text \<open>The time of a clock's answer, in nanoseconds; an answer of another type counts as the time 0.\<close>

definition clock :: "ans \<Rightarrow> int" where
  "clock a = (case as_num a of Inl _ \<Rightarrow> 0 | Inr n \<Rightarrow> n)"

text \<open>One container of \<^verbatim>\<open>CleanupStopped\<close>: whether it was removed, or the error that ends the pass.\<close>

definition cleanup_one :: "plant \<Rightarrow> config \<Rightarrow> ctx \<Rightarrow> string \<Rightarrow> (cerr + bool) vm" where
  "cleanup_one A c cx i = do {
     a \<leftarrow> call A (ContInfo cx i);
     case as_num a of
       Inl e \<Rightarrow> ret (if IsNotFound e then Inr False else Inl e)
     | Inr created \<Rightarrow> do {
         t \<leftarrow> call A Now;
         if clock t - created < cleanupGrace then ret (Inr False)
         else do {
           b \<leftarrow> call A (GetTask cx i);
           s \<leftarrow> (case as_err b of
                   Some e \<Rightarrow> ret (if IsNotFound e then Inr TUnknown else Inl e)
                 | None \<Rightarrow> do { d \<leftarrow> call A (TaskStatus cx i); ret (as_status d) });
           case s of
             Inl e \<Rightarrow> ret (Inl e)
           | Inr st \<Rightarrow>
               if st = TRunning then ret (Inr False)
               else do {
                 r \<leftarrow> VmDelete A c cx i;
                 ret (case r of
                        Some e \<Rightarrow> if IsNotFound e then Inr True else Inl e
                      | None \<Rightarrow> Inr True) } } } }"

fun cleanup_all :: "plant \<Rightarrow> config \<Rightarrow> ctx \<Rightarrow> string list \<Rightarrow> int \<Rightarrow> (int \<times> cerr option) vm" where
  "cleanup_all A c cx [] n = ret (n, None)"
| "cleanup_all A c cx (i # is) n = do {
     r \<leftarrow> cleanup_one A c cx i;
     case r of
       Inl e \<Rightarrow> ret (n, Some e)
     | Inr b \<Rightarrow> cleanup_all A c cx is (if b then n + 1 else n) }"

definition CleanupStopped :: "plant \<Rightarrow> config \<Rightarrow> ctx \<Rightarrow> (int \<times> cerr option) vm" where
  "CleanupStopped A c cx = do {
     a \<leftarrow> call A (Containers cx);
     case as_ids a of
       Inl e \<Rightarrow> ret (0, Some e)
     | Inr is \<Rightarrow> cleanup_all A c cx is 0 }"

section \<open>Exec\<close>

definition execEnvAllow :: "string list" where
  "execEnvAllow = [''NOISE_BACKEND_HOST'', ''NOISE_BACKEND_PORT'', ''BRIDGE_PORT'', ''DEVICE_NAME'',
     ''AGENT_BROWSER_EXECUTABLE_PATH'']"

definition base_env :: "string list" where
  "base_env = [''PATH=/usr/local/sbin:/usr/local/bin:/usr/sbin:/usr/bin:/sbin:/bin'', ''HOME=/root'']"

definition allowed_env :: "string \<Rightarrow> bool" where
  "allowed_env s \<longleftrightarrow> list_ex (\<lambda>k. has_prefix s (k @ ''='')) execEnvAllow"

text \<open>The environment of the container's process, when it can be read.\<close>

definition exec_env :: "ans \<Rightarrow> string list" where
  "exec_env a = base_env @ (case a of AEnv (Some ss) \<Rightarrow> filter allowed_env ss | _ \<Rightarrow> [])"

text \<open>\<^verbatim>\<open>outputBuffer\<close>: what is written is appended.\<close>

definition buf_write :: "string \<Rightarrow> string \<Rightarrow> string" where
  "buf_write p buf = buf @ p"

definition randHex :: "plant \<Rightarrow> nat \<Rightarrow> string vm" where
  "randHex A n = do { a \<leftarrow> call A (RandRead n); ret (hex_encode (case a of ABytes bs \<Rightarrow> bs | _ \<Rightarrow> replicate n 0)) }"

text \<open>
  The started process; its deletion is deferred. \<open>ProcExit\<close> answers, once the process has exited or
  the wait was cut short, the chunks of output copied so far and the exit code, which is 255 when it is
  not known.
\<close>

definition run_process :: "plant \<Rightarrow> ctx \<Rightarrow> string \<Rightarrow> string \<Rightarrow> (cerr + string \<times> int) vm" where
  "run_process A cx i x = do {
     w \<leftarrow> call A (ProcWait cx i x);
     case as_err w of
       Some e \<Rightarrow> ret (Inl e)
     | None \<Rightarrow> do {
         s \<leftarrow> call A (ProcStart cx i x);
         case as_err s of
           Some e \<Rightarrow> ret (Inl e)
         | None \<Rightarrow> do {
             d \<leftarrow> call A (ProcExit i x);
             ret (case d of
                    AExit chunks code \<Rightarrow> Inr (fold buf_write chunks [], int (unat code))
                  | _ \<Rightarrow> Inr ([], 255)) } } }"

definition exec_prepared :: "plant \<Rightarrow> ctx \<Rightarrow> string \<Rightarrow> string list \<Rightarrow> (cerr + string \<times> int) vm" where
  "exec_prepared A cx i argv = do {
     sp \<leftarrow> call A (ContSpec cx i);
     h \<leftarrow> randHex A 6;
     let x = ''exec-'' @ h;
     p \<leftarrow> call A (TaskExec cx i x \<lparr>ExArgs = argv, ExCwd = ''/root'', ExEnv = exec_env sp\<rparr>);
     case as_err p of
       Some e \<Rightarrow> ret (Inl e)
     | None \<Rightarrow> do {
         r \<leftarrow> run_process A cx i x;
         _ \<leftarrow> try_call A (ProcDelete cx i x);
         ret r } }"

definition VmExec :: "plant \<Rightarrow> ctx \<Rightarrow> string \<Rightarrow> string list \<Rightarrow> (cerr + string \<times> int) vm" where
  "VmExec A cx i argv = do {
     a \<leftarrow> call A (LoadContainer cx i);
     case as_err a of
       Some e \<Rightarrow> ret (Inl e)
     | None \<Rightarrow> do {
         b \<leftarrow> call A (GetTask cx i);
         case as_err b of
           Some e \<Rightarrow> ret (Inl e)
         | None \<Rightarrow>
             if argv = [] then ret (Inl (CErr KOther ''exec: empty argv''))
             else exec_prepared A cx i argv } }"

section \<open>The service's view\<close>

text \<open>The manager behind the interface the service calls it through.\<close>

definition lift_err :: "(cerr + 'a) \<times> history \<Rightarrow> (goerr + 'a) \<times> history" where
  "lift_err r = (case r of (Inl e, h) \<Rightarrow> (Inl (go_err e), h) | (Inr x, h) \<Rightarrow> (Inr x, h))"

definition manager_ops :: "plant \<Rightarrow> config \<Rightarrow> ctx \<Rightarrow> history vm_manager_ops" where
  "manager_ops A c cx =
     \<lparr>vm_create = (\<lambda>sp. run_state (VmCreate A c cx sp)),
      vm_delete = (\<lambda>i h. case run_state (VmDelete A c cx i) h of (r, h') \<Rightarrow> (map_option go_err r, h')),
      vm_is_live = (\<lambda>i. run_state (IsLive A cx i)),
      vm_log_tail = (\<lambda>i n. run_state (GuestLogTail A i n)),
      vm_exec = (\<lambda>i argv h. lift_err (run_state (VmExec A cx i argv) h)),
      vm_cleanup_stopped = (\<lambda>h. case run_state (CleanupStopped A c cx) h of
         ((n, e), h') \<Rightarrow> (case e of Some x \<Rightarrow> Inl (go_err x) | None \<Rightarrow> Inr n, h')),
      vm_running_count = (\<lambda>h. lift_err (run_state (RunningCount A cx) h))\<rparr>"

end
