(* ===== verification/Vm_Rollback.thy ===== *)
theory Vm_Rollback
  imports Vm_Manager Userhome_Props
begin

text \<open>
  What the manager leaves behind. For one resource at a time, the histories in which it is not held or
  its last release failed are \<open>clear\<close>; a release attempt makes a history clear, and only a call that
  acquires the resource spoils it. With this the programs of \<open>Vm_Manager\<close> are executed symbolically:
  a create that fails releases what it acquired, a delete releases all of the sandbox's resources on
  the host whatever containerd answers, and an exec releases its process.
\<close>

section \<open>Clear histories\<close>

definition clear :: "history \<Rightarrow> resource \<Rightarrow> bool" where
  "clear h r \<longleftrightarrow> (holds h r \<longrightarrow> stuck h r)"

lemma clear_Cons [simp]:
  "clear ((c, a) # h) r \<longleftrightarrow> \<not> acquires c a r \<and> (tries c r \<or> releases c a r \<or> clear h r)"
  by (auto simp: clear_def)

lemma clear_keep: "clear h r \<Longrightarrow> \<not> acquires c a r \<Longrightarrow> clear ((c, a) # h) r"
  by simp

section \<open>Paths\<close>

definition plain_id :: "string \<Rightarrow> bool" where
  "plain_id i \<longleftrightarrow> i \<noteq> [] \<and> i \<noteq> ''.'' \<and> i \<noteq> ''..'' \<and> CHR ''/'' \<notin> set i"

lemma Clean_roots: "Clean volRoot = volRoot" "Clean guestLogDir = guestLogDir"
  by code_simp+

lemma volumePath_plain: "plain_id i \<Longrightarrow> volumePath i = volRoot @ ''/'' @ i"
  by (simp add: volumePath_def plain_id_def Join_child Clean_roots child_def) (simp add: volRoot_def)

lemma loopFile_plain:
  assumes "plain_id i"
  shows "loopFile (volumePath i) = volumePath i @ ''/loop''"
proof -
  have "Clean (volRoot @ CHR ''/'' # i) = child (Clean volRoot) i"
    using assms by (intro Clean_child) (auto simp: plain_id_def volRoot_def)
  then have "Clean (volumePath i) = volumePath i"
    by (simp add: volumePath_plain [OF assms] Clean_roots child_def) (simp add: volRoot_def)
  then show ?thesis
    by (simp add: loopFile_def Join_child child_def) (simp add: volumePath_plain [OF assms] volRoot_def)
qed

lemma below_loopFile: "plain_id i \<Longrightarrow> below (loopFile (volumePath i)) (volumePath i)"
  by (simp add: loopFile_plain below_def has_prefix_iff)

lemma log_path_plain: "CHR ''/'' \<notin> set i \<Longrightarrow> log_path i = guestLogDir @ ''/'' @ i @ ''.log''"
  by (cases i)
    (simp_all add: log_path_def Join_child Clean_roots child_def, simp_all add: guestLogDir_def)

lemma log_not_loop:
  assumes "plain_id i"
  shows "log_path i \<noteq> loopFile (volumePath i)"
proof -
  have "log_path i = guestLogDir @ ''/'' @ i @ ''.log''" using assms by (simp add: log_path_plain plain_id_def)
  moreover have "loopFile (volumePath i) = volRoot @ ''/'' @ i @ ''/loop''"
    using loopFile_plain [OF assms] volumePath_plain [OF assms] by simp
  ultimately show ?thesis by (simp add: guestLogDir_def volRoot_def)
qed

lemma trim_space_idem [simp]: "trim_space (trim_space s) = trim_space s"
proof -
  have d: "dropWhile P (dropWhile P xs) = dropWhile P xs" for P and xs :: string
    by (induction xs) auto
  have "dropWhile is_space (rev (dropWhile is_space (rev t))) = rev (dropWhile is_space (rev t))"
    if "dropWhile is_space t = t" for t
  proof (cases "dropWhile is_space (rev t)")
    case (Cons c cs)
    then obtain p where p: "rev t = p @ c # cs"
      by (metis takeWhile_dropWhile_id)
    then have t: "t = rev cs @ c # rev p" by (metis append.assoc append_Cons append_Nil rev_append rev_rev_ident rev.simps(2))
    show ?thesis
    proof (cases "rev cs")
      case Nil
      have "\<not> is_space c" using Cons by (metis dropWhile_eq_Cons_conv)
      with Nil Cons show ?thesis by simp
    next
      case (Cons e es)
      with t that have "\<not> is_space e"
        by (metis append_Cons dropWhile.simps(2) dropWhile_eq_Cons_conv)
      with Cons \<open>dropWhile is_space (rev t) = c # cs\<close> show ?thesis by simp
    qed
  next
    case Nil
    show ?thesis unfolding Nil by simp
  qed
  from this [OF d [of is_space s]] show ?thesis
    unfolding trim_space_def trim_left_def by (simp add: d)
qed

section \<open>Home disks\<close>

text \<open>
  What a \<open>Detach\<close> of the sandbox will release: its volume, its directory with the loop record, and
  the loop device that the record names.
\<close>

definition covered :: "string \<Rightarrow> history \<Rightarrow> resource \<Rightarrow> bool" where
  "covered vp h r \<longleftrightarrow>
     clear h r \<or> r = RVolume vp \<or> r = RDir vp \<or> r = RFile (loopFile vp) \<or>
     (\<exists>d. r = RLoop d \<and> d \<noteq> [] \<and> trim_space d = d \<and> content h (loopFile vp) = Some d)"

lemma Detach_clear:
  assumes "reads_back A" and "plain_id i" and "covered (volumePath i) h r"
  shows "wp (Detach A c i) (\<lambda>_ h'. clear h' r) h"
proof -
  have read: "as_data (A h (ReadFile (loopFile (volumePath i)))) = Inr d"
    if "content h (loopFile (volumePath i)) = Some d" for d
    using assms(1) that by (simp add: reads_back_def)
  show ?thesis
    using assms(3) below_loopFile [OF assms(2)]
    unfolding covered_def Detach_def recordedLoop_def Let_def
    by (auto simp: wp_simps read releases_def split: sum.splits ans.splits)
qed

text \<open>
  What stays of a home disk: its directory when \<^verbatim>\<open>losetup\<close> failed, and its loop device when the record
  of it could not be written.
\<close>

definition disk_left :: "string \<Rightarrow> history \<Rightarrow> resource \<Rightarrow> bool" where
  "disk_left i h r \<longleftrightarrow>
     (r = RDir (volumePath i) \<and> (\<exists>img a e. (Losetup img, a) \<in> set h \<and> as_data a = Inl e)) \<or>
     (\<exists>d a e. r = RLoop d \<and> (WriteFile (loopFile (volumePath i)) d, a) \<in> set h \<and> as_err a = Some e)"

lemma disk_left_Cons: "disk_left i h r \<Longrightarrow> disk_left i (x # h) r"
  unfolding disk_left_def by (metis list.set_intros(2))

lemma Detach_left: "disk_left i h r \<Longrightarrow> wp (Detach A c j) (\<lambda>_ h'. disk_left i h' r) h"
  unfolding Detach_def recordedLoop_def Let_def
  by (auto simp: wp_simps disk_left_Cons split: sum.splits ans.splits)

lemma Attach_covers:
  assumes "reads_back A" and "plain_id i" and "clear h r"
  shows "wp (Attach A c i img)
           (\<lambda>res h'. case res of
              Inl e \<Rightarrow> clear h' r \<or> disk_left i h' r
            | Inr vp \<Rightarrow> vp = volumePath i \<and> (covered vp h' r \<or> disk_left i h' r)) h"
proof -
  have fresh: "wp (attach_fresh A c (volumePath i) img)
      (\<lambda>res h'. case res of
         Inl e \<Rightarrow> clear h' r \<or> disk_left i h' r
       | Inr vp \<Rightarrow> vp = volumePath i \<and> (covered vp h' r \<or> disk_left i h' r)) h1"
    if "clear h1 r" for h1
    using that below_loopFile [OF assms(2)]
    unfolding attach_fresh_def Let_def
    by (auto simp: wp_simps covered_def disk_left_def releases_def split: option.split sum.split)
  have "covered (volumePath i) h r" using assms(3) by (simp add: covered_def)
  from Detach_clear [OF assms(1,2) this] fresh show ?thesis
    unfolding Attach_def by (rule wp_bindI)
qed

section \<open>The network and the log\<close>

lemma NetSetup_clear:
  "clear h r \<Longrightarrow>
   wp (NetSetup A cx i)
     (\<lambda>res h'. clear h' r \<or> (\<exists>x. res = Inr x) \<and> (r = RNetns i \<or> r = RCni i)) h"
  unfolding NetSetup_def by (auto simp: wp_simps split: option.split sum.split)

lemma Teardown_clear:
  "clear h r \<or> r = RNetns i \<or> r = RCni i \<Longrightarrow> wp (Teardown A cx i) (\<lambda>_ h'. clear h' r) h"
  unfolding Teardown_def by (auto simp: wp_simps)

lemma guestLogPath_clear:
  "clear h r \<Longrightarrow>
   wp (guestLogPath A i) (\<lambda>p h'. p = log_path i \<and> (clear h' r \<or> r = RDir guestLogDir \<or> r = RFile (log_path i))) h"
  unfolding guestLogPath_def by (auto simp: wp_simps)

lemma wp_always: "(\<And>a s'. Q a s') \<Longrightarrow> wp m Q s"
  by (simp add: wp_def)

lemma wp_skip: "(\<And>a s'. wp (f a) Q s') \<Longrightarrow> wp (m \<bind> f) Q s"
  by (simp add: wp_bind wp_always)

section \<open>A create that fails\<close>

text \<open>The directory and the file of the guest's log stay.\<close>

definition log_left :: "string \<Rightarrow> resource \<Rightarrow> bool" where
  "log_left i r \<longleftrightarrow> r = RDir guestLogDir \<or> r = RFile (log_path i)"

definition undone :: "string \<Rightarrow> history \<Rightarrow> resource \<Rightarrow> bool" where
  "undone i h r \<longleftrightarrow> clear h r \<or> disk_left i h r \<or> log_left i r"

text \<open>What \<open>detachHome\<close> will release, or what stays; and with it what \<open>undo_host\<close> will.\<close>

definition home_owned :: "vm_spec \<Rightarrow> history \<Rightarrow> resource \<Rightarrow> bool" where
  "home_owned sp h r \<longleftrightarrow>
     undone (SpecID sp) h r \<or> (HomeImg sp \<noteq> [] \<and> covered (volumePath (SpecID sp)) h r)"

definition owned :: "vm_spec \<Rightarrow> history \<Rightarrow> resource \<Rightarrow> bool" where
  "owned sp h r \<longleftrightarrow> home_owned sp h r \<or> r = RNetns (SpecID sp) \<or> r = RCni (SpecID sp)"

lemma covered_Cons:
  assumes "covered vp h r" and "\<not> acquires c a r"
    and "content ((c, a) # h) (loopFile vp) = content h (loopFile vp)"
  shows "covered vp ((c, a) # h) r"
  using assms by (auto simp: covered_def)

lemma home_owned_Cons:
  assumes "home_owned sp h r" and "\<not> acquires c a r"
    and "content ((c, a) # h) (loopFile (volumePath (SpecID sp))) = content h (loopFile (volumePath (SpecID sp)))"
  shows "home_owned sp ((c, a) # h) r"
  using assms covered_Cons [of "volumePath (SpecID sp)" h r c a]
  by (auto simp: home_owned_def undone_def disk_left_Cons)

lemma owned_Cons:
  assumes "owned sp h r" and "\<not> acquires c a r"
    and "content ((c, a) # h) (loopFile (volumePath (SpecID sp))) = content h (loopFile (volumePath (SpecID sp)))"
  shows "owned sp ((c, a) # h) r"
  using assms home_owned_Cons [of sp h r c a] by (auto simp: owned_def)

lemma owned_clear: "clear h r \<Longrightarrow> owned sp h r"
  by (simp add: owned_def home_owned_def undone_def)

lemma owned_tries: "tries c r \<Longrightarrow> \<not> acquires c a r \<Longrightarrow> owned sp ((c, a) # h) r"
  by (rule owned_clear) simp

lemma Detach_undoes:
  assumes "reads_back A" and "plain_id i" and "undone i h r \<or> covered (volumePath i) h r"
  shows "wp (Detach A c i) (\<lambda>_ h'. undone i h' r) h"
proof -
  consider "log_left i r" | "disk_left i h r" | "covered (volumePath i) h r"
    using assms(3) by (auto simp: undone_def covered_def)
  then show ?thesis
  proof cases
    case 1
    then show ?thesis by (auto simp: undone_def intro: wp_always)
  next
    case 2
    then show ?thesis by (auto simp: undone_def intro: wp_mono [OF Detach_left])
  next
    case 3
    then show ?thesis by (auto simp: undone_def intro: wp_mono [OF Detach_clear [OF assms(1,2)]])
  qed
qed

lemma detachHome_undoes:
  assumes "reads_back A" and "plain_id (SpecID sp)" and "home_owned sp h r"
  shows "wp (detachHome A c sp) (\<lambda>_ h'. undone (SpecID sp) h' r) h"
  using assms(3) Detach_undoes [OF assms(1,2), of h r]
  by (auto simp: detachHome_def home_owned_def wp_simps)

lemma undo_host_undoes:
  assumes "reads_back A" and "plain_id (SpecID sp)" and "owned sp h r"
  shows "wp (undo_host A c cx sp) (\<lambda>_ h'. undone (SpecID sp) h' r) h"
proof -
  have "wp (Teardown A cx (SpecID sp)) (\<lambda>_ h'. home_owned sp h' r) h"
  proof (cases "home_owned sp h r")
    case True
    then show ?thesis
      unfolding Teardown_def by (auto simp: wp_simps intro!: home_owned_Cons)
  next
    case False
    with assms(3) show ?thesis
      unfolding Teardown_def by (auto simp: wp_simps owned_def home_owned_def undone_def)
  qed
  then show ?thesis
    unfolding undo_host_def by (rule wp_bindI) (rule detachHome_undoes [OF assms(1,2)])
qed

lemma guestLogPath_owned:
  assumes "plain_id (SpecID sp)" and "owned sp h r"
  shows "wp (guestLogPath A (SpecID sp)) (\<lambda>p h'. p = log_path (SpecID sp) \<and> owned sp h' r) h"
proof (cases "log_left (SpecID sp) r")
  case True
  then show ?thesis
    using wp_mono [OF guestLogPath_clear] unfolding guestLogPath_def
    by (auto simp: wp_simps owned_def home_owned_def undone_def)
next
  case False
  with assms(2) log_not_loop [OF assms(1)] show ?thesis
    unfolding guestLogPath_def by (auto simp: wp_simps log_left_def intro!: owned_Cons)
qed

lemma boot_undoes:
  assumes "reads_back A" and "plain_id (SpecID sp)" and "owned sp h r"
  shows "wp (boot A c cx sp img ms ns) (\<lambda>res h'. res = None \<or> undone (SpecID sp) h' r) h"
proof -
  let ?i = "SpecID sp"
  note undo = wp_mono [OF undo_host_undoes [OF assms(1,2)]]
  show ?thesis
  proof (cases "r \<in> {RContainer ?i, RTask ?i, RSnapshot (?i @ ''-snap'')}")
    case True
    have sn: "CsNewSnapshot (container_spec_of c sp img ms ns) = ?i @ ''-snap''"
      by (simp add: container_spec_of_def)
    from True have log: "\<not> log_left ?i r" by (auto simp: log_left_def)
    have "owned sp h r \<Longrightarrow> clear h r"
      using True by (auto simp: owned_def home_owned_def undone_def covered_def disk_left_def log_left_def)
    with assms(3) True show ?thesis
      unfolding boot_def Let_def
      by (auto simp: wp_simps sn releases_def split: option.split
          intro!: undo owned_clear wp_always [of _ "guestLogPath A ?i"])
  next
    case False
    have sn: "CsNewSnapshot (container_spec_of c sp img ms ns) = ?i @ ''-snap''"
      by (simp add: container_spec_of_def)
    from False assms(3) show ?thesis
      unfolding boot_def Let_def
      by (auto simp: wp_simps sn split: option.split
          intro!: undo owned_Cons wp_mono [OF guestLogPath_owned [OF assms(2)]])
  qed
qed

lemma attach_home_undoes:
  assumes "reads_back A" and "plain_id (SpecID sp)" and "clear h r"
  shows "wp (attach_home A c sp)
           (\<lambda>res h'. case res of Inl e \<Rightarrow> undone (SpecID sp) h' r | Inr ms \<Rightarrow> home_owned sp h' r) h"
proof (cases "HomeImg sp = []")
  case False
  then show ?thesis
    unfolding attach_home_def
    by (auto simp: wp_simps undone_def home_owned_def split: sum.splits
        intro!: wp_mono [OF Attach_covers [OF assms]])
qed (simp add: attach_home_def wp_simps home_owned_def undone_def assms(3))

lemma NetSetup_owned:
  assumes "home_owned sp h r"
  shows "wp (NetSetup A cx (SpecID sp))
           (\<lambda>res h'. case res of Inl e \<Rightarrow> home_owned sp h' r | Inr x \<Rightarrow> owned sp h' r) h"
proof (cases "r = RNetns (SpecID sp) \<or> r = RCni (SpecID sp)")
  case True
  with assms have "clear h r"
    by (auto simp: home_owned_def undone_def covered_def disk_left_def log_left_def)
  with True show ?thesis
    unfolding NetSetup_def
    by (auto simp: wp_simps owned_def home_owned_def undone_def split: option.split sum.split)
next
  case False
  with assms show ?thesis
    unfolding NetSetup_def
    by (auto simp: wp_simps owned_def split: option.split sum.split intro!: home_owned_Cons)
qed

lemma get_image_clear: "clear h r \<Longrightarrow> wp (get_image A c cx) (\<lambda>_ h'. clear h' r) h"
  unfolding get_image_def by (auto simp: wp_simps split: sum.split)

lemma ensureUnpacked_clear: "clear h r \<Longrightarrow> wp (ensureUnpacked A c cx img) (\<lambda>_ h'. clear h' r) h"
  unfolding ensureUnpacked_def by (auto simp: wp_simps split: sum.split)

lemma boot_in_netns_undoes:
  assumes "reads_back A" and "plain_id (SpecID sp)" and "home_owned sp h r"
  shows "wp (boot_in_netns A c cx sp img ms) (\<lambda>res h'. (\<exists>ip. res = Inr ip) \<or> undone (SpecID sp) h' r) h"
  unfolding boot_in_netns_def
  by (rule wp_bindI [OF NetSetup_owned [OF assms(3)]])
    (auto simp: wp_simps split: sum.splits prod.splits option.splits
      intro!: wp_mono [OF detachHome_undoes [OF assms(1,2)]] wp_mono [OF boot_undoes [OF assms(1,2)]])

lemma VmCreate_undoes:
  assumes "reads_back A" and "plain_id (SpecID sp)" and "clear h r"
  shows "wp (VmCreate A c cx sp) (\<lambda>res h'. (\<exists>ip. res = Inr ip) \<or> undone (SpecID sp) h' r) h"
proof -
  have u: "clear h' r \<Longrightarrow> undone (SpecID sp) h' r" for h' by (simp add: undone_def)
  have "wp (create_from_image A c cx sp img) (\<lambda>res h'. (\<exists>ip. res = Inr ip) \<or> undone (SpecID sp) h' r) h1"
    if "clear h1 r" for h1 img
    unfolding create_from_image_def
    by (rule wp_bindI [OF ensureUnpacked_clear [OF that]])
      (auto simp: wp_return u split: option.split sum.splits
        intro!: wp_bindI [OF attach_home_undoes [OF assms(1,2)]] boot_in_netns_undoes [OF assms(1,2)])
  then show ?thesis
    unfolding VmCreate_def
    by (intro wp_bindI [OF get_image_clear [OF assms(3)]]) (auto simp: wp_return u split: sum.split)
qed

section \<open>A delete\<close>

lemma preserves_call: "(\<And>h. P h \<Longrightarrow> P ((c, A h c) # h)) \<Longrightarrow> preserves P (call A c)"
  by (simp add: preserves_def wp_call)

lemma preserves_try_call: "(\<And>h. P h \<Longrightarrow> P ((c, A h c) # h)) \<Longrightarrow> preserves P (try_call A c)"
  by (simp add: preserves_def wp_try_call)

lemmas call_intros = preserves_call preserves_try_call

lemma killFirecracker_keeps:
  assumes "\<And>h c. P h \<Longrightarrow> c \<in> {Glob ''/proc/[0-9]*''} \<union> range ReadFile \<union> range Kill \<Longrightarrow> P ((c, A h c) # h)"
  shows "preserves P (killFirecracker A i)"
  unfolding killFirecracker_def kill_if_vmm_def read_file_def
  by (auto intro!: pres_intros call_intros assms simp: Let_def)

lemma delete_found_keeps:
  assumes "\<And>h c. P h \<Longrightarrow>
      c \<in> {LoadContainer cx i, GetTask cx i, TaskWait cx i, TaskKill cx i, AwaitExit i, TaskDelete cx i,
           ContDelete cx i} \<Longrightarrow> P ((c, A h c) # h)"
  shows "preserves P (delete_found A cx i)"
  unfolding delete_found_def delete_container_def by (auto intro!: pres_intros call_intros assms)

lemma Teardown_keeps:
  assumes "\<And>h c. P h \<Longrightarrow> c \<in> {CniRemove cx i (netnsPath i), NetnsDel i} \<Longrightarrow> P ((c, A h c) # h)"
  shows "preserves P (Teardown A cx i)"
  unfolding Teardown_def by (auto intro!: pres_intros call_intros assms)

text \<open>What is covered stays so up to the \<open>Detach\<close>.\<close>

lemma cleanup_host_clears:
  assumes "reads_back A" and "plain_id i"
    and "covered (volumePath i) h r \<or> r = RNetns i \<or> r = RCni i"
  shows "wp (cleanup_host A c cx i) (\<lambda>_ h'. clear h' r) h"
proof -
  let ?V = "volumePath i"
  have "wp (killFirecracker A i) (\<lambda>_ h'. covered ?V h' r \<or> r = RNetns i \<or> r = RCni i) h"
    by (rule preserves_wp [OF killFirecracker_keeps]) (use assms(3) in \<open>auto intro!: covered_Cons\<close>)
  moreover have "wp (Teardown A cx i) (\<lambda>_ h'. covered ?V h' r) h1"
    if "covered ?V h1 r \<or> r = RNetns i \<or> r = RCni i" for h1
  proof (cases "covered ?V h1 r")
    case True
    then show ?thesis by (intro preserves_wp [OF Teardown_keeps]) (auto intro!: covered_Cons)
  next
    case False
    with that have "clear h1 r \<or> r = RNetns i \<or> r = RCni i" by auto
    from Teardown_clear [OF this] show ?thesis by (rule wp_mono) (simp add: covered_def)
  qed
  ultimately show ?thesis
    unfolding cleanup_host_def
    by (intro wp_bindI) (assumption | rule Detach_clear [OF assms(1,2)])+
qed

lemma VmDelete_clears:
  assumes "reads_back A" and "plain_id i"
    and "covered (volumePath i) h r \<or> r = RNetns i \<or> r = RCni i \<or> r = RFile (log_path i)"
    and "r \<noteq> RDir guestLogDir"
  shows "wp (VmDelete A c cx i) (\<lambda>_ h'. clear h' r) h"
proof (cases "r = RFile (log_path i)")
  case True
  have p: "wp (guestLogPath A i) (\<lambda>p _. p = log_path i) h"
    by (simp add: guestLogPath_def wp_simps)
  show ?thesis
    unfolding VmDelete_def True
    by (rule wp_bindI [OF p], rule wp_skip, rule wp_skip) (simp add: wp_simps)
next
  case False
  let ?P = "\<lambda>h. covered (volumePath i) h r \<or> r = RNetns i \<or> r = RCni i"
  have P: "?P h" using assms(3) False by simp
  have log: "preserves ?P (guestLogPath A i)"
    unfolding guestLogPath_def using assms(4) False log_not_loop [OF assms(2)]
    by (auto intro!: pres_intros call_intros covered_Cons)
  have del: "preserves ?P (delete_found A cx i)"
    by (rule delete_found_keeps) (auto intro!: covered_Cons)
  show ?thesis
    unfolding VmDelete_def
    by (rule wp_bindI [OF preserves_wp [OF log P]], rule wp_bindI [OF preserves_wp [OF del]], assumption,
        rule wp_bindI [OF cleanup_host_clears [OF assms(1,2)]], assumption) (simp add: wp_simps)
qed

text \<open>A delete without error leaves neither container nor task.\<close>

text \<open>The calls of the clean-up.\<close>

definition cleanup_call :: "hcall \<Rightarrow> bool" where
  "cleanup_call c \<longleftrightarrow>
     (case c of
        Glob _ \<Rightarrow> True | ReadFile _ \<Rightarrow> True | ReadJson _ \<Rightarrow> True | Kill _ \<Rightarrow> True | CniRemove _ _ _ \<Rightarrow> True
      | NetnsDel _ \<Rightarrow> True | LosetupDetach _ \<Rightarrow> True | VolumeRemove _ _ \<Rightarrow> True | RemoveAll _ \<Rightarrow> True
      | _ \<Rightarrow> False)"

lemma cleanup_host_keeps:
  assumes "\<And>h c. P h \<Longrightarrow> cleanup_call c \<Longrightarrow> P ((c, A h c) # h)"
  shows "preserves P (cleanup_host A c cx i)"
  unfolding cleanup_host_def Detach_def recordedLoop_def Let_def
  by (auto intro!: pres_intros call_intros killFirecracker_keeps Teardown_keeps assms simp: cleanup_call_def)

lemma cleanup_call_acquires: "cleanup_call c \<Longrightarrow> \<not> acquires c a r"
  by (cases c) (auto simp: cleanup_call_def)

lemma delete_found_gone:
  assumes "r = RContainer i \<or> r = RTask i"
  shows "wp (delete_found A cx i) (\<lambda>err h'. err = None \<longrightarrow> \<not> holds h' r) h"
  unfolding delete_found_def delete_container_def
  using assms
  by (auto simp: wp_simps releases_def split: option.splits)

lemma VmDelete_gone:
  assumes "r = RContainer i \<or> r = RTask i"
  shows "wp (VmDelete A c cx i) (\<lambda>err h'. err = None \<longrightarrow> \<not> holds h' r) h"
proof -
  have k: "preserves (\<lambda>h. err = None \<longrightarrow> \<not> holds h r) (cleanup_host A c cx i)" for err
    by (rule cleanup_host_keeps) (use cleanup_call_acquires in auto)
  show ?thesis
    unfolding VmDelete_def
    by (rule wp_skip, rule wp_bindI [OF delete_found_gone [OF assms]], rule wp_bindI [OF preserves_wp [OF k]],
        assumption) (use assms in \<open>auto simp: wp_simps\<close>)
qed

section \<open>An exec\<close>

lemma run_process_keeps:
  assumes "\<And>h c. P h \<Longrightarrow> c \<in> {ProcWait cx i x, ProcStart cx i x, ProcExit i x} \<Longrightarrow> P ((c, A h c) # h)"
  shows "preserves P (run_process A cx i x)"
  unfolding run_process_def
  by (auto intro!: pres_intros call_intros assms split: ans.split)

lemma VmExec_clears:
  assumes "clear h r"
  shows "wp (VmExec A cx i argv) (\<lambda>_ h'. clear h' r) h"
proof -
  have run: "wp (run_process A cx i x \<bind> (\<lambda>y. try_call A (ProcDelete cx i x) \<bind> (\<lambda>_. ret y))) (\<lambda>_ h'. clear h' r) h'"
    if "clear h' r \<or> r = RProc i x" for h' x
    by (rule wp_bindI [OF preserves_wp [OF run_process_keeps [of "\<lambda>h. clear h r \<or> r = RProc i x"]]])
      (use that in \<open>auto simp: wp_simps\<close>)
  show ?thesis
    unfolding VmExec_def exec_prepared_def randHex_def Let_def
    using assms
    by (auto simp: wp_return wp_call wp_case_option wp_if wp_bind [of "call A _"] split: option.split intro!: run)
qed

end
