(* ===== verification/Vm_Live.thy ===== *)
theory Vm_Live
  imports Vm_Rollback Service_Safety
begin

text \<open>
  What the manager knows about a VM being alive. The locale \<open>containerd\<close> states what the documentation
  of containerd says about lookups, statuses and deletions; from it the manager meets the contract
  \<open>vm_manager\<close> that the service relies on, so the service's guarantees hold for containerd itself.
\<close>

section \<open>containerd\<close>

text \<open>
  \<open>alive h i\<close>: the task of the container \<open>i\<close> may run after the calls \<open>h\<close>. A container or a task that is
  not found does not run, nor does a task with another status than running, nor one whose container
  was deleted, since a container with a running task cannot be deleted; and only the start of the
  task brings a VM to life.
\<close>

locale containerd =
  fixes A :: plant and alive :: "history \<Rightarrow> string \<Rightarrow> bool"
  assumes not_loaded: "as_err (A h (LoadContainer cx i)) = Some e \<Longrightarrow> IsNotFound e \<Longrightarrow>
      \<not> alive ((LoadContainer cx i, A h (LoadContainer cx i)) # h) i"
    and no_task: "as_err (A h (GetTask cx i)) = Some e \<Longrightarrow> IsNotFound e \<Longrightarrow>
      \<not> alive ((GetTask cx i, A h (GetTask cx i)) # h) i"
    and not_running: "as_status (A h (TaskStatus cx i)) = Inr s \<Longrightarrow> s \<noteq> TRunning \<Longrightarrow>
      \<not> alive ((TaskStatus cx i, A h (TaskStatus cx i)) # h) i"
    and deleted: "as_err (A h (ContDelete cx i)) = None \<Longrightarrow>
      \<not> alive ((ContDelete cx i, A h (ContDelete cx i)) # h) i"
    and stays_dead: "\<not> alive h i \<Longrightarrow> (\<And>cx. c \<noteq> TaskStart cx i) \<Longrightarrow> \<not> alive ((c, A h c) # h) i"
begin

lemma IsLive_no: "wp (IsLive A cx i) (\<lambda>l h'. l = LiveNo \<longrightarrow> \<not> alive h' i) h"
  unfolding IsLive_def
  by (auto simp: wp_simps not_loaded no_task not_running split: option.split sum.split)

lemma delete_found_kills: "wp (delete_found A cx i) (\<lambda>err h'. err = None \<longrightarrow> \<not> alive h' i) h"
  unfolding delete_found_def delete_container_def
  by (auto simp: wp_simps not_loaded deleted split: option.split)

lemma VmDelete_kills: "wp (VmDelete A c cx i) (\<lambda>err h'. err = None \<longrightarrow> \<not> alive h' i) h"
proof -
  have k: "preserves (\<lambda>h. err = None \<longrightarrow> \<not> alive h i) (cleanup_host A c cx i)" for err
  proof (rule cleanup_host_keeps)
    fix h c assume "err = None \<longrightarrow> \<not> alive h i" and "cleanup_call c"
    moreover from this(2) have "c \<noteq> TaskStart cx i" for cx by (auto simp: cleanup_call_def)
    ultimately show "err = None \<longrightarrow> \<not> alive ((c, A h c) # h) i" using stays_dead by blast
  qed
  have f: "err = None \<longrightarrow> \<not> alive ((RemoveFile p, A h' (RemoveFile p)) # h') i"
    if "err = None \<longrightarrow> \<not> alive h' i" for err :: "cerr option" and p h'
    using that stays_dead [of h' i "RemoveFile p"] by auto
  show ?thesis
    unfolding VmDelete_def
    by (rule wp_skip, rule wp_bindI [OF delete_found_kills], rule wp_bindI [OF preserves_wp [OF k]],
        assumption) (use f in \<open>auto simp: wp_simps\<close>)
qed

end

sublocale containerd \<subseteq> vms: vm_manager "manager_ops A c cx" "\<lambda>h. {i. alive h i}" for c cx
proof
  fix i v v'
  show "i \<notin> {i. alive v' i}" if "vm_delete (manager_ops A c cx) i v = (None, v')"
  proof -
    have "run_state (VmDelete A c cx i) v = (None, v')"
      using that by (simp add: manager_ops_def split: prod.splits)
    from wp_runI [OF VmDelete_kills this] show ?thesis by simp
  qed
  show "i \<notin> {i. alive v' i}" if "vm_is_live (manager_ops A c cx) i v = (LiveNo, v')"
  proof -
    have "run_state (IsLive A cx i) v = (LiveNo, v')" using that by (simp add: manager_ops_def)
    from wp_runI [OF IsLive_no this] show ?thesis by simp
  qed
qed

context containerd
begin

lemma meets_contract: "vm_manager (manager_ops A c cx) (\<lambda>h. {i. alive h i})"
  by (rule vms.vm_manager_axioms)

end

section \<open>A containerd in memory\<close>

text \<open>
  The containers and tasks are those the history created; a started task runs until it is killed or
  deleted. Everything else succeeds; files read back, and \<^verbatim>\<open>/proc\<close> is empty.
\<close>

fun started :: "history \<Rightarrow> string \<Rightarrow> bool" where
  "started [] i \<longleftrightarrow> False"
| "started ((c, a) # h) i \<longleftrightarrow>
     (case c of
        TaskStart cx j \<Rightarrow> if j = i then as_err a = None else started h i
      | TaskKill cx j \<Rightarrow> j \<noteq> i \<and> started h i
      | TaskDelete cx j \<Rightarrow> j \<noteq> i \<and> started h i
      | ContDelete cx j \<Rightarrow> j \<noteq> i \<and> started h i
      | _ \<Rightarrow> started h i)"

definition mem_plant :: plant where
  "mem_plant h c =
     (case c of
        GetImage cx r \<Rightarrow> AImage r
      | IsUnpacked cx i s \<Rightarrow> ABool True
      | LoadContainer cx i \<Rightarrow>
          if holds h (RContainer i) \<or> started h i then AOk else AErr (CErr KNotFound ''no container'')
      | GetTask cx i \<Rightarrow> if holds h (RTask i) \<or> started h i then AOk else AErr (CErr KNotFound ''no task'')
      | TaskStatus cx i \<Rightarrow> AStatus (if started h i then TRunning else TStopped)
      | TaskStart cx i \<Rightarrow> if holds h (RTask i) then AOk else AErr (CErr KNotFound ''no task'')
      | ReadFile p \<Rightarrow> (case content h p of Some s \<Rightarrow> AData s | None \<Rightarrow> AErr (CErr KNotFound ''no file''))
      | Losetup disk \<Rightarrow> AData ''/dev/loop0''
      | CniSetup cx i p \<Rightarrow> AIps [[[10, 88, 0, 7]]]
      | Glob p \<Rightarrow> AIds []
      | Now \<Rightarrow> ANum 0
      | _ \<Rightarrow> AOk)"

lemma mem_reads_back: "reads_back mem_plant"
  by (simp add: reads_back_def mem_plant_def as_data_def)

lemma started_stays_dead:
  "\<not> started h i \<Longrightarrow> (\<And>cx. c \<noteq> TaskStart cx i) \<Longrightarrow> \<not> started ((c, a) # h) i"
  by (cases c) auto

interpretation mem_containerd: containerd mem_plant started
  by unfold_locales
    (use started_stays_dead in \<open>auto simp: mem_plant_def as_err_def as_status_def split: if_splits\<close>)

end
