(* ===== verification/Vm_Props.thy ===== *)
theory Vm_Props
  imports Vm_Live
begin

text \<open>
  What the VM manager guarantees on any host: a failed create and a delete leave nothing behind, an
  exec passes no secret on, cleaning up spares what runs or is young, and only the sandbox's own VMM is
  killed; and, on a host where containerd behaves as documented, the service's quota counts every task
  that may run.
\<close>

section \<open>Nothing is left behind\<close>



section \<open>What a run does\<close>

text \<open>The calls since \<open>h\<close>.\<close>

definition since :: "history \<Rightarrow> history \<Rightarrow> history" where
  "since h h' = take (length h' - length h) h'"

lemma since_append [simp]: "since h (new @ h) = new"
  by (simp add: since_def)

text \<open>
  The invariant of a run from \<open>h0\<close>: its calls satisfy \<open>P\<close>, which a program keeps when its calls do.
\<close>

definition did :: "(history \<Rightarrow> bool) \<Rightarrow> history \<Rightarrow> history \<Rightarrow> bool" where
  "did P h0 h \<longleftrightarrow> (\<exists>new. h = new @ h0 \<and> P new)"

lemma did_start: "P [] \<Longrightarrow> did P h0 h0"
  by (simp add: did_def)

lemma did_since: "did P h0 h \<Longrightarrow> P (since h0 h)"
  by (auto simp: did_def)

lemma did_Cons: "did P h0 h \<Longrightarrow> (\<And>new. P new \<Longrightarrow> P ((c, a) # new)) \<Longrightarrow> did P h0 ((c, a) # h)"
  unfolding did_def by (metis append_Cons)

section \<open>Exec\<close>

definition public_var :: "string \<Rightarrow> bool" where
  "public_var s \<longleftrightarrow> s \<in> set base_env \<or> allowed_env s"

definition public_call :: "hcall \<Rightarrow> bool" where
  "public_call c = (case c of TaskExec cx i x p \<Rightarrow> list_all public_var (ExEnv p) | _ \<Rightarrow> True)"

definition execs_public :: "history \<Rightarrow> bool" where
  "execs_public new = list_all (\<lambda>(c, a). public_call c) new"

lemma exec_env_public: "list_all public_var (exec_env a)"
  by (auto simp: exec_env_def public_var_def list_all_iff split: ans.splits option.splits)

lemma VmExec_public: "wp (VmExec A cx i argv) (\<lambda>_. did execs_public h) h"
proof -
  have step: "did execs_public h ((c, a) # h')" if "did execs_public h h'" "public_call c" for h' c a
    using that by (auto intro!: did_Cons simp: execs_public_def)
  have "preserves (did execs_public h) (VmExec A cx i argv)"
    unfolding VmExec_def exec_prepared_def randHex_def run_process_def Let_def
    by (intro pres_intros call_intros step) (simp_all split: ans.split add: pres_intros public_call_def exec_env_public)
  moreover have "did execs_public h h" by (rule did_start) (simp add: execs_public_def)
  ultimately show ?thesis by (rule preserves_wp)
qed

lemma allowed_not_secret:
  assumes "s \<in> set base_env \<or> allowed_env s"
  shows "\<not> has_prefix s ''ENROLL_TOKEN='' \<and> \<not> has_prefix s ''X_CLIENT_SECRET=''"
  using assms
  by (auto simp: base_env_def allowed_env_def execEnvAllow_def has_prefix_iff)


section \<open>Cleaning up\<close>

text \<open>The container whose task a call kills or deletes.\<close>

definition kill_target :: "hcall \<Rightarrow> string option" where
  "kill_target c =
     (case c of TaskKill cx i \<Rightarrow> Some i | TaskDelete cx i \<Rightarrow> Some i | ContDelete cx i \<Rightarrow> Some i | _ \<Rightarrow> None)"

lemma VmDelete_keeps:
  assumes "\<And>h c. P h \<Longrightarrow> kill_target c \<in> {None, Some i} \<Longrightarrow> P ((c, A h c) # h)"
  shows "preserves P (VmDelete A c cx i)"
proof -
  have "preserves P (cleanup_host A c cx i)"
    by (rule cleanup_host_keeps, rule assms) (auto simp: cleanup_call_def kill_target_def split: hcall.splits)
  moreover have "preserves P (delete_found A cx i)"
    by (rule delete_found_keeps, rule assms) (auto simp: kill_target_def)
  ultimately show ?thesis
    unfolding VmDelete_def guestLogPath_def
    by (intro pres_intros call_intros assms) (simp_all add: kill_target_def)
qed

text \<open>
  The calls show that the container is older than the grace period and that its task does not run.
\<close>

definition old_and_stopped :: "string \<Rightarrow> history \<Rightarrow> bool" where
  "old_and_stopped i new \<longleftrightarrow>
     (\<exists>cx created t. (ContInfo cx i, ANum created) \<in> set new \<and> (Now, t) \<in> set new \<and>
        cleanupGrace \<le> clock t - created) \<and>
     ((\<exists>cx a e. (GetTask cx i, a) \<in> set new \<and> as_err a = Some e \<and> IsNotFound e) \<or>
      (\<exists>cx s. (TaskStatus cx i, AStatus s) \<in> set new \<and> s \<noteq> TRunning))"

definition kills_justified :: "history \<Rightarrow> bool" where
  "kills_justified new \<longleftrightarrow>
     (\<forall>(c, a) \<in> set new. \<forall>i. kill_target c = Some i \<longrightarrow> old_and_stopped i new)"

lemma old_and_stopped_mono: "old_and_stopped i new \<Longrightarrow> old_and_stopped i (x # new)"
  unfolding old_and_stopped_def by (metis list.set_intros(2))

lemma kills_justified_Cons:
  assumes "kills_justified new" and "\<And>i. kill_target c = Some i \<Longrightarrow> old_and_stopped i ((c, a) # new)"
  shows "kills_justified ((c, a) # new)"
  using assms old_and_stopped_mono by (fastforce simp: kills_justified_def)

lemma as_num_Inr: "as_num a = Inr n \<longleftrightarrow> a = ANum n"
  by (auto simp: as_num_def split: ans.splits)

lemma as_status_Inr: "as_status a = Inr s \<longleftrightarrow> a = AStatus s"
  by (auto simp: as_status_def split: ans.splits)

lemma VmDelete_justified:
  assumes "did (\<lambda>new. kills_justified new \<and> old_and_stopped i new) h0 h"
  shows "wp (VmDelete A c cx i) (\<lambda>_. did kills_justified h0) h"
proof -
  have "preserves (did (\<lambda>new. kills_justified new \<and> old_and_stopped i new) h0) (VmDelete A c cx i)"
    by (rule VmDelete_keeps, rule did_Cons) (auto intro!: kills_justified_Cons intro: old_and_stopped_mono)
  from preserves_wp [OF this assms] show ?thesis
    by (rule wp_mono) (auto simp: did_def)
qed

lemma cleanup_one_justified:
  assumes "did kills_justified h0 h"
  shows "wp (cleanup_one A c cx i) (\<lambda>_. did kills_justified h0) h"
proof -
  have quiet: "kills_justified ((c, a) # new)" if "kill_target c = None" "kills_justified new" for c a new
    using that by (auto intro: kills_justified_Cons)
  obtain new where h: "h = new @ h0" "kills_justified new" using assms by (auto simp: did_def)
  have old: "did (\<lambda>new. kills_justified new \<and> old_and_stopped i new) h0 (x @ h)"
    if "list_all (\<lambda>(c, a). kill_target c = None) x" "old_and_stopped i x" for x
  proof -
    have "kills_justified (x @ new)" using that(1) h(2) quiet by (induction x) auto
    moreover have "old_and_stopped i (x @ new)"
      using that(2) unfolding old_and_stopped_def by (metis UnI1 set_append)
    ultimately show ?thesis unfolding did_def h(1) by (metis append.assoc)
  qed
  have step: "did kills_justified h0 ((c, a) # h')" if "kill_target c = None" "did kills_justified h0 h'" for c a h'
    using that quiet by (auto intro: did_Cons)
  show ?thesis
    using assms old [of "[_, _, _]"] old [of "[_, _, _, _]"]
    unfolding cleanup_one_def
    by (auto simp: wp_simps kill_target_def step as_num_Inr as_status_Inr old_and_stopped_def not_less
        split: sum.split option.split intro!: wp_mono [OF VmDelete_justified])
qed

lemma cleanup_all_justified:
  "did kills_justified h0 h \<Longrightarrow> wp (cleanup_all A c cx is n) (\<lambda>_. did kills_justified h0) h"
proof (induction "is" arbitrary: n h)
  case (Cons i "is")
  show ?case
    using Cons.IH
    by (auto simp: wp_return split: sum.split intro!: wp_bindI [OF cleanup_one_justified [OF Cons.prems]])
qed (simp add: wp_return)

text \<open>
  C17. Cleaning up spares what runs and what is young. Whenever \<^verbatim>\<open>CleanupStopped\<close> kills or deletes
  anything of a container, it was answered in the same pass that the container is at least ten
  minutes old and that its task is not running or does not exist; a failed query never leads to it.
\<close>

theorem cleanup_spares_the_living:
  assumes "run_state (CleanupStopped A c cx) h = (res, h')"
    and "(x, a) \<in> set (since h h')" and "kill_target x = Some i"
  shows "old_and_stopped i (since h h')"
proof -
  have "did kills_justified h ((Containers cx, b) # h)" for b
    unfolding did_def by (intro exI [of _ "[(Containers cx, b)]"]) (simp add: kills_justified_def kill_target_def)
  then have "wp (CleanupStopped A c cx) (\<lambda>_. did kills_justified h) h"
    unfolding CleanupStopped_def
    by (auto simp: wp_simps split: sum.split intro!: cleanup_all_justified)
  from did_since [OF wp_runI [OF this assms(1)]] assms(2,3) show ?thesis
    unfolding kills_justified_def by fastforce
qed

section \<open>Killing the VMM\<close>

text \<open>The calls show that the process is a Firecracker that was started for the sandbox.\<close>

definition seen_vmm :: "string \<Rightarrow> int \<Rightarrow> history \<Rightarrow> bool" where
  "seen_vmm i pid new \<longleftrightarrow>
     (\<exists>p comm cmdline. (ReadFile (p @ ''/comm''), AData comm) \<in> set new \<and>
        (ReadFile (p @ ''/cmdline''), AData cmdline) \<in> set new \<and>
        names_vmm i comm cmdline \<and> atoi (path_base p) = Some pid)"

definition kills_seen :: "string \<Rightarrow> history \<Rightarrow> bool" where
  "kills_seen i new \<longleftrightarrow> (\<forall>pid a. (Kill pid, a) \<in> set new \<longrightarrow> seen_vmm i pid new)"

lemma seen_vmm_mono: "seen_vmm i pid new \<Longrightarrow> seen_vmm i pid (x # new)"
  unfolding seen_vmm_def by (metis list.set_intros(2))

lemma kills_seen_Cons:
  "kills_seen i new \<Longrightarrow> (\<And>pid. c = Kill pid \<Longrightarrow> seen_vmm i pid new) \<Longrightarrow> kills_seen i ((c, a) # new)"
  unfolding kills_seen_def by (auto intro: seen_vmm_mono)

lemma names_vmm_nonempty: "names_vmm i comm cmdline \<Longrightarrow> comm \<noteq> [] \<and> cmdline \<noteq> []"
  by (auto simp: names_vmm_def replace_char_def trim_space_def trim_left_def)

lemma as_data_Inr: "as_data a = Inr s \<longleftrightarrow> a = AData s"
  by (auto simp: as_data_def split: ans.splits)

lemma kill_if_vmm_seen: "preserves (did (kills_seen i) h0) (kill_if_vmm A i p)"
proof -
  have quiet: "did (kills_seen i) h0 ((ReadFile q, a) # h)" if "did (kills_seen i) h0 h" for q a h
    using that by (auto intro!: did_Cons kills_seen_Cons)
  have kill: "did (kills_seen i) h0 ((Kill pid, b) # (ReadFile (p @ ''/cmdline''), AData cmdline) #
      (ReadFile (p @ ''/comm''), AData comm) # h)"
    if "did (kills_seen i) h0 h" "names_vmm i comm cmdline" "atoi (path_base p) = Some pid" for pid b comm cmdline h
  proof -
    from that(1) obtain new where h: "h = new @ h0" "kills_seen i new" unfolding did_def by blast
    have "seen_vmm i pid ((ReadFile (p @ ''/cmdline''), AData cmdline) # (ReadFile (p @ ''/comm''), AData comm) # new)"
      using that(2,3) unfolding seen_vmm_def by fastforce
    with h(2) show ?thesis
      unfolding did_def h(1)
      by (intro exI [of _ "(Kill pid, b) # (ReadFile (p @ ''/cmdline''), AData cmdline) #
          (ReadFile (p @ ''/comm''), AData comm) # new"]) (auto intro!: kills_seen_Cons)
  qed
  show ?thesis
    unfolding preserves_def kill_if_vmm_def read_file_def
    using quiet kill names_vmm_nonempty
    by (fastforce simp: wp_simps as_data_Inr split: option.split sum.split)
qed

text \<open>
  Only the sandbox's own VMM is killed. Every process that a delete sends a SIGKILL was seen, in
  the same run, to be a Firecracker whose command line names the sandbox.
\<close>

theorem vmm_kill_is_exact:
  assumes "run_state (VmDelete A c cx i) h = (err, h')" and "(Kill pid, a) \<in> set (since h h')"
  shows "seen_vmm i pid (since h h')"
proof -
  let ?I = "did (kills_seen i) h"
  have quiet: "?I ((c, b) # h')" if "?I h'" "\<And>pid. c \<noteq> Kill pid" for c b h'
    using that by (auto intro!: did_Cons kills_seen_Cons)
  have "preserves ?I (cleanup_host A c cx i)"
    unfolding cleanup_host_def killFirecracker_def Teardown_def Detach_def recordedLoop_def Let_def
    by (auto intro!: pres_intros call_intros kill_if_vmm_seen quiet)
  moreover have "preserves ?I (delete_found A cx i)"
    by (rule delete_found_keeps) (auto intro!: quiet)
  ultimately have "preserves ?I (VmDelete A c cx i)"
    unfolding VmDelete_def guestLogPath_def
    by (auto intro!: pres_intros call_intros quiet)
  moreover have "?I h" by (rule did_start) (simp add: kills_seen_def)
  ultimately have "?I h'" using wp_runI [OF preserves_wp assms(1)] by blast
  from did_since [OF this] assms(2) show ?thesis unfolding kills_seen_def by blast
qed

section \<open>The quota counts what runs\<close>


section \<open>Witnesses\<close>

definition demo_spec :: vm_spec where
  "demo_spec =
     \<lparr>SpecID = ''ab'', SpecUserID = ''alice'', SpecTemplate = [], SpecSize = ''small'', SpecResources = no_resources,
      EnrollToken = ''t'', HomeImg = [], DeviceName = ''vm_ab''\<rparr>"

lemma run_call [simp]: "run_state (call A c) h = (A h c, (c, A h c) # h)"
  by (simp add: call_def)

lemma run_try_call [simp]: "run_state (try_call A c) h = ((), (c, A h c) # h)"
  by (simp add: try_call_def)

lemma plain_ab: "plain_id ''ab''"
  by (simp add: plain_id_def)

text \<open>A host on which files read back, a VM cannot be started, and a network namespace not deleted.\<close>

definition failing_plant :: plant where
  "failing_plant h c =
     (case c of
        GetImage cx r \<Rightarrow> AImage r
      | IsUnpacked cx i s \<Rightarrow> ABool True
      | CniSetup cx i p \<Rightarrow> AIps [[[10, 88, 0, 7]]]
      | ReadFile p \<Rightarrow> (case content h p of Some s \<Rightarrow> AData s | None \<Rightarrow> AErr (CErr KNotFound ''no file''))
      | TaskStart cx i \<Rightarrow> AErr (CErr KOther ''no memory'')
      | NetnsDel i \<Rightarrow> AFail ''exit status 1'' ''busy''
      | _ \<Rightarrow> AOk)"

lemma failing_reads_back: "reads_back failing_plant"
  by (simp add: reads_back_def failing_plant_def as_data_def)

lemma failing_run:
  "isl (fst (run_state (VmCreate failing_plant demo_cfg Caller demo_spec) [])) \<and>
   holds (snd (run_state (VmCreate failing_plant demo_cfg Caller demo_spec) [])) (RNetns ''ab'')"
  by (simp add: VmCreate_def get_image_def create_from_image_def ensureUnpacked_def attach_home_def
      boot_in_netns_def NetSetup_def boot_def guestLogPath_def undo_host_def Teardown_def detachHome_def
      demo_spec_def failing_plant_def as_image_def as_bool_def as_err_def as_ips_def Let_def releases_def)


text \<open>The host in memory, with a network namespace and without the container.\<close>

lemma delete_run: "fst (run_state (VmDelete mem_plant demo_cfg Caller ''ab'') [(NetnsAdd ''ab'', AOk)]) = None"
  by (simp add: VmDelete_def delete_found_def guestLogPath_def mem_plant_def as_err_def IsNotFound_def split_beta)


text \<open>A guest with a secret and a public variable.\<close>

definition exec_plant :: plant where
  "exec_plant h c =
     (case c of
        ContSpec cx i \<Rightarrow> AEnv (Some [''ENROLL_TOKEN=t'', ''BRIDGE_PORT=4000''])
      | RandRead n \<Rightarrow> ABytes [1, 2]
      | ProcExit i x \<Rightarrow> AExit [''hel'', ''lo''] 0
      | _ \<Rightarrow> AOk)"

lemma exec_run:
  "run_state (VmExec exec_plant Caller ''ab'' [''id'']) [] =
     (Inr (''hello'', 0), snd (run_state (VmExec exec_plant Caller ''ab'' [''id'']) [])) \<and>
   (\<exists>x p a. (TaskExec Caller ''ab'' x p, a) \<in> set (since [] (snd (run_state (VmExec exec_plant Caller ''ab'' [''id'']) []))) \<and>
      ''BRIDGE_PORT=4000'' \<in> set (ExEnv p))"
proof -
  have "exec_env (AEnv (Some [''ENROLL_TOKEN=t'', ''BRIDGE_PORT=4000''])) = base_env @ [''BRIDGE_PORT=4000'']"
    by (simp add: exec_env_def allowed_env_def execEnvAllow_def has_prefix_def)
  then show ?thesis
    by (simp add: VmExec_def exec_prepared_def randHex_def run_process_def exec_plant_def as_err_def Let_def
        since_def buf_write_def)
qed


text \<open>One container that is old and stopped, one that runs.\<close>

definition old_plant :: plant where
  "old_plant h c =
     (case c of
        Containers cx \<Rightarrow> AIds [''new'', ''old'']
      | ContInfo cx i \<Rightarrow> ANum 0
      | Now \<Rightarrow> ANum 700000000000
      | TaskStatus cx i \<Rightarrow> AStatus (if i = ''old'' then TStopped else TRunning)
      | _ \<Rightarrow> AOk)"

lemma old_run:
  "(ContDelete Caller ''old'', AOk) \<in> set (since [] (snd (run_state (CleanupStopped old_plant demo_cfg Caller) [])))"
  by (simp add: CleanupStopped_def cleanup_one_def VmDelete_def delete_found_def delete_container_def
      guestLogPath_def cleanup_host_def killFirecracker_def Teardown_def Detach_def recordedLoop_def old_plant_def
      as_ids_def as_num_def as_err_def as_status_def as_data_def clock_def cleanupGrace_def Let_def since_def)

theorem cleanup_spares_the_living_witness:
  "old_and_stopped ''old'' (since [] (snd (run_state (CleanupStopped old_plant demo_cfg Caller) [])))"
  by (rule cleanup_spares_the_living [OF prod.collapse [symmetric] old_run]) (simp add: kill_target_def)

text \<open>A Firecracker of the sandbox among the processes.\<close>

definition proc_plant :: plant where
  "proc_plant h c =
     (case c of
        Glob p \<Rightarrow> AIds [''/proc/7'', ''/proc/42'']
      | ReadFile p \<Rightarrow>
          if p = ''/proc/42/comm'' then AData (''firecracker'' @ [CHR 0x0A])
          else if p = ''/proc/42/cmdline'' then AData (''fc'' @ [CHR 0x00] @ ''--id'' @ [CHR 0x00] @ ''ab'')
          else AData ''init''
      | _ \<Rightarrow> AOk)"

lemma proc_run:
  "(Kill 42, AOk) \<in> set (since [] (snd (run_state (VmDelete proc_plant demo_cfg Caller ''ab'') [])))"
proof -
  have n: "names_vmm ''ab'' (''firecracker'' @ [CHR 0x0A]) (''fc'' @ [CHR 0x00] @ ''--id'' @ [CHR 0x00] @ ''ab'')"
    "trim_space (''firecracker'' @ [CHR 0x0A]) = ''firecracker''" "trim_space ''init'' \<noteq> ''firecracker''"
    "atoi (path_base ''/proc/42'') = Some 42"
    by code_simp+
  then show ?thesis
    by (simp add: VmDelete_def delete_found_def delete_container_def guestLogPath_def cleanup_host_def
        killFirecracker_def kill_if_vmm_def read_file_def Teardown_def Detach_def recordedLoop_def proc_plant_def
        as_ids_def as_err_def as_data_def Let_def since_def)
qed

theorem vmm_kill_is_exact_witness:
  "seen_vmm ''ab'' 42 (since [] (snd (run_state (VmDelete proc_plant demo_cfg Caller ''ab'') [])))"
  by (rule vmm_kill_is_exact [OF prod.collapse [symmetric] proc_run])


end
