(* ===== verification/Vm_Unpack.thy ===== *)
theory Vm_Unpack
  imports Vm_Manager
begin

text \<open>
  The shared background unpack of \<^verbatim>\<open>internal/vm/manager.go\<close> (\<^verbatim>\<open>ensureUnpacked\<close>, \<^verbatim>\<open>unpackJob\<close>) as a step
  relation: any number of creates and of jobs, interleaved between the critical sections of
  \<^verbatim>\<open>unpackMu\<close>. Shown by rule induction over the reachable states: there is never more than one unpack
  under way, a create gets the result of the job it waited for, one that gives up changes nothing for
  the others, and no create waits forever for a job that cannot end.
\<close>

section \<open>States\<close>

text \<open>
  A job unpacks, has set its \<^verbatim>\<open>err\<close>, has cleared \<^verbatim>\<open>m.unpacking\<close>, and has closed its channel. A create
  asks whether the image is unpacked, is before the critical section, waits for a job, or is done.
\<close>

datatype job_state =
  NoJob | Unpacking | Returned "goerr option" | Cleared "goerr option" | Closed "goerr option"

datatype outcome = IsThere | CheckFailed goerr | JobResult nat "goerr option" | GaveUp goerr

datatype caller_state = Checking | Joining | Waiting nat | Finished outcome

text \<open>What \<^verbatim>\<open>ensureUnpacked\<close> returns.\<close>

fun outcome_error :: "outcome \<Rightarrow> goerr option" where
  "outcome_error IsThere = None"
| "outcome_error (CheckFailed e) = Some e"
| "outcome_error (JobResult j r) = r"
| "outcome_error (GaveUp e) = Some (Prefix ''waiting for rootfs unpack'' e)"

record unpack_state =
  current :: "nat option"
  job :: "nat \<Rightarrow> job_state"
  caller :: "nat \<Rightarrow> caller_state"
  next_job :: nat

definition unpack_init :: unpack_state where
  "unpack_init = \<lparr>current = None, job = (\<lambda>_. NoJob), caller = (\<lambda>_. Checking), next_job = 0\<rparr>"

section \<open>Steps\<close>

inductive unpack_step :: "unpack_state \<Rightarrow> unpack_state \<Rightarrow> bool" where
  is_there: "caller s i = Checking \<Longrightarrow> unpack_step s (s\<lparr>caller := (caller s)(i := Finished IsThere)\<rparr>)"
| check_failed:
    "caller s i = Checking \<Longrightarrow> unpack_step s (s\<lparr>caller := (caller s)(i := Finished (CheckFailed e))\<rparr>)"
| not_there: "caller s i = Checking \<Longrightarrow> unpack_step s (s\<lparr>caller := (caller s)(i := Joining)\<rparr>)"
| join_running:
    "caller s i = Joining \<Longrightarrow> current s = Some j \<Longrightarrow>
     unpack_step s (s\<lparr>caller := (caller s)(i := Waiting j)\<rparr>)"
| start_job:
    "caller s i = Joining \<Longrightarrow> current s = None \<Longrightarrow> j = next_job s \<Longrightarrow>
     unpack_step s (s\<lparr>caller := (caller s)(i := Waiting j), current := Some j,
                      job := (job s)(j := Unpacking), next_job := Suc j\<rparr>)"
| returned: "job s j = Unpacking \<Longrightarrow> unpack_step s (s\<lparr>job := (job s)(j := Returned r)\<rparr>)"
| cleared:
    "job s j = Returned r \<Longrightarrow> unpack_step s (s\<lparr>job := (job s)(j := Cleared r), current := None\<rparr>)"
| closed: "job s j = Cleared r \<Longrightarrow> unpack_step s (s\<lparr>job := (job s)(j := Closed r)\<rparr>)"
| wake:
    "caller s i = Waiting j \<Longrightarrow> job s j = Closed r \<Longrightarrow>
     unpack_step s (s\<lparr>caller := (caller s)(i := Finished (JobResult j r))\<rparr>)"
| give_up:
    "caller s i = Waiting j \<Longrightarrow> unpack_step s (s\<lparr>caller := (caller s)(i := Finished (GaveUp e))\<rparr>)"

inductive_cases unpack_stepE: "unpack_step s s'"

definition reachable :: "unpack_state \<Rightarrow> bool" where
  "reachable s \<longleftrightarrow> unpack_step\<^sup>*\<^sup>* unpack_init s"

section \<open>Invariant\<close>

text \<open>
  The job that \<^verbatim>\<open>m.unpacking\<close> names is the only one that unpacks or has just returned; jobs are
  numbered; a create waits for a job that was started, and has the result of a job that is closed.
\<close>

definition unpack_inv :: "unpack_state \<Rightarrow> bool" where
  "unpack_inv s \<longleftrightarrow>
     (\<forall>j. (job s j = Unpacking \<or> (\<exists>r. job s j = Returned r)) \<longleftrightarrow> current s = Some j) \<and>
     (\<forall>j. job s j \<noteq> NoJob \<longleftrightarrow> j < next_job s) \<and>
     (\<forall>i j. caller s i = Waiting j \<longrightarrow> job s j \<noteq> NoJob) \<and>
     (\<forall>i j r. caller s i = Finished (JobResult j r) \<longrightarrow> job s j = Closed r)"

lemma unpack_inv_init: "unpack_inv unpack_init"
  by (simp add: unpack_inv_def unpack_init_def)

lemma unpack_inv_step:
  assumes "unpack_step s s'" and "unpack_inv s"
  shows "unpack_inv s'"
  using assms
proof (cases rule: unpack_step.cases)
  case (start_job i j)
  have "job s j = NoJob" using assms(2) start_job(4) unfolding unpack_inv_def by blast
  then show ?thesis
    using assms(2) start_job unfolding unpack_inv_def by (auto simp: less_Suc_eq)
next
  case (cleared j r)
  then have "current s = Some j" using assms(2) unfolding unpack_inv_def by blast
  then show ?thesis using assms(2) cleared unfolding unpack_inv_def by (auto split: if_splits)
next
  case (join_running i j)
  then have "job s j = Unpacking \<or> (\<exists>r. job s j = Returned r)" using assms(2) unfolding unpack_inv_def by blast
  then have "job s j \<noteq> NoJob" by auto
  then show ?thesis using assms(2) join_running unfolding unpack_inv_def by auto
next
  case (closed j r)
  then have "current s \<noteq> Some j" using assms(2) unfolding unpack_inv_def by (metis job_state.distinct(11,15))
  then show ?thesis using assms(2) closed unfolding unpack_inv_def by auto
qed (auto simp: unpack_inv_def split: if_splits)

lemma reachable_inv: "reachable s \<Longrightarrow> unpack_inv s"
  unfolding reachable_def
  by (induction rule: rtranclp_induct) (auto intro: unpack_inv_init unpack_inv_step)

text \<open>
  C19. One unpack at a time. In every reachable state, whatever the creates and jobs did in whatever
  order, at most one job unpacks, and only while \<^verbatim>\<open>m.unpacking\<close> names it; a create that waits waits for
  a job that was started; and a create that returns a job's result returns the result of that very
  job, after it was closed.
\<close>

theorem unpack_single_flight:
  assumes "reachable s"
  shows "(\<forall>j k. job s j = Unpacking \<and> job s k = Unpacking \<longrightarrow> j = k \<and> current s = Some j) \<and>
         (\<forall>i j. caller s i = Waiting j \<longrightarrow> job s j \<noteq> NoJob) \<and>
         (\<forall>i j r. caller s i = Finished (JobResult j r) \<longrightarrow>
            job s j = Closed r \<and> outcome_error (JobResult j r) = r)"
  using reachable_inv [OF assms] unfolding unpack_inv_def by (metis option.inject outcome_error.simps(3))

section \<open>Progress\<close>

text \<open>The steps that remain for a job.\<close>

lemma job_can_close:
  assumes "job s j \<noteq> NoJob"
  shows "\<exists>s' r. unpack_step\<^sup>*\<^sup>* s s' \<and> job s' j = Closed r \<and> caller s' = caller s"
proof -
  have close: "\<exists>s' r. unpack_step\<^sup>*\<^sup>* t s' \<and> job s' j = Closed r \<and> caller s' = caller t"
    if "job t j = Cleared r" for t r
    using closed [OF that] by (intro exI [of _ "t\<lparr>job := (job t)(j := Closed r)\<rparr>"] exI [of _ r]) auto
  have clear: "\<exists>s' r. unpack_step\<^sup>*\<^sup>* t s' \<and> job s' j = Closed r \<and> caller s' = caller t"
    if "job t j = Returned r" for t r
    using close [of "t\<lparr>job := (job t)(j := Cleared r), current := None\<rparr>" r] cleared [OF that]
    by (auto intro: converse_rtranclp_into_rtranclp)
  have ret: "\<exists>s' r. unpack_step\<^sup>*\<^sup>* t s' \<and> job s' j = Closed r \<and> caller s' = caller t"
    if "job t j = Unpacking" for t
    using clear [of "t\<lparr>job := (job t)(j := Returned None)\<rparr>" None] returned [OF that, of None]
    by (auto intro: converse_rtranclp_into_rtranclp)
  from assms close clear ret show ?thesis by (cases "job s j") auto
qed

text \<open>
  C20. No create is stuck. Every create that waits for a job in a reachable state can still get the
  result of this job, without any step of another create; and when it gives up instead, the jobs,
  \<^verbatim>\<open>m.unpacking\<close> and all other creates stay as they are.
\<close>

theorem unpack_waiters_return:
  assumes "reachable s" and "caller s i = Waiting j"
  shows "(\<exists>s' r. unpack_step\<^sup>*\<^sup>* s s' \<and> caller s' = (caller s)(i := Finished (JobResult j r))) \<and>
         (\<forall>e. \<exists>s'. unpack_step s s' \<and> outcome_error (GaveUp e) \<noteq> None \<and>
            caller s' = (caller s)(i := Finished (GaveUp e)) \<and> job s' = job s \<and> current s' = current s)"
proof -
  have "job s j \<noteq> NoJob" using reachable_inv [OF assms(1)] assms(2) unfolding unpack_inv_def by blast
  from job_can_close [OF this] obtain s1 r where
    s1: "unpack_step\<^sup>*\<^sup>* s s1" "job s1 j = Closed r" "caller s1 = caller s" by blast
  from wake [of s1 i j r] s1 assms(2)
  have "unpack_step s1 (s1\<lparr>caller := (caller s)(i := Finished (JobResult j r))\<rparr>)" by simp
  with s1(1) have "unpack_step\<^sup>*\<^sup>* s (s1\<lparr>caller := (caller s)(i := Finished (JobResult j r))\<rparr>)" by simp
  moreover have "\<exists>s'. unpack_step s s' \<and> caller s' = (caller s)(i := Finished (GaveUp e)) \<and>
      job s' = job s \<and> current s' = current s" for e
    using give_up [OF assms(2), of e]
    by (intro exI [of _ "s\<lparr>caller := (caller s)(i := Finished (GaveUp e))\<rparr>"]) simp
  ultimately show ?thesis by fastforce
qed

section \<open>The job\<close>

text \<open>The lease of an unpack is released again, whether it succeeded or not.\<close>

lemma unpack_releases:
  "wp (unpack A c img)
     (\<lambda>_ h'. (\<exists>e. hd h' = (WithLease, A h WithLease) \<and> as_err (A h WithLease) = Some e) \<or>
            (\<exists>a. hd h' = (ReleaseLease, a))) h"
  unfolding unpack_def by (auto simp: wp_simps split: option.split)

section \<open>Witnesses\<close>

text \<open>Two creates that share a job: the first starts it, the second joins and gives up.\<close>

definition two :: "caller_state \<Rightarrow> caller_state \<Rightarrow> nat option \<Rightarrow> job_state \<Rightarrow> nat \<Rightarrow> unpack_state" where
  "two p q cur jb n =
     \<lparr>current = cur, job = (\<lambda>_. NoJob)(0 := jb), caller = (\<lambda>_. Checking)(0 := p, 1 := q), next_job = n\<rparr>"

definition shared :: unpack_state where
  "shared = two (Waiting 0) (Waiting 0) (Some 0) Unpacking 1"

lemma two_init: "unpack_init = two Checking Checking None NoJob 0"
  by (simp add: unpack_init_def two_def fun_eq_iff)

lemma two_upd:
  "(two p q cur jb n)\<lparr>caller := (caller (two p q cur jb n))(0 := p')\<rparr> = two p' q cur jb n"
  "(two p q cur jb n)\<lparr>caller := (caller (two p q cur jb n))(Suc 0 := q')\<rparr> = two p q' cur jb n"
  "(two p q cur jb n)\<lparr>caller := (caller (two p q cur jb n))(0 := p'), current := cur',
     job := (job (two p q cur jb n))(0 := jb'), next_job := n'\<rparr> = two p' q cur' jb' n'"
  by (simp_all add: two_def fun_eq_iff)

lemma shared_reachable: "reachable shared"
proof -
  have 1: "unpack_step (two Checking Checking None NoJob 0) (two Joining Checking None NoJob 0)"
    using not_there [of "two Checking Checking None NoJob 0" 0] unfolding two_upd by (simp add: two_def)
  have 2: "unpack_step (two Joining Checking None NoJob 0) (two (Waiting 0) Checking (Some 0) Unpacking 1)"
    using start_job [of "two Joining Checking None NoJob 0" 0 0] unfolding two_upd by (simp add: two_def)
  have 3: "unpack_step (two (Waiting 0) Checking (Some 0) Unpacking 1) (two (Waiting 0) Joining (Some 0) Unpacking 1)"
    using not_there [of "two (Waiting 0) Checking (Some 0) Unpacking 1" "Suc 0"] unfolding two_upd
    by (simp add: two_def)
  have 4: "unpack_step (two (Waiting 0) Joining (Some 0) Unpacking 1) shared"
    using join_running [of "two (Waiting 0) Joining (Some 0) Unpacking 1" "Suc 0" 0] unfolding two_upd shared_def
    by (simp add: two_def)
  show ?thesis
    unfolding reachable_def two_init
    by (rule converse_rtranclp_into_rtranclp, rule 1, rule converse_rtranclp_into_rtranclp, rule 2,
        rule converse_rtranclp_into_rtranclp, rule 3, rule converse_rtranclp_into_rtranclp, rule 4,
        rule rtranclp.rtrancl_refl)
qed

lemma shared_simps: "job shared 0 = Unpacking" "caller shared (Suc 0) = Waiting 0"
  by (simp_all add: shared_def two_def)

theorem unpack_single_flight_witness:
  "{k. job shared k = Unpacking} = {0} \<and> current shared = Some 0"
  using unpack_single_flight [OF shared_reachable, THEN conjunct1] shared_simps(1) by auto

theorem unpack_waiters_return_witness:
  "\<exists>s' r. unpack_step\<^sup>*\<^sup>* shared s' \<and> caller s' 1 = Finished (JobResult 0 r)"
proof -
  from unpack_waiters_return [OF shared_reachable shared_simps(2), THEN conjunct1] obtain s' r where
    s: "unpack_step\<^sup>*\<^sup>* shared s'" "caller s' = (caller shared)(Suc 0 := Finished (JobResult 0 r))"
    by blast
  from s(2) have "caller s' 1 = Finished (JobResult 0 r)" by simp
  with s(1) show ?thesis by blast
qed

end
