(* ===== verification/Config_Props.thy ===== *)
theory Config_Props
  imports Config
begin

text \<open>
  What the configuration guarantees to the rest of the program: positive limits, a sound SSH section,
  an authorization URL that does not leak the guest's secret, the environment above the file, and
  numbers that read back as they were written.
\<close>

section \<open>The environment file\<close>

lemma setenv_keeps: "e k = Some v \<Longrightarrow> (k' = k \<longrightarrow> e k' \<noteq> None) \<Longrightarrow> k' \<noteq> k \<Longrightarrow> setenv k' w e k = Some v"
  by (simp add: setenv_def)

lemma load_line_keeps: "e k = Some v \<Longrightarrow> load_line l e k = Some v"
  by (auto simp: load_line_def setenv_def split: option.splits prod.splits)

lemma load_lines_keep: "e k = Some v \<Longrightarrow> fold load_line ls e k = Some v"
  by (induction ls arbitrary: e) (simp_all add: load_line_keeps)

lemma load_line_new:
  "e k = None \<Longrightarrow> load_line l e k = Some v \<Longrightarrow> env_line l = Some (k, v)"
  by (auto simp: load_line_def setenv_def split: option.splits prod.splits if_splits)

lemma load_lines_new:
  "e k = None \<Longrightarrow> fold load_line ls e k = Some v \<Longrightarrow>
   \<exists>l \<in> set ls. env_line l = Some (k, v)"
proof (induction ls arbitrary: e)
  case (Cons l ls)
  show ?case
  proof (cases "load_line l e k")
    case None
    with Cons show ?thesis by auto
  next
    case (Some w)
    with load_lines_keep [of "load_line l e" k w ls] Cons.prems have "w = v" by simp
    with load_line_new Cons.prems(1) Some show ?thesis by fastforce
  qed
qed simp

text \<open>
  The environment wins over the file. Loading the \<^verbatim>\<open>.env\<close> file changes no variable that is set,
  and every variable it adds stands in a line of the file that was chosen by \<^verbatim>\<open>NODE_ENV\<close>.
\<close>

theorem dotenv_never_overrides:
  "(case e k of
      Some v \<Rightarrow> loadDotEnv files e k = Some v
    | None \<Rightarrow>
        (case loadDotEnv files e k of
           None \<Rightarrow> True
         | Some v \<Rightarrow>
             (\<exists>text. files (if getenv e ''NODE_ENV'' = ''production'' then ''.env'' else ''.env.development'') = Some text \<and>
                (\<exists>l. l \<in> set (scan_lines text) \<and> env_line l = Some (k, v)))))"
proof (cases "files (if getenv e ''NODE_ENV'' = ''production'' then ''.env'' else ''.env.development'')")
  case None
  then have "loadDotEnv files e = e" by (simp add: loadDotEnv_def)
  then show ?thesis by (simp split: option.split)
next
  case content: (Some t)
  then have e: "loadDotEnv files e = fold load_line (scan_lines t) e" by (simp add: loadDotEnv_def)
  show ?thesis
  proof (cases "e k")
    case None
    show ?thesis
    proof (cases "loadDotEnv files e k")
      case (Some v)
      from load_lines_new [OF None Some [unfolded e]]
      have "\<exists>l. l \<in> set (scan_lines t) \<and> env_line l = Some (k, v)" by blast
      with None Some content show ?thesis by simp
    qed (simp add: None)
  qed (use e load_lines_keep in auto)
qed

section \<open>Numbers\<close>

lemma hex_val_digit: "is_digit c \<Longrightarrow> hex_val c = Some (digit_val c)"
  by (simp add: hex_val_def is_digit_def digit_val_def)

lemma digit_val_lt: "is_digit c \<Longrightarrow> digit_val c < 10"
  unfolding is_digit_def digit_val_def by linarith

lemma digit_decimal: "is_digit c \<Longrightarrow> c \<in> set ''0123456789''"
proof -
  assume d: "is_digit c"
  then have "c = digit_char (digit_val c)" by (simp add: is_digit_def digit_val_def digit_char_def)
  moreover have "\<forall>n \<in> set [0..<10]. digit_char n \<in> set ''0123456789''" by code_simp
  ultimately show ?thesis using digit_val_lt [OF d] by (metis atLeastLessThan_iff le0 set_upt)
qed

lemma digits_value_dec:
  assumes "list_all is_digit s"
  shows "digits_value 10 s = dec_val s"
  unfolding digits_value_def dec_val_def
proof (rule foldl_cong)
  fix c a assume "c \<in> set s"
  with assms have "is_digit c" by (simp add: list_all_iff)
  moreover have "c \<noteq> CHR ''_''" using calculation by (auto simp: is_digit_def)
  ultimately show "(if c = CHR ''_'' then a else 10 * a + (case hex_val c of None \<Rightarrow> 0 | Some d \<Rightarrow> d)) =
      10 * a + digit_val c" for a
    by (simp add: hex_val_digit)
qed simp_all

lemma parse_uint0_dec:
  assumes "list_all is_digit s" and "s \<noteq> []" and "hd s \<noteq> CHR ''0''"
  shows "parse_uint0 s = Some (dec_val s)"
proof -
  have "number_base s = (10, s)" using assms(2,3) by (cases s rule: list.exhaust; cases "tl s") (auto simp: number_base_def)
  moreover have "CHR ''_'' \<notin> set s" using assms(1) by (auto simp: list_all_iff is_digit_def)
  moreover have "list_all (\<lambda>c. c = CHR ''_'' \<or> (case hex_val c of None \<Rightarrow> False | Some d \<Rightarrow> d < 10)) s"
    using assms(1) by (auto simp: list_all_iff hex_val_digit digit_val_lt)
  ultimately show ?thesis using assms digits_value_dec [OF assms(1)] by (simp add: parse_uint0_def)
qed

lemma sscan_dec:
  assumes "list_all is_space sp" and "n > 0" and "in_int64 (int n)"
    and "rest = [] \<or> hd rest \<notin> set ''0123456789_''"
  shows "sscan_int (sp @ dec_nat n @ rest) = Some (int n)"
proof -
  let ?d = "dec_nat n"
  have hd0: "hd ?d \<noteq> CHR ''0''" using assms(2) by (simp add: dec_nat_hd)
  have hdd: "is_digit (hd ?d)" by (rule hd_dec_nat_digit)
  then have ns: "\<not> is_space (hd ?d)" "hd ?d \<notin> set ''+-''" by (auto simp: is_digit_def is_space_def)
  have s1: "dropWhile is_space (sp @ ?d @ rest) = ?d @ rest"
    using assms(1) ns(1) dec_nat_nonempty [of n]
    by (cases ?d) (auto simp: list_all_iff dropWhile_append2)
  have b: "base_prefix (?d @ rest) = ([], ''0123456789_'', ?d @ rest)"
    using hd0 dec_nat_nonempty [of n] by (cases ?d; cases "tl ?d @ rest") (auto simp: base_prefix_def)
  have "\<And>c. c \<in> set ?d \<Longrightarrow> c \<in> set ''0123456789_''"
    using dec_nat_digits [of n] digit_decimal by (auto simp: list_all_iff)
  then have t: "takeWhile (\<lambda>c. c \<in> set ''0123456789_'') (?d @ rest) = ?d"
    using assms(4) by (subst takeWhile_append2) (auto simp: takeWhile_eq_Nil_iff)
  have p: "parse_uint0 ?d = Some n"
    using parse_uint0_dec [OF dec_nat_digits dec_nat_nonempty hd0] by simp
  have h: "hd (?d @ rest) = hd ?d" by simp
  show ?thesis
    unfolding sscan_int_def s1 Let_def h using ns b t p assms(3) by auto
qed

text \<open>
  A number reads back. A positive number in decimal is the value of its variable, also with
  space in front of it; whatever follows the digits is ignored.
\<close>

theorem env_int_roundtrip:
  assumes "e key = Some (sp @ dec_nat n @ rest)" and "list_all is_space sp"
    and "0 < n" and "n < 2 ^ 63" and "rest = [] \<or> hd rest \<notin> set ''0123456789_''"
  shows "envInt e key def = Inr (int n)"
proof -
  have "in_int64 (int n)" using assms(4) by (simp add: in_int64_def)
  from sscan_dec [OF assms(2,3) this assms(5)] assms(1,3)
  show ?thesis by (simp add: envInt_def env_def getenv_def)
qed

theorem env_int_roundtrip_witness: "envInt [''SANDBOX_MAX_VMS'' \<mapsto> '' 48abc''] ''SANDBOX_MAX_VMS'' 1 = Inr 48"
proof -
  have "dec_nat 48 = ''48''" by code_simp
  then show ?thesis
    using env_int_roundtrip [of "[''SANDBOX_MAX_VMS'' \<mapsto> '' 48abc'']" "''SANDBOX_MAX_VMS''" "'' ''" 48 "''abc''" 1]
    by (simp add: is_space_def)
qed

section \<open>The limits\<close>

lemma envInt_pos: "envInt e key def = Inr v \<Longrightarrow> 0 < v \<and> in_int64 v"
  by (auto simp: envInt_def sscan_int_def Let_def split: option.splits if_splits prod.splits)

lemma word_of_pos:
  assumes "0 < v" and "in_int64 v"
  shows "uint (of_int v :: 64 word) = v"
proof -
  have "0 \<le> v" "v < 2 ^ 64" using assms unfolding in_int64_def by auto
  then show ?thesis by (simp add: uint_word_of_int)
qed

lemma loadSSH_sound:
  assumes "loadSSH e c = Inr c'"
  shows "c' = c\<lparr>SSHPublicHost := SSHPublicHost c', SSHPortStart := SSHPortStart c',
              SSHPortEnd := SSHPortEnd c', SSHAuthURL := SSHAuthURL c'\<rparr>"
    and "SSHPublicHost c' \<noteq> [] \<Longrightarrow>
           1 \<le> SSHPortStart c' \<and> SSHPortStart c' \<le> SSHPortEnd c' \<and> SSHPortEnd c' \<le> 65535 \<and>
           hostRe (SSHPublicHost c') \<and> length (SSHPublicHost c') \<le> 253 \<and>
           validateSSHAuthURL (SSHAuthURL c') (getenv e ''NODE_ENV'') = None"
  using assms envInt_pos [of e "''SSH_PORT_START''" 0] envInt_pos [of e "''SSH_PORT_END''" 0]
  by (auto simp: loadSSH_def Let_def split: if_splits sum.splits option.splits)

lemma load_env_cases:
  assumes "load_env order e = Inr c"
  obtains a b d where "envInt e ''SANDBOX_MAX_VMS'' 48 = Inr a"
    "envInt e ''SANDBOX_HOST_MEMORY_RESERVE_MIB'' (24 * 1024) = Inr b"
    "envInt e ''SANDBOX_VM_MEMORY_MIB'' (2 * 1024) = Inr d"
    "find (\<lambda>(k, v). v = []) (order (required (config_of e a b d))) = None"
    "loadSSH e (config_of e a b d) = Inr c"
    "getenv e ''NODE_ENV'' = ''production'' \<or> NoiseBackendHost c \<noteq> []"
  using assms by (auto simp: load_env_def Let_def split: sum.splits option.splits if_splits prod.splits)

text \<open>
  C23. A configuration that loads is sound, in whatever order the required keys are checked: the
  limits of the admission control are positive and were not cut to the word size, no required value
  is empty, outside production the VMs have a backend to enroll with, and when the SSH relay is
  enabled its ports are a range of valid ones, its host a name, and its authorization URL accepted.
\<close>

theorem config_is_sound:
  assumes "Load order files e = Inr c" and "\<And>ks. set (order ks) = set ks"
  shows "0 < MaxVMs c \<and> 0 < uint (HostMemoryReserveMiB c) \<and> uint (HostMemoryReserveMiB c) < 2 ^ 63 \<and>
         0 < uint (VMMemoryMiB c) \<and> uint (VMMemoryMiB c) < 2 ^ 63 \<and>
         DragonflyURL c \<noteq> [] \<and> BackendURL c \<noteq> [] \<and> BackendAPIKey c \<noteq> [] \<and>
         (getenv (loadDotEnv files e) ''NODE_ENV'' = ''production'' \<or> NoiseBackendHost c \<noteq> []) \<and>
         (SSHEnabled c \<longrightarrow>
            1 \<le> SSHPortStart c \<and> SSHPortStart c \<le> SSHPortEnd c \<and> SSHPortEnd c \<le> 65535 \<and>
            hostRe (SSHPublicHost c) \<and>
            validateSSHAuthURL (SSHAuthURL c) (getenv (loadDotEnv files e) ''NODE_ENV'') = None)"
proof -
  let ?e = "loadDotEnv files e"
  from assms(1) have "load_env order ?e = Inr c" by (simp add: Load_def)
  then obtain a b d where l: "envInt ?e ''SANDBOX_MAX_VMS'' 48 = Inr a"
    "envInt ?e ''SANDBOX_HOST_MEMORY_RESERVE_MIB'' (24 * 1024) = Inr b"
    "envInt ?e ''SANDBOX_VM_MEMORY_MIB'' (2 * 1024) = Inr d"
    "find (\<lambda>(k, v). v = []) (order (required (config_of ?e a b d))) = None"
    "loadSSH ?e (config_of ?e a b d) = Inr c"
    "getenv ?e ''NODE_ENV'' = ''production'' \<or> NoiseBackendHost c \<noteq> []"
    by (rule load_env_cases)
  let ?c = "config_of ?e a b d"
  note pos = envInt_pos [OF l(1)] envInt_pos [OF l(2)] envInt_pos [OF l(3)]
  from loadSSH_sound(1) [OF l(5)] obtain h x y u where
    c: "c = ?c\<lparr>SSHPublicHost := h, SSHPortStart := x, SSHPortEnd := y, SSHAuthURL := u\<rparr>" by blast
  have req: "\<forall>(k, v) \<in> set (required ?c). v \<noteq> []"
    using l(4) assms(2) by (auto simp: find_None_iff)
  show ?thesis
    using loadSSH_sound(2) [OF l(5)] l(6) pos req word_of_pos [of b] word_of_pos [of d]
    by (auto simp: c SSHEnabled_def config_of_def required_def in_int64_def)
qed

section \<open>The authorization URL\<close>

text \<open>
  C24. The authorization URL keeps the guest's device secret safe. An accepted one is
  \<^verbatim>\<open>scheme://authority/path\<close> without credentials and query, its path is the fixed route, and its
  scheme is \<^verbatim>\<open>https\<close>; or \<^verbatim>\<open>http\<close>, only in development or test and only to this host or to a
  private address.
\<close>

theorem ssh_auth_url_safe:
  assumes "validateSSHAuthURL raw nodeEnv = None"
  shows "\<exists>u sch auth p fr. Parse raw = Some u \<and> raw = sch @ ''://'' @ auth @ p @ fr \<and> fr \<in> {[], ''#''} \<and>
           auth \<noteq> [] \<and> CHR ''@'' \<notin> set auth \<and> CHR ''/'' \<notin> set auth \<and> CHR ''?'' \<notin> set (auth @ p) \<and>
           CHR ''#'' \<notin> set (auth @ p) \<and> unescape EncodePath p = Some sshAuthPath \<and>
           (map to_lower sch = ''https'' \<or>
            map to_lower sch = ''http'' \<and> nodeEnv \<in> {''development'', ''test''} \<and> local_host u)"
proof -
  from assms obtain u where p: "Parse raw = Some u" by (auto simp: validateSSHAuthURL_def split: option.splits)
  have ok: "\<not> (Host u = [] \<or> User u \<noteq> None \<or> RawQuery u \<noteq> [] \<or> ForceQuery u \<or> Fragment u \<noteq> [] \<or>
      Path u \<noteq> sshAuthPath)"
    using assms p by (simp add: validateSSHAuthURL_def split: if_splits)
  from p ok have u: "Parse raw = Some u" "Host u \<noteq> []" "User u = None" "RawQuery u = []"
    "\<not> ForceQuery u" "Fragment u = []" "Path u = sshAuthPath" by blast+
  have s: "UScheme u = ''https'' \<or>
      UScheme u = ''http'' \<and> nodeEnv \<in> {''development'', ''test''} \<and> local_host u"
    using assms p ok by (simp add: validateSSHAuthURL_def split: if_splits)
  from s have "UScheme u \<noteq> []" by auto
  from Parse_shape [OF u(1,2) this u(4,5,6)] obtain sch auth p fr where
    sh: "raw = sch @ ''://'' @ auth @ p @ fr" "fr \<in> {[], ''#''}" "map to_lower sch = UScheme u"
      "CHR ''?'' \<notin> set (auth @ p)" "CHR ''#'' \<notin> set (auth @ p)" "CHR ''/'' \<notin> set auth"
      "parseAuthority auth = Some (User u, Host u)" "unescape EncodePath p = Some (Path u)"
    by blast
  have "CHR ''@'' \<notin> set auth"
    using sh(7) u(3) cut_last_None [of "CHR ''@''" auth]
    by (auto simp: parseAuthority_def bind_eq_Some_conv split: option.splits)
  moreover have "auth \<noteq> []"
  proof
    assume "auth = []"
    with sh(7) have "Host u = []"
      by (simp add: parseAuthority_def parseHost_def cut_last_def cut_def)
    with u(2) show False by simp
  qed
  ultimately show ?thesis using sh u(1,7) s by metis
qed

lemma sshAuthPath_plain:
  "CHR ''?'' \<notin> set sshAuthPath" "CHR ''#'' \<notin> set sshAuthPath" "CHR ''%'' \<notin> set sshAuthPath"
  "list_all (\<lambda>c. \<not> ctl_byte c) sshAuthPath" "hd sshAuthPath = CHR ''/''" "sshAuthPath \<noteq> []"
  by (simp_all add: sshAuthPath_def ctl_byte_def)

lemma Parse_auth_url:
  assumes "sch \<in> {''http'', ''https''}" and "list_all name_char h"
  shows "Parse (sch @ ''://'' @ h @ sshAuthPath) = Some (no_url\<lparr>UScheme := sch, Host := h, Path := sshAuthPath\<rparr>)"
  by (rule Parse_of [OF assms]) (simp_all add: sshAuthPath_plain)

text \<open>
  The default authorization URL, derived from the backend's URL, is accepted for every backend
  that is reached by \<^verbatim>\<open>https\<close> under a host name, with any number of slashes at its end; for one
  reached by \<^verbatim>\<open>http\<close> it is refused in production.
\<close>

theorem default_auth_url:
  assumes "hostRe h" and "list_all (\<lambda>c. c = CHR ''/'') sl"
  shows "validateSSHAuthURL (trim_right (CHR ''/'') (''https://'' @ h @ sl) @ sshAuthPath) nodeEnv = None \<and>
         validateSSHAuthURL (trim_right (CHR ''/'') (''http://'' @ h @ sl) @ sshAuthPath) ''production'' \<noteq> None"
proof -
  have n: "list_all name_char h" "h \<noteq> []" and l: "last h \<noteq> CHR ''/''"
    using assms(1) by (auto simp: hostRe_def alnum_def is_letter_def is_digit_def)
  have t: "trim_right (CHR ''/'') (p @ h @ sl) = p @ h" for p
  proof -
    have "dropWhile (\<lambda>x. x = CHR ''/'') (rev sl @ rev h @ rev p) = rev h @ rev p"
      using assms(2) n(2) l
      by (subst dropWhile_append2) (auto simp: list_all_iff hd_rev dropWhile_eq_self_iff)
    then show ?thesis by (simp add: trim_right_def)
  qed
  show ?thesis
    unfolding t
    using Parse_auth_url [of "''https''" h] Parse_auth_url [of "''http''" h] n
    by (simp add: validateSSHAuthURL_def no_url_def)
qed

section \<open>Witnesses\<close>

text \<open>A development host: the limits from the file, the SSH relay from the environment.\<close>

definition demo_env :: environ where
  "demo_env = [''DRAGONFLY_URL'' \<mapsto> ''redis://127.0.0.1'', ''BACKEND_URL'' \<mapsto> ''http://10.88.0.1/'',
     ''BACKEND_ADMIN_API_KEY'' \<mapsto> ''key'', ''NODE_ENV'' \<mapsto> ''development'',
     ''SSH_PUBLIC_HOST'' \<mapsto> ''dev.example.org'', ''SSH_PORT_START'' \<mapsto> ''40000'', ''SSH_PORT_END'' \<mapsto> ''40100'']"

definition demo_file :: string where
  "demo_file = ''# limits'' @ [CHR 0x0A] @ ''SANDBOX_MAX_VMS = 12'' @ [CHR 0x0D, CHR 0x0A] @
     ''NOISE_BACKEND_HOST=10.88.0.1'' @ [CHR 0x0A] @ ''NODE_ENV=production''"

definition demo_files :: "string \<Rightarrow> string option" where
  "demo_files f = (if f = ''.env.development'' then Some demo_file else None)"

lemma demo_lines:
  "map env_line (scan_lines demo_file) =
   [None, Some (''SANDBOX_MAX_VMS'', ''12''), Some (''NOISE_BACKEND_HOST'', ''10.88.0.1''),
    Some (''NODE_ENV'', ''production'')]"
  by code_simp

lemma fold_env_lines:
  "fold load_line ls e = fold (\<lambda>l e. case l of None \<Rightarrow> e | Some (k, v) \<Rightarrow> if e k = None then setenv k v e else e)
     (map env_line ls) e"
  by (induction ls arbitrary: e) (simp_all add: load_line_def)

lemma demo_loaded:
  "loadDotEnv demo_files demo_env = demo_env(''SANDBOX_MAX_VMS'' \<mapsto> ''12'', ''NOISE_BACKEND_HOST'' \<mapsto> ''10.88.0.1'')"
proof -
  have "loadDotEnv demo_files demo_env = fold load_line (scan_lines demo_file) demo_env"
    by (simp add: loadDotEnv_def getenv_def demo_env_def demo_files_def)
  then show ?thesis
    unfolding fold_env_lines demo_lines by (simp add: setenv_def demo_env_def)
qed

lemma demo_decimals:
  "dec_nat 12 = ''12''" "dec_nat 40000 = ''40000''" "dec_nat 40100 = ''40100''"
  by (simp_all add: dec_nat.simps digit_char_def char_of_def bit_0)

lemma demo_numbers:
  "sscan_int ''12'' = Some 12" "sscan_int ''40000'' = Some 40000" "sscan_int ''40100'' = Some 40100"
  "sscan_int (dec_int (24 * 1024)) = Some 24576" "sscan_int (dec_int (2 * 1024)) = Some 2048"
  using sscan_dec [of "[]" 12 "[]"] sscan_dec [of "[]" 40000 "[]"] sscan_dec [of "[]" 40100 "[]"]
    sscan_dec [of "[]" 24576 "[]"] sscan_dec [of "[]" 2048 "[]"]
  by (simp_all add: demo_decimals in_int64_def dec_int_def)

lemma demo_address: "ParseIP ''10.88.0.1'' = Some (v4_prefix @ [10, 88, 0, 1])"
proof -
  have "dotted [10, 88, 0, 1] = ''10.88.0.1''" by code_simp
  with ParseIP_dotted [of 10 88 0 1] show ?thesis by simp
qed

lemma demo_auth_url:
  "validateSSHAuthURL ''http://10.88.0.1/api/cloud-ssh/authorized-key'' ''development'' = None"
proof -
  have n: "list_all name_char ''10.88.0.1''" by code_simp
  have p: "Parse ''http://10.88.0.1/api/cloud-ssh/authorized-key'' =
      Some (no_url\<lparr>UScheme := ''http'', Host := ''10.88.0.1'', Path := sshAuthPath\<rparr>)"
    using Parse_auth_url [OF _ n, of "''http''"] by (simp add: sshAuthPath_def)
  have "local_host (no_url\<lparr>UScheme := ''http'', Host := ''10.88.0.1'', Path := sshAuthPath\<rparr>)"
    using demo_address
    by (simp add: local_host_def Hostname_def cut_last_None [THEN iffD2] IsPrivate_def IsPrivate4_def)
  with p show ?thesis by (simp add: validateSSHAuthURL_def no_url_def)
qed

lemma demo_loads:
  "\<exists>c. Load (\<lambda>ks. ks) demo_files demo_env = Inr c \<and> MaxVMs c = 12 \<and> SSHEnabled c"
proof -
  have t: "trim_right (CHR ''/'') ''http://10.88.0.1/'' @ sshAuthPath =
      ''http://10.88.0.1/api/cloud-ssh/authorized-key''" by code_simp
  have h: "hostRe ''dev.example.org''" by code_simp
  show ?thesis
    unfolding Load_def demo_loaded
    using demo_numbers demo_auth_url t h
    by (simp add: load_env_def loadSSH_def envInt_def env_def getenv_def demo_env_def config_of_def
        required_def SSHEnabled_def)
qed

theorem config_is_sound_witness:
  "\<exists>c. Load (\<lambda>ks. ks) demo_files demo_env = Inr c \<and> MaxVMs c = 12 \<and> BackendAPIKey c \<noteq> [] \<and>
       0 < uint (VMMemoryMiB c) \<and>
       getenv (loadDotEnv demo_files demo_env) ''NODE_ENV'' \<noteq> ''production'' \<and> NoiseBackendHost c \<noteq> []"
proof -
  obtain c where c: "Load (\<lambda>ks. ks) demo_files demo_env = Inr c" "MaxVMs c = 12"
    using demo_loads by blast
  have e: "getenv (loadDotEnv demo_files demo_env) ''NODE_ENV'' = ''development''"
    unfolding demo_loaded by (simp add: getenv_def demo_env_def)
  from config_is_sound [OF c(1)] c e show ?thesis by auto
qed

theorem ssh_auth_url_safe_witness:
  "\<exists>auth. ''http://10.88.0.1/api/cloud-ssh/authorized-key'' =
     ''http://'' @ auth @ ''/api/cloud-ssh/authorized-key'' \<and> CHR ''@'' \<notin> set auth"
proof -
  from ssh_auth_url_safe [OF demo_auth_url] show ?thesis by (intro exI [of _ "''10.88.0.1''"]) auto
qed

theorem default_auth_url_witness:
  "validateSSHAuthURL (trim_right (CHR ''/'') ''https://api.todofor.ai//'' @ sshAuthPath) ''production'' = None"
proof -
  have "hostRe ''api.todofor.ai''" by code_simp
  from default_auth_url [OF this, of "''//''" "''production''"] show ?thesis by simp
qed

end
