(* ===== verification/Backend.thy ===== *)
theory Backend
  imports Go_Url Sandbox_Record "HOL-Library.AList"
begin

text \<open>
  \<^verbatim>\<open>internal/backend/backend.go\<close>: the client that mints enrollment tokens. The HTTP transport is a
  parameter: it answers a request, given the exchanges before it. The requests a program makes and
  their answers are recorded in the order they are made, the last one first. What the code does with
  the request that \<^verbatim>\<open>http.NewRequestWithContext\<close> failed to build, a dereference of a nil pointer, is
  the outcome \<open>Panics\<close>.
\<close>

section \<open>Requests and responses\<close>

record outgoing =
  OutMethod :: string
  OutURL :: url
  OutHeader :: "(string \<times> string) list"
  OutBody :: json

text \<open>
  Of a response: its status, the text \<^verbatim>\<open>io.ReadAll\<close> gets of its body, and the first JSON value of
  the body, or the error of reading or parsing it.
\<close>

record response =
  RespStatus :: nat
  RespText :: string
  RespValue :: "goerr + json"

type_synonym exchange = "outgoing \<times> (goerr + response)"
type_synonym transport = "exchange list \<Rightarrow> outgoing \<Rightarrow> goerr + response"

datatype 'a go = Panics | Returns 'a

text \<open>The canonical form of a header's name, and \<^verbatim>\<open>Header.Set\<close>.\<close>

definition to_upper :: "char \<Rightarrow> char" where
  "to_upper c = (let n = of_char c :: nat in if 97 \<le> n \<and> n \<le> 122 then char_of (n - 32) else c)"

fun canonical_from :: "bool \<Rightarrow> string \<Rightarrow> string" where
  "canonical_from up [] = []"
| "canonical_from up (c # s) = (if up then to_upper c else to_lower c) # canonical_from (c = CHR ''-'') s"

definition set_header :: "string \<Rightarrow> string \<Rightarrow> outgoing \<Rightarrow> outgoing" where
  "set_header k v r = r\<lparr>OutHeader := AList.update (canonical_from True k) v (OutHeader r)\<rparr>"

text \<open>\<^verbatim>\<open>http.NewRequestWithContext\<close>: \<open>None\<close> when the URL does not parse.\<close>

definition hasPort :: "string \<Rightarrow> bool" where
  "hasPort s \<longleftrightarrow> (case cut_last (CHR '':'') s of None \<Rightarrow> False | Some (_, p) \<Rightarrow> CHR '']'' \<notin> set p)"

definition removeEmptyPort :: "string \<Rightarrow> string" where
  "removeEmptyPort h = (if hasPort h \<and> last h = CHR '':'' then butlast h else h)"

definition NewRequest :: "string \<Rightarrow> string \<Rightarrow> json \<Rightarrow> outgoing option" where
  "NewRequest verb raw body =
     (case Parse raw of
        None \<Rightarrow> None
      | Some u \<Rightarrow>
          Some \<lparr>OutMethod = verb, OutURL = u\<lparr>Host := removeEmptyPort (Host u)\<rparr>, OutHeader = [], OutBody = body\<rparr>)"

section \<open>The client\<close>

text \<open>The timeout of a request is in nanoseconds.\<close>

record client =
  baseURL :: string
  apiKey :: string
  httpTimeout :: int

definition new_client :: "string \<Rightarrow> string \<Rightarrow> client" where
  "new_client base key = \<lparr>baseURL = trim_right (CHR ''/'') base, apiKey = key, httpTimeout = 10 * 1000000000\<rparr>"

definition send :: "transport \<Rightarrow> outgoing \<Rightarrow> (exchange list, goerr + response) state" where
  "send T r = State (\<lambda>h. (T h r, (r, T h r) # h))"

definition mint_path :: string where
  "mint_path = ''/admin/v1/enroll/mint''"

text \<open>The body; \<^verbatim>\<open>json.Marshal\<close> sorts the keys of a map.\<close>

definition mint_body :: "string \<Rightarrow> string \<Rightarrow> 32 word \<Rightarrow> json" where
  "mint_body user i ttl =
     JObj [(''sandboxId'', JStr i), (''ttlSec'', JInt (uint ttl)), (''userId'', JStr user)]"

text \<open>
  Decoding into a struct with the one field \<^verbatim>\<open>token\<close>, a string: names match without regard to (ASCII)
  case, the last one counts, \<^verbatim>\<open>null\<close> changes nothing, and a value of another type is an error. The
  message of the error is cut short.
\<close>

definition json_type_error :: goerr where
  "json_type_error = Foreign ''json: cannot unmarshal''"

definition token_values :: "fields \<Rightarrow> json list" where
  "token_values ob = map snd (filter (\<lambda>(k, v). map to_lower k = ''token'') ob)"

fun last_token :: "string \<Rightarrow> json list \<Rightarrow> goerr + string" where
  "last_token t [] = Inr t"
| "last_token t (v # vs) =
     (case v of
        JStr s \<Rightarrow> last_token s vs
      | JNull \<Rightarrow> last_token t vs
      | _ \<Rightarrow> Inl json_type_error)"

definition decode_token :: "json \<Rightarrow> goerr + string" where
  "decode_token j =
     (case j of
        JNull \<Rightarrow> Inr []
      | JObj ob \<Rightarrow> last_token [] (token_values ob)
      | _ \<Rightarrow> Inl json_type_error)"

text \<open>What \<^verbatim>\<open>MintEnrollToken\<close> makes of the answer.\<close>

definition minted :: "goerr + response \<Rightarrow> goerr + string" where
  "minted a =
     (case a of
        Inl e \<Rightarrow> Inl (Prefix ''mint request'' e)
      | Inr resp \<Rightarrow>
          if RespStatus resp div 100 \<noteq> 2
          then Inl (Foreign (''mint failed: '' @ dec_nat (RespStatus resp) @ '' '' @ RespText resp))
          else case RespValue resp of Inl e \<Rightarrow> Inl e | Inr j \<Rightarrow> decode_token j)"

definition MintEnrollToken ::
  "transport \<Rightarrow> client \<Rightarrow> string \<Rightarrow> string \<Rightarrow> 32 word \<Rightarrow> (exchange list, (goerr + string) go) state" where
  "MintEnrollToken T c user i ttl =
     (case NewRequest ''POST'' (baseURL c @ mint_path) (mint_body user i ttl) of
        None \<Rightarrow> ret Panics
      | Some req \<Rightarrow> do {
          a \<leftarrow> send T (set_header ''X-API-Key'' (apiKey c) (set_header ''Content-Type'' ''application/json'' req));
          ret (Returns (minted a)) })"

lemma wp_send [wp_simps]: "wp (send T r) Q h \<longleftrightarrow> Q (T h r) ((r, T h r) # h)"
  by (simp add: send_def wp_State)

section \<open>Appending a path to a URL\<close>

text \<open>
  A URL that parses still does with a plain path appended, unless it ends with a slash: the path
  joins the path, the query, the fragment or the opaque part of the URL.
\<close>

definition plain_path :: "string \<Rightarrow> bool" where
  "plain_path p \<longleftrightarrow> (\<exists>q. p = CHR ''/'' # q \<and> \<not> has_prefix q ''/'') \<and>
     (\<forall>c \<in> set p. \<not> ctl_byte c \<and> c \<notin> set ''%?#'')"

lemma unescape_append:
  assumes "unescape m s = Some t" and m: "m = EncodePath \<or> m = EncodeFragment" and p: "CHR ''%'' \<notin> set p"
  shows "unescape m (s @ p) = Some (t @ p)"
  using assms(1)
proof (induction "length s" arbitrary: s t rule: less_induct)
  case less
  have m': "m \<noteq> EncodeHost" "m \<noteq> EncodeZone" using m by auto
  show ?case
  proof (cases s)
    case Nil
    have "unescape m p = Some p" using p m' by (induction p) auto
    with less.prems Nil show ?thesis by simp
  next
    case (Cons c r)
    show ?thesis
    proof (cases "c = CHR ''%''")
      case True
      then obtain a b r' x y t' where "r = a # b # r'" "hex_val a = Some x" "hex_val b = Some y"
        "unescape m r' = Some t'" "t = char_of (16 * x + y) # t'"
        using less.prems Cons m' by (auto split: list.splits option.splits)
      with less.hyps [of r' t'] Cons True m' show ?thesis by simp
    next
      case False
      then obtain t' where "unescape m r = Some t'" "t = c # t'"
        using less.prems Cons m' by auto
      with less.hyps [of r t'] Cons False m' show ?thesis by simp
    qed
  qed
qed

lemma getScheme_append:
  assumes "getScheme b = Some (sch, r)"
  shows "getScheme (b @ CHR ''/'' # q) = Some (sch, r @ CHR ''/'' # q)"
proof -
  have slash: "\<not> scheme_char (CHR ''/'')" by (simp add: scheme_char_def alnum_def is_letter_def is_digit_def)
  show ?thesis
  proof (cases "\<forall>x \<in> set b. scheme_char x")
    case True
    then have "dropWhile scheme_char b = []" by (simp add: dropWhile_eq_Nil_conv)
    with assms True slash show ?thesis
      by (auto simp: getScheme_def takeWhile_append2 dropWhile_append2)
  next
    case False
    then obtain x where "x \<in> set b" "\<not> scheme_char x" by blast
    moreover from this obtain c s where "dropWhile scheme_char b = c # s"
      by (cases "dropWhile scheme_char b") (auto simp: dropWhile_eq_Nil_conv)
    ultimately show ?thesis
      using assms by (auto simp: getScheme_def Let_def takeWhile_append1 dropWhile_append1 split: if_splits)
  qed
qed

lemma has_prefix_Cons [simp]: "has_prefix (c # s) (d # p) \<longleftrightarrow> c = d \<and> has_prefix s p" "has_prefix s []"
  "\<not> has_prefix [] (d # p)"
  by (auto simp: has_prefix_iff)

lemma slashes_append:
  assumes "plain_path p" and "r = [] \<or> last r \<noteq> CHR ''/''"
  shows "has_prefix (r @ p) ''//'' = has_prefix r ''//''" "has_prefix (r @ p) ''///'' = has_prefix r ''///''"
    "has_prefix (r @ p) ''/'' \<longleftrightarrow> r = [] \<or> has_prefix r ''/''"
proof -
  from assms(1) obtain q where q: "p = CHR ''/'' # q" "\<not> has_prefix q ''/''" by (auto simp: plain_path_def)
  from q(2) have q3: "\<not> has_prefix q ''//''" by (cases q) auto
  consider "r = []" | c where "r = [c]" "c \<noteq> CHR ''/''" | c d where "r = [c, d]" "d \<noteq> CHR ''/''"
    | c d e s where "r = c # d # e # s"
    using assms(2) by (metis last_ConsL last_ConsR list.exhaust list.simps(3))
  then have "has_prefix (r @ p) ''//'' = has_prefix r ''//'' \<and> has_prefix (r @ p) ''///'' = has_prefix r ''///'' \<and>
      (has_prefix (r @ p) ''/'' \<longleftrightarrow> r = [] \<or> has_prefix r ''/'')"
    by cases (use q q3 in simp_all)
  then show "has_prefix (r @ p) ''//'' = has_prefix r ''//''" "has_prefix (r @ p) ''///'' = has_prefix r ''///''"
    "has_prefix (r @ p) ''/'' \<longleftrightarrow> r = [] \<or> has_prefix r ''/''" by blast+
qed

lemma parse_hierarchy_append:
  assumes "parse_hierarchy u r = Some v" and p: "plain_path p" and "r = [] \<or> last r \<noteq> CHR ''/''"
    and "UScheme w = UScheme u"
  shows "parse_hierarchy w (r @ p) \<noteq> None"
proof -
  from p obtain q where q: "p = CHR ''/'' # q" "\<not> has_prefix q ''/''" by (auto simp: plain_path_def)
  have no: "CHR ''%'' \<notin> set p" using p by (auto simp: plain_path_def)
  show ?thesis
  proof (cases "(UScheme u \<noteq> [] \<or> \<not> has_prefix r ''///'') \<and> has_prefix r ''//''")
    case False
    then have "\<not> ((UScheme w \<noteq> [] \<or> \<not> has_prefix (r @ p) ''///'') \<and> has_prefix (r @ p) ''//'')"
      using assms(4) slashes_append [OF p assms(3)] by simp
    moreover obtain t where "unescape EncodePath r = Some t"
      using assms(1) False by (auto simp: parse_hierarchy_def bind_eq_Some_conv)
    ultimately show ?thesis using unescape_append [OF _ _ no] by (auto simp: parse_hierarchy_def)
  next
    case True
    then obtain r2 where r2: "r = ''//'' @ r2" by (auto simp: has_prefix_iff)
    let ?P = "\<lambda>c. c \<noteq> CHR ''/''"
    have auth: "takeWhile ?P (r2 @ p) = takeWhile ?P r2 \<and> dropWhile ?P (r2 @ p) = dropWhile ?P r2 @ p"
      using q(1) by (induction r2) simp_all
    have "(UScheme w \<noteq> [] \<or> \<not> has_prefix (r @ p) ''///'') \<and> has_prefix (r @ p) ''//''"
      using True assms(4) slashes_append [OF p assms(3)] by simp
    moreover obtain a t where "parseAuthority (takeWhile ?P r2) = Some a"
        "unescape EncodePath (dropWhile ?P r2) = Some t"
      using assms(1) True r2 by (auto simp: parse_hierarchy_def bind_eq_Some_conv)
    ultimately show ?thesis
      using unescape_append [OF _ _ no] r2 auth by (cases a) (auto simp: parse_hierarchy_def)
  qed
qed

text \<open>The decisions of \<open>parse_url\<close> on the rest of a URL after its scheme.\<close>

definition rest_ok :: "string \<Rightarrow> string \<Rightarrow> bool" where
  "rest_ok sch rest \<longleftrightarrow>
     (\<not> has_prefix rest ''/'' \<and> sch \<noteq> []) \<or>
     ((has_prefix rest ''/'' \<or> CHR '':'' \<notin> set (fst (cut (CHR ''/'') rest))) \<and>
      parse_hierarchy (no_url\<lparr>UScheme := map to_lower sch\<rparr>) rest \<noteq> None)"

lemma parse_hierarchy_cong:
  "UScheme w = UScheme u \<Longrightarrow> parse_hierarchy w rest = None \<longleftrightarrow> parse_hierarchy u rest = None"
  by (auto simp: parse_hierarchy_def Let_def bind_eq_None_conv split: prod.splits)

lemma parse_url_iff:
  assumes "getScheme b = Some (sch, r)"
  shows "parse_url b \<noteq> None \<longleftrightarrow> \<not> list_ex ctl_byte b \<and> (b = ''*'' \<or> rest_ok sch (fst (split_query r)))"
proof -
  obtain rest force query where q: "split_query r = (rest, force, query)" by (metis prod_cases3)
  have "parse_hierarchy (no_url\<lparr>UScheme := map to_lower sch, ForceQuery := force, RawQuery := query\<rparr>) rest = None \<longleftrightarrow>
      parse_hierarchy (no_url\<lparr>UScheme := map to_lower sch\<rparr>) rest = None"
    by (rule parse_hierarchy_cong) simp
  then show ?thesis
    by (cases "has_prefix rest ''/''"; cases "sch = []"; cases "CHR '':'' \<in> set (fst (cut (CHR ''/'') rest))")
      (simp_all add: parse_url_def rest_ok_def Let_def assms q del: not_None_eq)
qed

lemma rest_ok_append:
  assumes "rest_ok sch r" and p: "plain_path p" and r: "r = [] \<or> last r \<noteq> CHR ''/''"
  shows "rest_ok sch (r @ p)"
proof -
  from p obtain q where q: "p = CHR ''/'' # q" by (auto simp: plain_path_def)
  have colon: "fst (cut (CHR ''/'') (r @ p)) = fst (cut (CHR ''/'') r)"
    unfolding cut_def q by (induction r) simp_all
  have "CHR ''%'' \<notin> set p" using p by (auto simp: plain_path_def)
  then have "unescape EncodePath p = Some p" by (rule unescape_path_id)
  moreover have "\<not> has_prefix p ''//''" "has_prefix p ''/''"
    using slashes_append(1,3) [OF p, of "[]"] by simp_all
  ultimately have "parse_hierarchy u p \<noteq> None" for u by (simp add: parse_hierarchy_def)
  then show ?thesis
    using assms(1) colon slashes_append(3) [OF p r] parse_hierarchy_append [OF _ p r refl]
    unfolding rest_ok_def by (cases "r = []") auto
qed

lemma parse_url_append:
  assumes "parse_url b \<noteq> None" and p: "plain_path p" and b: "b = [] \<or> last b \<noteq> CHR ''/''"
  shows "parse_url (b @ p) \<noteq> None"
proof -
  from p obtain q where q: "p = CHR ''/'' # q" by (auto simp: plain_path_def)
  have ctl: "\<not> list_ex ctl_byte (b @ p)"
    using assms(1) p by (auto simp: parse_url_def plain_path_def list_ex_iff split: if_splits)
  have star: "getScheme ''*'' = Some ([], ''*'')" "rest_ok [] (fst (split_query ''*''))" by code_simp+
  obtain sch r where sch: "getScheme b = Some (sch, r)"
    using assms(1) star(1) by (cases "b = ''*''") (auto simp: parse_url_def split: if_splits option.splits)
  have ok: "rest_ok sch (fst (split_query r))"
    using parse_url_iff [OF sch] assms(1) star sch by (cases "b = ''*''") auto
  have "b = r \<or> b = sch @ CHR '':'' # r"
    using getScheme_shape [OF sch] sch by (cases "sch = []") (auto simp: getScheme_def Let_def split: list.splits if_splits)
  then have r: "r = [] \<or> last r \<noteq> CHR ''/''" using b by auto
  have "rest_ok sch (fst (split_query (r @ p)))"
  proof (cases "CHR ''?'' \<in> set r")
    case True
    then obtain x y where "r = x @ CHR ''?'' # y" "CHR ''?'' \<notin> set x" by (metis split_list_first)
    with ok show ?thesis by (simp add: split_query_def)
  next
    case False
    moreover from this p have "CHR ''?'' \<notin> set (r @ p)" by (auto simp: plain_path_def)
    ultimately show ?thesis using ok rest_ok_append [OF _ p r] by (simp add: split_query_def)
  qed
  with parse_url_iff [OF getScheme_append [OF sch, of q]] ctl q show ?thesis by simp
qed

theorem Parse_append:
  assumes "Parse b \<noteq> None" and p: "plain_path p" and "b = [] \<or> last b \<noteq> CHR ''/''"
  shows "Parse (b @ p) \<noteq> None"
proof (cases "CHR ''#'' \<in> set b")
  case True
  then obtain x y where b: "b = x @ CHR ''#'' # y" "CHR ''#'' \<notin> set x" by (metis split_list_first)
  have "unescape EncodeFragment (y @ p) \<noteq> None" if "unescape EncodeFragment y \<noteq> None"
    using that unescape_append [of EncodeFragment y _ p] p by (auto simp: plain_path_def)
  with assms(1) b show ?thesis by (cases "y = []") (auto simp: Parse_def split: option.splits)
next
  case False
  with p have "CHR ''#'' \<notin> set (b @ p)" by (auto simp: plain_path_def)
  with False assms(1) parse_url_append [OF _ p assms(3)] show ?thesis
    by (auto simp: Parse_def split: option.splits)
qed

section \<open>What minting does\<close>

lemma last_trim_right: "trim_right c s = [] \<or> last (trim_right c s) \<noteq> c"
  using hd_dropWhile [of "\<lambda>x. x = c" "rev s"] by (auto simp: trim_right_def last_rev)

lemma mint_path_plain: "plain_path mint_path"
  unfolding plain_path_def mint_path_def
  by (intro conjI exI [of _ "''admin/v1/enroll/mint''"]) (simp_all add: ctl_byte_def)

lemma div_100_eq_2: "(n :: nat) div 100 = 2 \<longleftrightarrow> 200 \<le> n \<and> n < 300"
  by linarith

lemma minted_Inr:
  "minted a = Inr t \<longleftrightarrow>
   (\<exists>resp j. a = Inr resp \<and> 200 \<le> RespStatus resp \<and> RespStatus resp < 300 \<and>
      RespValue resp = Inr j \<and> decode_token j = Inr t)"
  by (auto simp: minted_def div_100_eq_2 split: sum.split if_splits)

text \<open>
  C39. For a base URL that parses, minting a token is one request and never a panic: a POST to the
  enrollment endpoint below the base URL, with the client's key, for the given user, sandbox and
  lifetime. It returns a token exactly when the answer has a status of the class 2xx and its body
  decodes to this token; everything else is an error.
\<close>

theorem mint_asks_once:
  assumes "Parse (trim_right (CHR ''/'') base) \<noteq> None"
  shows "\<exists>req r u. run_state (MintEnrollToken T (new_client base key) user i ttl) h = (Returns r, (req, T h req) # h) \<and>
           OutMethod req = ''POST'' \<and>
           Parse (trim_right (CHR ''/'') base @ ''/admin/v1/enroll/mint'') = Some u \<and>
           OutURL req = u\<lparr>Host := removeEmptyPort (Host u)\<rparr> \<and>
           OutHeader req = [(''Content-Type'', ''application/json''), (''X-Api-Key'', key)] \<and>
           OutBody req = JObj [(''sandboxId'', JStr i), (''ttlSec'', JInt (uint ttl)), (''userId'', JStr user)] \<and>
           (\<forall>t. r = Inr t \<longleftrightarrow>
              (\<exists>resp j. T h req = Inr resp \<and> 200 \<le> RespStatus resp \<and> RespStatus resp < 300 \<and>
                 RespValue resp = Inr j \<and> decode_token j = Inr t))"
proof -
  from Parse_append [OF assms mint_path_plain last_trim_right] obtain u where
    u: "Parse (trim_right (CHR ''/'') base @ mint_path) = Some u" by blast
  have "canonical_from True ''X-API-Key'' = ''X-Api-Key''" "canonical_from True ''Content-Type'' = ''Content-Type''"
    by code_simp+
  then show ?thesis
    using u minted_Inr
    by (simp add: MintEnrollToken_def NewRequest_def new_client_def send_def set_header_def mint_body_def mint_path_def)
qed

text \<open>
  A base URL that does not parse is a nil request, whose header is then set. The configuration
  accepts such a URL; an address without a scheme is one.
\<close>

lemma unparsable_url_panics:
  "fst (run_state (MintEnrollToken T (new_client ''127.0.0.1:4000'' key) user i ttl) h) = Panics"
proof -
  have "Parse (baseURL (new_client ''127.0.0.1:4000'' key) @ mint_path) = None"
    by (simp add: new_client_def) code_simp
  then show ?thesis by (simp add: MintEnrollToken_def NewRequest_def)
qed

text \<open>An answer without a token is the empty token, not an error.\<close>

lemma missing_token_accepted:
  "minted (Inr \<lparr>RespStatus = 200, RespText = ''{}'', RespValue = Inr (JObj [])\<rparr>) = Inr []"
  by (simp add: minted_def decode_token_def token_values_def)

section \<open>Witness\<close>

definition demo_transport :: transport where
  "demo_transport h r =
     Inr \<lparr>RespStatus = 201, RespText = [], RespValue = Inr (JObj [(''token'', JStr ''enr_1'')])\<rparr>"

theorem mint_asks_once_witness:
  "\<exists>req. run_state (MintEnrollToken demo_transport (new_client ''http://localhost:4000/'' ''key'') ''alice'' ''sb'' 600) [] =
     (Returns (Inr ''enr_1''), [(req, demo_transport [] req)]) \<and> OutMethod req = ''POST''"
proof -
  have "Parse (trim_right (CHR ''/'') ''http://localhost:4000/'') \<noteq> None" by code_simp
  from mint_asks_once [OF this, of demo_transport "''key''" "''alice''" "''sb''" 600 "[]"] obtain req r where
    r: "run_state (MintEnrollToken demo_transport (new_client ''http://localhost:4000/'' ''key'') ''alice'' ''sb'' 600) [] =
          (Returns r, [(req, demo_transport [] req)])" "OutMethod req = ''POST''"
      "\<forall>t. r = Inr t \<longleftrightarrow>
         (\<exists>resp j. demo_transport [] req = Inr resp \<and> 200 \<le> RespStatus resp \<and> RespStatus resp < 300 \<and>
            RespValue resp = Inr j \<and> decode_token j = Inr t)"
    by blast
  have "decode_token (JObj [(''token'', JStr ''enr_1'')]) = Inr ''enr_1''" by code_simp
  then have "r = Inr ''enr_1''" using r(3) by (simp add: demo_transport_def)
  with r(1,2) show ?thesis by blast
qed

end
