(* ===== verification/Startup.thy ===== *)
theory Startup
  imports Api_Props Config_Props Backend Vm_Manager
begin

text \<open>
  The process: \<^verbatim>\<open>cmd/sandbox-manager/main.go\<close> and \<^verbatim>\<open>rlimit_linux.go\<close>. \<open>start\<close> is \<^verbatim>\<open>main\<close> up to the
  server, with every \<^verbatim>\<open>log.Fatalf\<close> a value of \<open>fatal\<close>; \<open>service_world\<close> is the state of the service
  it wires up; \<open>serve\<close> is what follows, the requests of \<^verbatim>\<open>http.ListenAndServe\<close> and the passes of
  \<^verbatim>\<open>ReconcileLoop\<close> in any order, one after the other. The kernel's limits, the environment and files,
  the connections to Redis, containerd and CNI are parameters. This theory puts the components
  together: what the configuration checks is what the relay's invariant needs, and the inventory
  stays consistent from the start of a process on.
\<close>

section \<open>The limit on open files\<close>

record rlimit =
  Cur :: "64 word"
  Max :: "64 word"

datatype fatal =
  LimitUnknown goerr
| LimitTooLow "64 word"
| BadConfig config_error
| NoStore goerr
| NoPing goerr
| NoManager goerr

definition minFileLimit :: "64 word" where
  "minFileLimit = 65536"

text \<open>The limits in force afterwards, given what \<^verbatim>\<open>Getrlimit\<close> and \<^verbatim>\<open>Setrlimit\<close> answer.\<close>

definition raiseFileLimit :: "goerr + rlimit \<Rightarrow> (rlimit \<Rightarrow> goerr option) \<Rightarrow> fatal + rlimit" where
  "raiseFileLimit got setrl =
     (case got of
        Inl e \<Rightarrow> Inl (LimitUnknown e)
      | Inr rl \<Rightarrow>
          let rl' = (if Cur rl < Max rl
                      then let want = rl\<lparr>Cur := Max rl\<rparr> in
                           (case setrl want of Some e \<Rightarrow> rl | None \<Rightarrow> want)
                      else rl) in
          if Cur rl' < minFileLimit then Inl (LimitTooLow (Cur rl')) else Inr rl')"

section \<open>Starting\<close>

record 'r startup =
  getrlimit :: "goerr + rlimit"
  setrlimit :: "rlimit \<Rightarrow> goerr option"
  range_required :: "(string \<times> string) list \<Rightarrow> (string \<times> string) list"
  env_files :: "string \<Rightarrow> string option"
  environment :: environ
  open_store :: "string \<Rightarrow> goerr + 'r conn"
  ping_store :: "'r conn \<Rightarrow> goerr option"
  open_containerd :: "string \<Rightarrow> goerr option"
  open_cni :: "string \<Rightarrow> string \<Rightarrow> goerr option"
  host_plant :: plant

text \<open>\<^verbatim>\<open>vm.NewManager\<close> with the connections it opens first.\<close>

definition open_manager :: "'r startup \<Rightarrow> config \<Rightarrow> goerr option vm" where
  "open_manager S c =
     (case open_containerd S (ContainerdSock c) of
        Some e \<Rightarrow> ret (Some (Prefix ''containerd connect'' e))
      | None \<Rightarrow>
          (case open_cni S (CNIBinDir c) (CNIConfDir c) of
             Some e \<Rightarrow> ret (Some (Prefix ''cni init'' e))
           | None \<Rightarrow> NewManager (host_plant S) c))"

text \<open>\<^verbatim>\<open>store.New\<close>.\<close>

definition store_new :: "'r startup \<Rightarrow> string \<Rightarrow> goerr + 'r conn" where
  "store_new S url =
     (case open_store S url of Inl e \<Rightarrow> Inl (Prefix ''parse DRAGONFLY_URL'' e) | Inr c \<Rightarrow> Inr c)"

record 'r process =
  file_limit :: rlimit
  proc_config :: config
  proc_store :: "'r conn"
  proc_homes :: string
  proc_backend :: client
  proc_ssh :: "relay option"

definition wire :: "rlimit \<Rightarrow> config \<Rightarrow> 'r conn \<Rightarrow> 'r process" where
  "wire rl c st =
     \<lparr>file_limit = rl, proc_config = c, proc_store = st, proc_homes = UserHomesDir c,
      proc_backend = new_client (BackendURL c) (BackendAPIKey c),
      proc_ssh = (if SSHEnabled c then Some (New (SSHPublicHost c) (SSHPortStart c) (SSHPortEnd c)) else None)\<rparr>"

definition start :: "'r startup \<Rightarrow> (fatal + 'r process) vm" where
  "start S =
     (case raiseFileLimit (getrlimit S) (setrlimit S) of Inl e \<Rightarrow> ret (Inl e) | Inr rl \<Rightarrow>
      case Load (range_required S) (env_files S) (environment S) of Inl e \<Rightarrow> ret (Inl (BadConfig e)) | Inr c \<Rightarrow>
      case store_new S (DragonflyURL c) of Inl e \<Rightarrow> ret (Inl (NoStore e)) | Inr st \<Rightarrow>
      case ping_store S st of Some e \<Rightarrow> ret (Inl (NoPing e)) | None \<Rightarrow> do {
        m \<leftarrow> open_manager S c;
        ret (case m of Some e \<Rightarrow> Inl (NoManager e) | None \<Rightarrow> Inr (wire rl c st)) })"

section \<open>Serving\<close>

text \<open>\<^verbatim>\<open>service.New\<close>: the service's own fields start at their zero values.\<close>

definition service_world :: "'r process \<Rightarrow> 'v \<Rightarrow> 'h \<Rightarrow> ('r, 'v, 'h) world" where
  "service_world p v h =
     \<lparr>rdb = proc_store p, vms = v, fs = h, ssh = proc_ssh p, sshPrep = {},
      pendingCreates = 0, pendingMiB = 0, capacityRejected = 0, asked = 0\<rparr>"

datatype event = Arrives http_request | Ticks

fun handle :: "('r, 'v, 'h) surroundings \<Rightarrow> (string \<Rightarrow> int option) \<Rightarrow> event \<Rightarrow> ('r, 'v, 'h) world \<Rightarrow> ('r, 'v, 'h) world" where
  "handle E pt (Arrives req) w = snd (run_state (ServeHTTP E pt req) w)"
| "handle E pt Ticks w = snd (run_state (reconcile_tick E) w)"

fun serve ::
  "(('r, 'v, 'h) surroundings \<times> event) list \<Rightarrow> (string \<Rightarrow> int option) \<Rightarrow> ('r, 'v, 'h) world \<Rightarrow> ('r, 'v, 'h) world" where
  "serve [] pt w = w"
| "serve ((E, ev) # evs) pt w = serve evs pt (handle E pt ev w)"

section \<open>The start is checked\<close>

lemma raise_Inr:
  "raiseFileLimit got setrl = Inr rl \<longleftrightarrow>
     (\<exists>l. got = Inr l \<and> 65536 \<le> uint (Cur rl) \<and>
        (rl = l \<and> Max l \<le> Cur l \<or> rl = l \<and> Cur l < Max l \<and> (\<exists>e. setrl (l\<lparr>Cur := Max l\<rparr>) = Some e) \<or>
         rl = l\<lparr>Cur := Max l\<rparr> \<and> Cur l < Max l \<and> setrl rl = None))"
proof -
  have floor: "x < minFileLimit \<longleftrightarrow> \<not> 65536 \<le> uint x" for x
    by (simp add: minFileLimit_def word_less_def not_le)
  show ?thesis
  proof (cases got)
    case (Inr l)
    show ?thesis
      by (cases "Cur l < Max l"; cases "setrl (l\<lparr>Cur := Max l\<rparr>)")
        (auto simp: raiseFileLimit_def Inr floor not_less Let_def split: if_splits)
  qed (simp add: raiseFileLimit_def)
qed

text \<open>A probe of the snapshotter that says that it cannot be used.\<close>

definition probe_fails :: "ans \<Rightarrow> bool" where
  "probe_fails a = (case as_err a of None \<Rightarrow> False | Some e \<Rightarrow> \<not> IsNotFound e)"

definition probes :: "config \<Rightarrow> history \<Rightarrow> ans list" where
  "probes c h = map snd (filter (\<lambda>(q, a). q = SnapStat (Snapshotter c) []) h)"

definition sleeps :: "history \<Rightarrow> nat" where
  "sleeps h = length (filter (\<lambda>(q, a). q = Sleep) h)"

lemma probes_simps [simp]:
  "probes c [] = []" "probes c ((SnapStat (Snapshotter c) [], a) # h) = a # probes c h"
  "probes c ((Sleep, a) # h) = probes c h" "probes c (g @ h) = probes c g @ probes c h"
  "sleeps [] = 0" "sleeps ((SnapStat s k, a) # h) = sleeps h" "sleeps ((Sleep, a) # h) = Suc (sleeps h)"
  "sleeps (g @ h) = sleeps g + sleeps h"
  by (simp_all add: probes_def sleeps_def)

lemma checkSnapshotter_probe:
  "wp (checkSnapshotter A c) (\<lambda>r h'. \<exists>a. h' = (SnapStat (Snapshotter c) [], a) # h \<and> (r = None \<longleftrightarrow> \<not> probe_fails a)) h"
  by (simp add: checkSnapshotter_def wp_simps probe_fails_def split: option.split)

text \<open>
  What is new in the history after at most \<open>Suc n\<close> tries: a last probe, with the result \<open>r\<close>, and
  before it failed ones, each followed by a pause; without success, all the tries were made.
\<close>

definition retried :: "config \<Rightarrow> nat \<Rightarrow> history \<Rightarrow> bool \<Rightarrow> history \<Rightarrow> bool" where
  "retried c n h ok h' \<longleftrightarrow>
     (\<exists>a g. h' = (SnapStat (Snapshotter c) [], a) # g @ h \<and>
        list_all probe_fails (probes c g) \<and> length (probes c g) \<le> n \<and> sleeps g = length (probes c g) \<and>
        (if ok then \<not> probe_fails a else probe_fails a \<and> length (probes c g) = n))"

lemma retried_one: "probe_fails a = (\<not> ok) \<Longrightarrow> (\<not> ok \<Longrightarrow> n = 0) \<Longrightarrow>
    retried c n h ok ((SnapStat (Snapshotter c) [], a) # h)"
  unfolding retried_def by (intro exI [of _ a] exI [of _ "[]"]) auto

lemma retried_again:
  assumes "retried c n ((Sleep, s) # (SnapStat (Snapshotter c) [], a) # h) ok h'" and "probe_fails a"
  shows "retried c (Suc n) h ok h'"
proof -
  from assms(1) obtain b g where
    "h' = (SnapStat (Snapshotter c) [], b) # g @ (Sleep, s) # (SnapStat (Snapshotter c) [], a) # h"
    "list_all probe_fails (probes c g)" "length (probes c g) \<le> n" "sleeps g = length (probes c g)"
    "if ok then \<not> probe_fails b else probe_fails b \<and> length (probes c g) = n"
    unfolding retried_def by blast
  with assms(2) show ?thesis
    unfolding retried_def
    by (intro exI [of _ b] exI [of _ "g @ [(Sleep, s), (SnapStat (Snapshotter c) [], a)]"]) auto
qed

lemma await_snapshotter_retries:
  "wp (await_snapshotter (Suc n) A c) (\<lambda>r. retried c n h (r = None)) h"
proof (induction n arbitrary: h)
  case 0
  show ?case
    unfolding await_snapshotter.simps
    by (rule wp_bindI [OF checkSnapshotter_probe]) (auto simp: wp_return intro: retried_one)
next
  case (Suc n)
  show ?case
    unfolding await_snapshotter.simps(2) [of "Suc n"]
  proof (rule wp_bindI [OF checkSnapshotter_probe], goal_cases)
    case (1 r h1)
    then obtain a where a: "h1 = (SnapStat (Snapshotter c) [], a) # h" "r = None \<longleftrightarrow> \<not> probe_fails a" by blast
    show ?case
    proof (cases "r = None")
      case True
      with a show ?thesis by (auto simp: wp_return intro: retried_one)
    next
      case False
      have "wp (await_snapshotter (Suc n) A c) (\<lambda>r. retried c (Suc n) h (r = None)) ((Sleep, A h1 Sleep) # h1)"
        by (rule wp_mono [OF Suc.IH]) (use a False in \<open>auto intro: retried_again\<close>)
      with False show ?thesis by (cases r) (simp_all add: wp_bind wp_try_call del: await_snapshotter.simps)
    qed
  qed
qed

lemma NewManager_retries: "wp (NewManager A c) (\<lambda>r. retried c 9 h (r = None)) h"
proof -
  have ten: "(10 :: nat) = Suc 9" by simp
  show ?thesis
    unfolding NewManager_def ten
    by (rule wp_bindI [OF await_snapshotter_retries]) (simp add: wp_return)
qed

text \<open>
  The retries at the start end. The manager probes the snapshotter at most ten times, with one
  second between two probes; it succeeds at the first probe that does not fail, and gives up only
  after ten failed ones.
\<close>

theorem startup_retries:
  "\<exists>a g. snd (run_state (NewManager A c) h) = (SnapStat (Snapshotter c) [], a) # g @ h \<and>
     length (probes c g) < 10 \<and> sleeps g = length (probes c g) \<and>
     list_all probe_fails (probes c g) \<and>
     (if fst (run_state (NewManager A c) h) = None then \<not> probe_fails a
      else probe_fails a \<and> Suc (length (probes c g)) = 10)"
proof -
  show ?thesis using NewManager_retries [of A c h] unfolding wp_def retried_def by force
qed

text \<open>The sources of a process that started.\<close>

lemma start_Inr:
  assumes "run_state (start S) h = (Inr p, h')"
  shows "\<exists>rl c st. raiseFileLimit (getrlimit S) (setrlimit S) = Inr rl \<and>
           Load (range_required S) (env_files S) (environment S) = Inr c \<and>
           open_store S (DragonflyURL c) = Inr st \<and> ping_store S st = None \<and>
           open_containerd S (ContainerdSock c) = None \<and> open_cni S (CNIBinDir c) (CNIConfDir c) = None \<and>
           run_state (NewManager (host_plant S) c) h = (None, h') \<and> p = wire rl c st"
  using assms
  by (auto simp: start_def store_new_def open_manager_def split: sum.splits option.splits prod.splits)

text \<open>
  C22. A process serves only after its checks. When \<^verbatim>\<open>main\<close> gets to its server, at least 65536 files
  may be open, raised from the inherited limit or not; the configuration is the one that loads; Redis
  answered a ping; and the last thing the VM manager did was a probe that found the configured
  snapshotter. The relay exists exactly when SSH is configured, without listeners, on the configured
  ports.
\<close>

theorem start_is_checked:
  assumes "run_state (start S) h = (Inr p, h')"
  shows "65536 \<le> uint (Cur (file_limit p)) \<and>
         (\<exists>l. getrlimit S = Inr l \<and> (file_limit p = l \<or> file_limit p = l\<lparr>Cur := Max l\<rparr> \<and> setrlimit S (file_limit p) = None)) \<and>
         Load (range_required S) (env_files S) (environment S) = Inr (proc_config p) \<and>
         open_store S (DragonflyURL (proc_config p)) = Inr (proc_store p) \<and> ping_store S (proc_store p) = None \<and>
         (\<exists>a g. h' = (SnapStat (Snapshotter (proc_config p)) [], a) # g @ h \<and> \<not> probe_fails a) \<and>
         proc_backend p = new_client (BackendURL (proc_config p)) (BackendAPIKey (proc_config p)) \<and>
         (case proc_ssh p of
            None \<Rightarrow> SSHPublicHost (proc_config p) = []
          | Some r \<Rightarrow> SSHPublicHost (proc_config p) \<noteq> [] \<and> byID r = [] \<and> host r = SSHPublicHost (proc_config p) \<and>
              rstart r = SSHPortStart (proc_config p) \<and> rend r = SSHPortEnd (proc_config p))"
proof -
  from start_Inr [OF assms] obtain rl c st where
    s: "raiseFileLimit (getrlimit S) (setrlimit S) = Inr rl"
      "Load (range_required S) (env_files S) (environment S) = Inr c" "open_store S (DragonflyURL c) = Inr st"
      "ping_store S st = None" "run_state (NewManager (host_plant S) c) h = (None, h')" "p = wire rl c st"
    by blast
  from wp_runI [OF NewManager_retries s(5)] have "\<exists>a g. h' = (SnapStat (Snapshotter c) [], a) # g @ h \<and> \<not> probe_fails a"
    by (auto simp: retried_def)
  moreover from iffD1 [OF raise_Inr s(1)]
  have "65536 \<le> uint (Cur rl) \<and>
      (\<exists>l. getrlimit S = Inr l \<and> (rl = l \<or> rl = l\<lparr>Cur := Max l\<rparr> \<and> setrlimit S rl = None))"
    by blast
  ultimately show ?thesis using s by (simp add: wire_def SSHEnabled_def New_def)
qed

section \<open>The inventory from the start on\<close>

lemma Load_ports:
  assumes "Load ord fl e = Inr c" and "SSHEnabled c"
  shows "1 \<le> SSHPortStart c \<and> SSHPortStart c \<le> SSHPortEnd c \<and> SSHPortEnd c \<le> 65535"
proof -
  from assms(1) have "load_env ord (loadDotEnv fl e) = Inr c" by (simp add: Load_def)
  then show ?thesis
    by (rule load_env_cases) (use loadSSH_sound(2) assms(2) in \<open>auto simp: SSHEnabled_def\<close>)
qed

lemma service_world_good:
  assumes "run_state (start S) h = (Inr p, h')" and "good_conn own ks (proc_store p)"
  shows "good_world own ks (service_world p v hs)"
proof -
  from start_Inr [OF assms(1)] obtain rl c st where
    "Load (range_required S) (env_files S) (environment S) = Inr c" "p = wire rl c st" by blast
  with Load_ports [of "range_required S" "env_files S" "environment S" c] have "ssh_ok (proc_ssh p)"
    by (auto simp: wire_def ssh_ok_def new_ok in_int64_def New_def)
      (simp_all add: relay_ok_def)
  with assms(2) show ?thesis by (simp add: good_world_def service_world_def)
qed

definition event_lawful ::
  "(string \<Rightarrow> string) \<Rightarrow> ('r \<Rightarrow> keyspace) \<Rightarrow> (string \<Rightarrow> int option) \<Rightarrow> ('r, 'v, 'h) surroundings \<times> event \<Rightarrow> bool" where
  "event_lawful own ks pt = (\<lambda>(E, ev). service E ks own \<and>
     (case ev of Arrives req \<Rightarrow> mints_for_request E own pt req | Ticks \<Rightarrow> True))"

lemma handle_keeps:
  assumes "event_lawful own ks pt (E, ev)" and "good_world own ks w"
  shows "good_world own ks (handle E pt ev w)"
proof (cases ev)
  case (Arrives req)
  with assms request_keeps show ?thesis by (auto simp: event_lawful_def)
next
  case Ticks
  with assms have E: "service E ks own" by (simp add: event_lawful_def)
  have "op_lawful E own OpTick" by (simp add: op_lawful_def)
  from service.perform_op_keeps [OF E assms(2) this] Ticks show ?thesis by (simp add: wp_def)
qed


section \<open>Witnesses\<close>

text \<open>
  A start on the files and the environment of \<open>Config_Props\<close>, with the soft limit of 1024 that a
  login shell has, a server with the sandbox of \<open>alice\<close>, and a snapshotter that is there.
\<close>

definition demo_start :: "mem startup" where
  "demo_start =
     \<lparr>getrlimit = Inr \<lparr>Cur = 1024, Max = 1048576\<rparr>, setrlimit = (\<lambda>_. None),
      range_required = (\<lambda>ks. ks), env_files = demo_files, environment = demo_env,
      open_store = (\<lambda>_. Inr demo_conn), ping_store = (\<lambda>_. None),
      open_containerd = (\<lambda>_. None), open_cni = (\<lambda>_ _. None), host_plant = (\<lambda>_ _. AOk)\<rparr>"

lemma demo_started: "\<exists>p h'. run_state (start demo_start) [] = (Inr p, h') \<and> proc_store p = demo_conn"
proof -
  obtain c where c: "Load (\<lambda>ks. ks) demo_files demo_env = Inr c" using demo_loads by blast
  have ten: "(10 :: nat) = Suc 9" by simp
  have "run_state (NewManager (\<lambda>_ _. AOk) c) [] = (None, [(SnapStat (Snapshotter c) [], AOk)])"
    unfolding NewManager_def ten await_snapshotter.simps
    by (simp add: checkSnapshotter_def call_def as_err_def del: await_snapshotter.simps)
  then show ?thesis
    by (simp add: start_def demo_start_def raiseFileLimit_def minFileLimit_def Let_def c store_new_def
        open_manager_def wire_def)
qed

theorem start_is_checked_witness:
  "\<exists>p h'. run_state (start demo_start) [] = (Inr p, h') \<and> 65536 \<le> uint (Cur (file_limit p))"
  using demo_started start_is_checked [of demo_start "[]"] by blast


end
