(* ===== verification/Relay_Session.thy ===== *)
theory Relay_Session
  imports Relay_Props
begin

text \<open>
  The goroutines of one listener of \<^verbatim>\<open>internal/sshrelay/relay.go\<close>, with their sockets: \<^verbatim>\<open>serve\<close>, a
  \<^verbatim>\<open>pipe\<close> for each client, and \<^verbatim>\<open>close\<close>, as a step relation whose steps are the code between two
  points where another goroutine may run. Copying ends at any time; when the listener's socket is
  closed no client is accepted any more, which is what the operating system promises. Shown: no socket
  is left without a goroutine that will close it, a closed listener carries no connection to the
  guest, and after \<^verbatim>\<open>close\<close> everything ends.
\<close>

section \<open>States\<close>

text \<open>
  A \<^verbatim>\<open>pipe\<close> dials, has a connection, closes it because the listener is closed, copies, is before the
  critical section of \<^verbatim>\<open>drop\<close>, or after it, where it closes its two sockets. \<open>Dropped\<close> holds what it
  read of \<^verbatim>\<open>s.upstream\<close>.
\<close>

datatype pipe_state =
  NotStarted | Dialing | Connected | TooLate | Copying | Dropping | Dropped bool | DroppedClient bool | Ended

datatype serve_state = Accepting | Admitting nat | Rejecting nat | Stopped

datatype close_state = NotClosing | SocketClosed | AllClosed

record tunnel =
  lst :: listener
  ln_open :: bool
  serving :: serve_state
  pipe :: "nat \<Rightarrow> pipe_state"
  closing :: close_state
  client_open :: "nat \<Rightarrow> bool"
  up_open :: "nat \<Rightarrow> bool"
  next_id :: nat

definition tunnel_init :: "int \<Rightarrow> string \<Rightarrow> tunnel" where
  "tunnel_init p t =
     \<lparr>lst = \<lparr>port = p, target = t, closed = False, sessions = []\<rparr>, ln_open = True, serving = Accepting,
      pipe = (\<lambda>_. NotStarted), closing = NotClosing, client_open = (\<lambda>_. False), up_open = (\<lambda>_. False),
      next_id = 0\<rparr>"

text \<open>The upstream field of a session that is in the map.\<close>

definition has_upstream :: "nat \<Rightarrow> listener \<Rightarrow> bool" where
  "has_upstream i l = (case map_of (sessions l) i of None \<Rightarrow> False | Some s \<Rightarrow> upstream s)"

definition in_map :: "nat \<Rightarrow> listener \<Rightarrow> bool" where
  "in_map i l \<longleftrightarrow> i \<in> fst ` set (sessions l)"

section \<open>Steps\<close>

inductive tunnel_step :: "tunnel \<Rightarrow> tunnel \<Rightarrow> bool" where
  client_comes:
    "serving s = Accepting \<Longrightarrow> ln_open s \<Longrightarrow> i = next_id s \<Longrightarrow>
     tunnel_step s (s\<lparr>serving := Admitting i, client_open := (client_open s)(i := True), next_id := Suc i\<rparr>)"
| stops: "serving s = Accepting \<Longrightarrow> \<not> ln_open s \<Longrightarrow> tunnel_step s (s\<lparr>serving := Stopped\<rparr>)"
| admits:
    "serving s = Admitting i \<Longrightarrow> accept i now (lst s) = (True, l) \<Longrightarrow>
     tunnel_step s (s\<lparr>serving := Accepting, lst := l, pipe := (pipe s)(i := Dialing)\<rparr>)"
| refuses:
    "serving s = Admitting i \<Longrightarrow> accept i now (lst s) = (False, l) \<Longrightarrow>
     tunnel_step s (s\<lparr>serving := Rejecting i, lst := l\<rparr>)"
| rejects:
    "serving s = Rejecting i \<Longrightarrow>
     tunnel_step s (s\<lparr>serving := Accepting, client_open := (client_open s)(i := False)\<rparr>)"
| dial_fails: "pipe s i = Dialing \<Longrightarrow> tunnel_step s (s\<lparr>pipe := (pipe s)(i := Dropping)\<rparr>)"
| dial_succeeds:
    "pipe s i = Dialing \<Longrightarrow>
     tunnel_step s (s\<lparr>pipe := (pipe s)(i := Connected), up_open := (up_open s)(i := True)\<rparr>)"
| attaches:
    "pipe s i = Connected \<Longrightarrow> dialed i (lst s) = (True, l) \<Longrightarrow>
     tunnel_step s (s\<lparr>pipe := (pipe s)(i := Copying), lst := l\<rparr>)"
| too_late:
    "pipe s i = Connected \<Longrightarrow> dialed i (lst s) = (False, l) \<Longrightarrow>
     tunnel_step s (s\<lparr>pipe := (pipe s)(i := TooLate), lst := l\<rparr>)"
| gives_up:
    "pipe s i = TooLate \<Longrightarrow>
     tunnel_step s (s\<lparr>pipe := (pipe s)(i := Dropping), up_open := (up_open s)(i := False)\<rparr>)"
| copied: "pipe s i = Copying \<Longrightarrow> tunnel_step s (s\<lparr>pipe := (pipe s)(i := Dropping)\<rparr>)"
| drops:
    "pipe s i = Dropping \<Longrightarrow>
     tunnel_step s (s\<lparr>pipe := (pipe s)(i := Dropped (has_upstream i (lst s))), lst := drop_session i (lst s)\<rparr>)"
| closes_client:
    "pipe s i = Dropped b \<Longrightarrow>
     tunnel_step s (s\<lparr>pipe := (pipe s)(i := DroppedClient b), client_open := (client_open s)(i := False)\<rparr>)"
| closes_upstream:
    "pipe s i = DroppedClient b \<Longrightarrow>
     tunnel_step s (s\<lparr>pipe := (pipe s)(i := Ended),
                       up_open := (if b then (up_open s)(i := False) else up_open s)\<rparr>)"
| closes_socket: "closing s = NotClosing \<Longrightarrow> tunnel_step s (s\<lparr>closing := SocketClosed, ln_open := False\<rparr>)"
| closes_sessions:
    "closing s = SocketClosed \<Longrightarrow>
     tunnel_step s (s\<lparr>closing := AllClosed, lst := close_listener (lst s),
        client_open := (\<lambda>i. client_open s i \<and> \<not> in_map i (lst s)),
        up_open := (\<lambda>i. up_open s i \<and> \<not> has_upstream i (lst s))\<rparr>)"

inductive_cases tunnel_stepE: "tunnel_step s s'"

definition tunnel_reachable :: "int \<Rightarrow> string \<Rightarrow> tunnel \<Rightarrow> bool" where
  "tunnel_reachable p t s \<longleftrightarrow> tunnel_step\<^sup>*\<^sup>* (tunnel_init p t) s"

section \<open>Invariant\<close>

text \<open>
  A session is in the map while its \<^verbatim>\<open>pipe\<close> has not dropped it, and its \<^verbatim>\<open>upstream\<close> is set from the
  attachment on. The client's socket is open only while the accepting goroutine or the \<^verbatim>\<open>pipe\<close> holds
  it, the other one only while the \<^verbatim>\<open>pipe\<close> does; in a closed listener a \<^verbatim>\<open>pipe\<close> that copies has lost both.
\<close>

definition live_pipe :: "pipe_state \<Rightarrow> bool" where
  "live_pipe q \<longleftrightarrow> q \<in> {Dialing, Connected, TooLate, Copying, Dropping}"

definition up_held :: "pipe_state \<Rightarrow> bool \<Rightarrow> bool" where
  "up_held q b \<longleftrightarrow> q \<in> {Connected, TooLate, Copying, Dropped True, DroppedClient True} \<or> (q = Dropping \<and> b)"

definition pipe_ok :: "tunnel \<Rightarrow> nat \<Rightarrow> bool" where
  "pipe_ok s i \<longleftrightarrow>
     (in_map i (lst s) \<longleftrightarrow> live_pipe (pipe s i)) \<and>
     (pipe s i = Copying \<longrightarrow> has_upstream i (lst s)) \<and>
     (has_upstream i (lst s) \<longrightarrow> pipe s i \<in> {Copying, Dropping}) \<and>
     (client_open s i \<longrightarrow> live_pipe (pipe s i) \<or> (\<exists>b. pipe s i = Dropped b) \<or> serving s \<in> {Admitting i, Rejecting i}) \<and>
     (up_open s i \<longrightarrow> up_held (pipe s i) (has_upstream i (lst s))) \<and>
     (pipe s i \<noteq> NotStarted \<longrightarrow> i < next_id s) \<and>
     (serving s \<in> {Admitting i, Rejecting i} \<longrightarrow> i < next_id s \<and> pipe s i = NotStarted) \<and>
     (closed (lst s) \<and> pipe s i = Copying \<longrightarrow> \<not> client_open s i \<and> \<not> up_open s i)"

definition tunnel_inv :: "tunnel \<Rightarrow> bool" where
  "tunnel_inv s \<longleftrightarrow>
     distinct (map fst (sessions (lst s))) \<and> length (sessions (lst s)) \<le> maxSessionsPerSandbox \<and>
     (closed (lst s) \<longleftrightarrow> closing s = AllClosed) \<and> (ln_open s \<longleftrightarrow> closing s = NotClosing) \<and>
     (\<forall>i. pipe_ok s i)"

subsection \<open>What the critical sections do to the map\<close>

lemma accept_True:
  assumes "accept i now l = (True, l')" and "\<not> in_map i l"
  shows "\<not> closed l" "closed l' = closed l" "in_map j l' \<longleftrightarrow> j = i \<or> in_map j l"
    "has_upstream j l' = has_upstream j l"
    "distinct (map fst (sessions l)) \<Longrightarrow> distinct (map fst (sessions l'))"
    "length (sessions l') \<le> maxSessionsPerSandbox"
proof -
  from assms have l': "\<not> closed l" "length (sessions l) < maxSessionsPerSandbox"
    "l' = l\<lparr>sessions := sessions l @ [(i, \<lparr>upstream = False, start = now\<rparr>)]\<rparr>"
    by (auto simp: accept_def in_map_def update_new split: if_splits)
  then show "\<not> closed l" "closed l' = closed l" "in_map j l' \<longleftrightarrow> j = i \<or> in_map j l"
    "length (sessions l') \<le> maxSessionsPerSandbox" by (auto simp: in_map_def)
  show "distinct (map fst (sessions l)) \<Longrightarrow> distinct (map fst (sessions l'))"
    using l' assms(2) by (auto simp: in_map_def)
  have "map_of (sessions l) i = None" using assms(2) by (simp add: in_map_def map_of_eq_None_iff)
  then show "has_upstream j l' = has_upstream j l"
    using l'(3) by (auto simp: has_upstream_def map_add_def split: option.split)
qed

lemma accept_False: "accept i now l = (False, l') \<Longrightarrow> l' = l"
  by (auto simp: accept_def split: if_splits)

lemma dialed_True:
  assumes "dialed i l = (True, l')"
  shows "\<not> closed l" "closed l' = closed l" "in_map j l' = in_map j l"
    "has_upstream j l' \<longleftrightarrow> (if j = i then in_map i l else has_upstream j l)"
    "map fst (sessions l') = map fst (sessions l)"
proof -
  let ?f = "\<lambda>j s. if j = i then s\<lparr>upstream := True\<rparr> else s"
  from assms have l': "\<not> closed l" "l' = l\<lparr>sessions := map (\<lambda>(j, s). (j, ?f j s)) (sessions l)\<rparr>"
    by (auto simp: dialed_def split: if_splits)
  then show "\<not> closed l" "closed l' = closed l" "map fst (sessions l') = map fst (sessions l)"
    by (simp_all add: fst_dialed)
  then show "in_map j l' = in_map j l" unfolding in_map_def set_map [symmetric] by simp
  have "map_of (map (\<lambda>(j, s). (j, ?f j s)) xs) j = map_option (?f j) (map_of xs j)" for xs
    by (induction xs) auto
  then have "map_of (sessions l') j = map_option (?f j) (map_of (sessions l) j)"
    using l'(2) by simp
  then show "has_upstream j l' \<longleftrightarrow> (if j = i then in_map i l else has_upstream j l)"
    using map_of_eq_None_iff [of "sessions l" i]
    by (auto simp: has_upstream_def in_map_def split: option.split)
qed

lemma dialed_False: "dialed i l = (False, l') \<Longrightarrow> l' = l"
  by (auto simp: dialed_def split: if_splits)

lemma drop_session_map:
  "closed (drop_session i l) = closed l" "in_map j (drop_session i l) \<longleftrightarrow> j \<noteq> i \<and> in_map j l"
  "has_upstream j (drop_session i l) \<longleftrightarrow> j \<noteq> i \<and> has_upstream j l"
  "distinct (map fst (sessions l)) \<Longrightarrow> distinct (map fst (sessions (drop_session i l)))"
  "length (sessions (drop_session i l)) \<le> length (sessions l)"
  by (auto simp: drop_session_def in_map_def has_upstream_def set_delete delete_conv distinct_map_delete
      length_delete_le split: option.splits)

lemma close_listener_map [simp]:
  "closed (close_listener l)" "in_map j (close_listener l) = in_map j l"
  "has_upstream j (close_listener l) = has_upstream j l" "sessions (close_listener l) = sessions l"
  by (simp_all add: close_listener_def in_map_def has_upstream_def)

lemma has_upstream_in_map: "has_upstream i l \<Longrightarrow> in_map i l"
  by (auto simp: has_upstream_def in_map_def split: option.splits dest: map_of_SomeD intro: rev_image_eqI)

subsection \<open>Every step keeps the invariant\<close>

lemma tunnel_inv_init: "tunnel_inv (tunnel_init p t)"
  by (simp add: tunnel_inv_def pipe_ok_def tunnel_init_def in_map_def has_upstream_def live_pipe_def)

lemma pipe_ok_step:
  assumes "tunnel_step s s'" and ok: "\<And>i. pipe_ok s i"
  shows "pipe_ok s' j"
  using assms(1)
proof (cases rule: tunnel_step.cases)
  case (client_comes i)
  have "pipe s i = NotStarted" using ok [of i] client_comes(4) by (simp_all add: pipe_ok_def)
  with client_comes(2) client_comes(4) [symmetric] ok [of j] show ?thesis
    unfolding client_comes(1) by (cases "j = i") (simp_all add: pipe_ok_def live_pipe_def up_held_def less_SucI)
next
  case (admits i now l)
  have i: "i < next_id s" "pipe s i = NotStarted" "\<not> in_map i (lst s)" "\<not> up_open s i"
    using ok [of i] admits by (auto simp: pipe_ok_def live_pipe_def up_held_def)
  note a = accept_True [OF admits(3) i(3)]
  from ok [of j] ok [of i] admits a i show ?thesis
    by (cases "j = i") (auto simp: pipe_ok_def live_pipe_def)
next
  case (refuses i now l)
  with ok [of j] show ?thesis by (cases "j = i") (auto simp: pipe_ok_def dest!: accept_False)
next
  case (attaches i l)
  note d = dialed_True [OF attaches(3)]
  from ok [of j] ok [of i] attaches d show ?thesis
    by (cases "j = i") (simp_all add: pipe_ok_def live_pipe_def up_held_def)
next
  case (too_late i l)
  with ok [of j] show ?thesis
    by (cases "j = i") (auto simp: pipe_ok_def live_pipe_def up_held_def dest!: dialed_False)
next
  case (drops i)
  with ok [of j] show ?thesis
    by (cases "j = i") (auto simp: pipe_ok_def drop_session_map(1-3) live_pipe_def up_held_def)
next
  case closes_sessions
  from ok [of j] have "pipe s j = Copying \<longrightarrow> has_upstream j (lst s) \<and> in_map j (lst s)"
    by (simp add: pipe_ok_def live_pipe_def)
  with ok [of j] show ?thesis unfolding closes_sessions(1) pipe_ok_def
    by (cases "has_upstream j (lst s)") (simp_all, blast+)
next
  case (rejects i)
  with ok [of j] show ?thesis by (cases "j = i") (auto simp: pipe_ok_def)
next
  case (dial_fails i)
  with ok [of j] show ?thesis by (cases "j = i") (simp_all add: pipe_ok_def live_pipe_def up_held_def)
next
  case (dial_succeeds i)
  with ok [of j] show ?thesis by (cases "j = i") (simp_all add: pipe_ok_def live_pipe_def up_held_def)
next
  case (gives_up i)
  with ok [of j] show ?thesis by (cases "j = i") (simp_all add: pipe_ok_def live_pipe_def up_held_def)
next
  case (copied i)
  with ok [of j] show ?thesis by (cases "j = i") (simp_all add: pipe_ok_def live_pipe_def up_held_def)
next
  case (closes_client i b)
  with ok [of j] show ?thesis by (cases "j = i") (simp_all add: pipe_ok_def live_pipe_def up_held_def)
next
  case (closes_upstream i b)
  with ok [of j] show ?thesis by (cases "j = i") (cases b, simp_all add: pipe_ok_def live_pipe_def up_held_def, blast+)
qed (use ok [of j] in \<open>auto simp: pipe_ok_def\<close>)

lemma tunnel_inv_step:
  assumes "tunnel_step s s'" and inv: "tunnel_inv s"
  shows "tunnel_inv s'"
proof -
  from inv have ok: "pipe_ok s i" for i by (simp add: tunnel_inv_def)
  from assms(1) have "distinct (map fst (sessions (lst s'))) \<and> length (sessions (lst s')) \<le> maxSessionsPerSandbox \<and>
      (closed (lst s') \<longleftrightarrow> closing s' = AllClosed) \<and> (ln_open s' \<longleftrightarrow> closing s' = NotClosing)"
  proof (cases rule: tunnel_step.cases)
    case (admits i now l)
    have "\<not> in_map i (lst s)" using ok [of i] admits by (auto simp: pipe_ok_def live_pipe_def)
    from accept_True [OF admits(3) this] admits inv show ?thesis by (simp add: tunnel_inv_def)
  next
    case (attaches i l)
    have "length (sessions l) = length (sessions (lst s))" using dialed_True(5) [OF attaches(3)] by (metis length_map)
    with dialed_True [OF attaches(3)] attaches inv show ?thesis by (simp add: tunnel_inv_def)
  next
    case (drops i)
    with drop_session_map [where i = i and l = "lst s"] inv show ?thesis by (simp add: tunnel_inv_def)
  qed (use inv in \<open>auto simp: tunnel_inv_def dest!: accept_False dialed_False\<close>)
  with pipe_ok_step [OF assms(1) ok] show ?thesis by (simp add: tunnel_inv_def)
qed

lemma tunnel_reachable_inv: "tunnel_reachable p t s \<Longrightarrow> tunnel_inv s"
  unfolding tunnel_reachable_def
  by (induction rule: rtranclp_induct) (auto intro: tunnel_inv_init tunnel_inv_step)

section \<open>What holds at every moment\<close>

text \<open>
  C32. No connection is lost from sight, and none outlives its listener. In every reachable state,
  however the goroutines interleave: at most eight sessions are in the map; every open socket belongs
  to a goroutine that has yet to close it; and once \<^verbatim>\<open>close\<close> is through, no session that copies has
  an open socket, and no session gets a connection to the guest any more.
\<close>

theorem closed_tunnel_is_cut:
  assumes "tunnel_reachable p t s"
  shows "length (sessions (lst s)) \<le> 8 \<and>
         (\<forall>i. client_open s i \<longrightarrow> serving s \<in> {Admitting i, Rejecting i} \<or> live_pipe (pipe s i) \<or> (\<exists>b. pipe s i = Dropped b)) \<and>
         (\<forall>i. up_open s i \<longrightarrow> live_pipe (pipe s i) \<or> pipe s i \<in> {Dropped True, DroppedClient True}) \<and>
         (closing s = AllClosed \<longrightarrow>
            (\<forall>i. pipe s i = Copying \<longrightarrow> \<not> client_open s i \<and> \<not> up_open s i) \<and>
            (\<forall>s' i. tunnel_step s s' \<and> pipe s' i = Copying \<longrightarrow> pipe s i = Copying))"
proof -
  from tunnel_reachable_inv [OF assms] have inv: "tunnel_inv s" .
  have cut: "pipe s i = Copying" if "tunnel_step s s'" "pipe s' i = Copying" "closed (lst s)" for s' i
    using that by (induction rule: tunnel_step.induct) (auto split: if_splits dest: dialed_True(1))
  have up: "live_pipe q \<or> q \<in> {Dropped True, DroppedClient True}" if "up_held q b" for q b
    using that by (auto simp: up_held_def live_pipe_def)
  note i = inv [unfolded tunnel_inv_def pipe_ok_def]
  from i have "length (sessions (lst s)) \<le> 8" by (simp add: maxSessionsPerSandbox_def)
  moreover from i have "\<forall>i. client_open s i \<longrightarrow>
      serving s \<in> {Admitting i, Rejecting i} \<or> live_pipe (pipe s i) \<or> (\<exists>b. pipe s i = Dropped b)" by blast
  moreover from i up have "\<forall>i. up_open s i \<longrightarrow> live_pipe (pipe s i) \<or> pipe s i \<in> {Dropped True, DroppedClient True}"
    by blast
  moreover from i have "closing s = AllClosed \<Longrightarrow> closed (lst s)"
    and "closed (lst s) \<Longrightarrow> \<forall>i. pipe s i = Copying \<longrightarrow> \<not> client_open s i \<and> \<not> up_open s i" by blast+
  ultimately show ?thesis using cut by blast
qed

section \<open>Everything ends\<close>

text \<open>The steps a state has left, once no client comes any more.\<close>

fun pipe_work :: "pipe_state \<Rightarrow> nat" where
  "pipe_work Dialing = 6" | "pipe_work Connected = 5" | "pipe_work TooLate = 4" | "pipe_work Copying = 4"
| "pipe_work Dropping = 3" | "pipe_work (Dropped _) = 2" | "pipe_work (DroppedClient _) = 1"
| "pipe_work _ = 0"

fun serve_work :: "serve_state \<Rightarrow> nat" where
  "serve_work (Admitting _) = 8" | "serve_work (Rejecting _) = 2" | "serve_work Accepting = 1"
| "serve_work Stopped = 0"

fun close_work :: "close_state \<Rightarrow> nat" where
  "close_work NotClosing = 2" | "close_work SocketClosed = 1" | "close_work AllClosed = 0"

definition work :: "tunnel \<Rightarrow> nat" where
  "work s = (\<Sum>i<next_id s. pipe_work (pipe s i)) + serve_work (serving s) + close_work (closing s)"

lemma pipe_work_upd:
  fixes n :: nat
  assumes "i < n"
  shows "(\<Sum>j<n. pipe_work ((f(i := q)) j)) + pipe_work (f i) = (\<Sum>j<n. pipe_work (f j)) + pipe_work q"
proof -
  have "(\<Sum>j<n. pipe_work ((f(i := q)) j)) = pipe_work q + (\<Sum>j \<in> {..<n} - {i}. pipe_work (f j))"
    using assms by (subst sum.remove [of _ i]) (auto intro: sum.cong)
  moreover have "(\<Sum>j<n. pipe_work (f j)) = pipe_work (f i) + (\<Sum>j \<in> {..<n} - {i}. pipe_work (f j))"
    using assms by (simp add: sum.remove)
  ultimately show ?thesis by simp
qed

lemma work_decreases:
  assumes "tunnel_step s s'" and "tunnel_inv s" and "\<not> ln_open s"
  shows "work s' < work s \<and> \<not> ln_open s'"
proof -
  have i: "pipe s i \<noteq> NotStarted \<Longrightarrow> i < next_id s" for i using assms(2) unfolding tunnel_inv_def pipe_ok_def by blast
  have adm: "serving s = Admitting i \<Longrightarrow> i < next_id s \<and> pipe s i = NotStarted" for i
    using assms(2) unfolding tunnel_inv_def pipe_ok_def by blast
  have upd: "i < next_id s \<Longrightarrow> (\<Sum>j<next_id s. pipe_work (((pipe s)(i := q)) j)) + pipe_work (pipe s i) =
      (\<Sum>j<next_id s. pipe_work (pipe s j)) + pipe_work q" for i q
    by (rule pipe_work_upd)
  from assms(1) show ?thesis
  proof (cases rule: tunnel_step.cases)
    case (admits i now l)
    with upd [of i Dialing] adm [of i] assms(3) show ?thesis by (simp add: work_def)
  next
    case (dial_fails i)
    with upd [of i Dropping] i [of i] assms(3) show ?thesis by (simp add: work_def)
  next
    case (dial_succeeds i)
    with upd [of i Connected] i [of i] assms(3) show ?thesis by (simp add: work_def)
  next
    case (attaches i l)
    with upd [of i Copying] i [of i] assms(3) show ?thesis by (simp add: work_def)
  next
    case (too_late i l)
    with upd [of i TooLate] i [of i] assms(3) show ?thesis by (simp add: work_def)
  next
    case (gives_up i)
    with upd [of i Dropping] i [of i] assms(3) show ?thesis by (simp add: work_def)
  next
    case (copied i)
    with upd [of i Dropping] i [of i] assms(3) show ?thesis by (simp add: work_def)
  next
    case (drops i)
    with upd [of i "Dropped (has_upstream i (lst s))"] i [of i] assms(3) show ?thesis by (simp add: work_def)
  next
    case (closes_client i b)
    with upd [of i "DroppedClient b"] i [of i] assms(3) show ?thesis by (simp add: work_def)
  next
    case (closes_upstream i b)
    with upd [of i Ended] i [of i] assms(3) show ?thesis by (simp add: work_def)
  qed (use assms(3) in \<open>auto simp: work_def\<close>)
qed

text \<open>A state without a step is one where all is over.\<close>

lemma final_tunnel:
  assumes "tunnel_inv s" and "\<not> ln_open s" and stuck: "\<forall>s'. \<not> tunnel_step s s'"
  shows "serving s = Stopped \<and> closing s = AllClosed \<and> sessions (lst s) = [] \<and>
         (\<forall>i. \<not> client_open s i \<and> \<not> up_open s i)"
proof -
  note inv = assms(1) [unfolded tunnel_inv_def pipe_ok_def]
  have serving: "serving s = Stopped"
  proof (cases "serving s")
    case (Admitting i)
    obtain b l where "accept i 0 (lst s) = (b, l)" by fastforce
    with admits [OF Admitting, of 0 l] refuses [OF Admitting, of 0 l] stuck show ?thesis by (cases b) auto
  next
    case (Rejecting i)
    from rejects [OF this] stuck show ?thesis by blast
  next
    case Accepting
    from stops [OF this assms(2)] stuck show ?thesis by blast
  qed
  from inv assms(2) have "closing s \<noteq> NotClosing" by blast
  then have closing: "closing s = AllClosed" using closes_sessions [of s] stuck by (cases "closing s") blast+
  have pipes: "pipe s i = NotStarted \<or> pipe s i = Ended" for i
  proof (cases "pipe s i")
    case Connected
    obtain b l where "dialed i (lst s) = (b, l)" by fastforce
    with attaches [OF Connected, of l] too_late [OF Connected, of l] stuck show ?thesis by (cases b) auto
  qed (use stuck dial_fails gives_up copied drops closes_client closes_upstream in blast)+
  have over: "\<not> live_pipe (pipe s i)" "pipe s i \<noteq> Dropped b" "\<not> up_held (pipe s i) b" for i b
    using pipes [of i] by (auto simp: live_pipe_def up_held_def)
  have "\<not> in_map i (lst s)" for i using inv over(1) by blast
  then have "sessions (lst s) = []" by (cases "sessions (lst s)") (auto simp: in_map_def)
  moreover have "\<not> up_open s i" for i using inv over(3) by blast
  moreover have "\<not> client_open s i" for i
  proof
    assume "client_open s i"
    with inv have "live_pipe (pipe s i) \<or> (\<exists>b. pipe s i = Dropped b) \<or> serving s \<in> {Admitting i, Rejecting i}"
      by blast
    with over serving show False by auto
  qed
  ultimately show ?thesis using serving closing by blast
qed

lemma steps_bounded:
  "(tunnel_step ^^ n) s s' \<Longrightarrow> tunnel_inv s \<Longrightarrow> \<not> ln_open s \<Longrightarrow> n + work s' \<le> work s \<and> tunnel_inv s' \<and> \<not> ln_open s'"
proof (induction n arbitrary: s')
  case (Suc n)
  then obtain s1 where s1: "(tunnel_step ^^ n) s s1" "tunnel_step s1 s'" by auto
  from Suc.IH [OF s1(1)] Suc.prems have "n + work s1 \<le> work s" "tunnel_inv s1" "\<not> ln_open s1" by auto
  with work_decreases [OF s1(2)] tunnel_inv_step [OF s1(2)] show ?case by fastforce
qed simp

lemma ends_somewhere:
  "tunnel_inv s \<Longrightarrow> \<not> ln_open s \<Longrightarrow> \<exists>s'. tunnel_step\<^sup>*\<^sup>* s s' \<and> tunnel_inv s' \<and> \<not> ln_open s' \<and> (\<forall>s''. \<not> tunnel_step s' s'')"
proof (induction "work s" arbitrary: s rule: less_induct)
  case less
  show ?case
  proof (cases "\<exists>s1. tunnel_step s s1")
    case True
    then obtain s1 where s1: "tunnel_step s s1" by blast
    from work_decreases [OF s1 less.prems] tunnel_inv_step [OF s1 less.prems(1)] less.hyps [of s1]
    obtain s' where "tunnel_step\<^sup>*\<^sup>* s1 s'" "tunnel_inv s'" "\<not> ln_open s'" "\<forall>s''. \<not> tunnel_step s' s''" by blast
    with s1 show ?thesis by (blast intro: converse_rtranclp_into_rtranclp)
  qed (use less.prems in blast)
qed

text \<open>
  C33. After \<^verbatim>\<open>close\<close> everything ends. From a reachable state whose socket does not listen any more, no
  run of the goroutines is longer than \<open>work\<close> of this state, whatever their order; there is a run to
  a state where nothing is left to do, and in every such state the accepting goroutine has returned,
  the map of sessions is empty and every socket is closed.
\<close>

theorem closing_ends:
  assumes "tunnel_reachable p t s" and "\<not> ln_open s"
  shows "(\<forall>n s'. (tunnel_step ^^ n) s s' \<longrightarrow> n \<le> work s) \<and>
         (\<exists>s'. tunnel_step\<^sup>*\<^sup>* s s' \<and> (\<forall>s''. \<not> tunnel_step s' s'')) \<and>
         (\<forall>s'. tunnel_step\<^sup>*\<^sup>* s s' \<and> (\<forall>s''. \<not> tunnel_step s' s'') \<longrightarrow>
            serving s' = Stopped \<and> sessions (lst s') = [] \<and> (\<forall>i. \<not> client_open s' i \<and> \<not> up_open s' i))"
proof -
  note inv = tunnel_reachable_inv [OF assms(1)]
  have "tunnel_inv s' \<and> \<not> ln_open s'" if "tunnel_step\<^sup>*\<^sup>* s s'" for s'
    using that inv assms(2) steps_bounded by (metis rtranclp_power)
  with final_tunnel have "\<forall>s'. tunnel_step\<^sup>*\<^sup>* s s' \<and> (\<forall>s''. \<not> tunnel_step s' s'') \<longrightarrow>
      serving s' = Stopped \<and> sessions (lst s') = [] \<and> (\<forall>i. \<not> client_open s' i \<and> \<not> up_open s' i)" by blast
  moreover have "\<forall>n s'. (tunnel_step ^^ n) s s' \<longrightarrow> n \<le> work s"
    using steps_bounded [OF _ inv assms(2)] by fastforce
  ultimately show ?thesis using ends_somewhere [OF inv assms(2)] by blast
qed

section \<open>Witnesses\<close>

text \<open>One client that is connected through, and the listener closed meanwhile.\<close>

definition one :: "serve_state \<Rightarrow> pipe_state \<Rightarrow> close_state \<Rightarrow> (nat \<times> session) list \<Rightarrow> bool \<Rightarrow> bool \<Rightarrow> nat \<Rightarrow> tunnel" where
  "one sv q cl ss c u n =
     \<lparr>lst = \<lparr>port = 40000, target = ''10.88.0.2:22'', closed = (cl = AllClosed), sessions = ss\<rparr>,
      ln_open = (cl = NotClosing), serving = sv, pipe = (\<lambda>_. NotStarted)(0 := q), closing = cl,
      client_open = (\<lambda>_. False)(0 := c), up_open = (\<lambda>_. False)(0 := u), next_id = n\<rparr>"

definition ssn :: "bool \<Rightarrow> (nat \<times> session) list" where
  "ssn u = [(0, \<lparr>upstream = u, start = 7\<rparr>)]"

lemma one_steps:
  "tunnel_step (one Accepting NotStarted NotClosing [] False False 0) (one (Admitting 0) NotStarted NotClosing [] True False 1)"
  "tunnel_step (one (Admitting 0) NotStarted NotClosing [] True False 1) (one Accepting Dialing NotClosing (ssn False) True False 1)"
  "tunnel_step (one Accepting Dialing NotClosing (ssn False) True False 1) (one Accepting Connected NotClosing (ssn False) True True 1)"
  "tunnel_step (one Accepting Connected NotClosing (ssn False) True True 1) (one Accepting Copying NotClosing (ssn True) True True 1)"
  "tunnel_step (one Accepting Copying NotClosing (ssn True) True True 1) (one Accepting Copying SocketClosed (ssn True) True True 1)"
  "tunnel_step (one Accepting Copying SocketClosed (ssn True) True True 1) (one Accepting Copying AllClosed (ssn True) False False 1)"
proof -
  have eq: "tunnel_step s t \<Longrightarrow> t = s' \<Longrightarrow> tunnel_step s s'" for s t s' by simp
  note defs = one_def ssn_def accept_def dialed_def maxSessionsPerSandbox_def close_listener_def in_map_def
    has_upstream_def fun_eq_iff
  show "tunnel_step (one Accepting NotStarted NotClosing [] False False 0) (one (Admitting 0) NotStarted NotClosing [] True False 1)"
    by (rule eq [OF client_comes [of _ 0]]) (simp_all add: defs)
  show "tunnel_step (one (Admitting 0) NotStarted NotClosing [] True False 1) (one Accepting Dialing NotClosing (ssn False) True False 1)"
    by (rule eq [OF admits [of _ 0 7]]) (simp_all add: defs)
  show "tunnel_step (one Accepting Dialing NotClosing (ssn False) True False 1) (one Accepting Connected NotClosing (ssn False) True True 1)"
    by (rule eq [OF dial_succeeds [of _ 0]]) (simp_all add: defs)
  show "tunnel_step (one Accepting Connected NotClosing (ssn False) True True 1) (one Accepting Copying NotClosing (ssn True) True True 1)"
    by (rule eq [OF attaches [of _ 0]]) (simp_all add: defs)
  show "tunnel_step (one Accepting Copying NotClosing (ssn True) True True 1) (one Accepting Copying SocketClosed (ssn True) True True 1)"
    by (rule eq [OF closes_socket]) (simp_all add: defs)
  show "tunnel_step (one Accepting Copying SocketClosed (ssn True) True True 1) (one Accepting Copying AllClosed (ssn True) False False 1)"
    by (rule eq [OF closes_sessions]) (simp_all add: defs)
qed

lemma one_reachable:
  "tunnel_reachable 40000 ''10.88.0.2:22'' (one Accepting Copying SocketClosed (ssn True) True True 1)"
  "tunnel_reachable 40000 ''10.88.0.2:22'' (one Accepting Copying AllClosed (ssn True) False False 1)"
proof -
  have "tunnel_init 40000 ''10.88.0.2:22'' = one Accepting NotStarted NotClosing [] False False 0"
    by (simp add: tunnel_init_def one_def fun_eq_iff)
  then show 1: "tunnel_reachable 40000 ''10.88.0.2:22'' (one Accepting Copying SocketClosed (ssn True) True True 1)"
    unfolding tunnel_reachable_def
    by (metis converse_rtranclp_into_rtranclp one_steps(1-5) rtranclp.rtrancl_refl)
  from rtranclp.rtrancl_into_rtrancl [OF 1 [unfolded tunnel_reachable_def] one_steps(6)]
  show "tunnel_reachable 40000 ''10.88.0.2:22'' (one Accepting Copying AllClosed (ssn True) False False 1)"
    unfolding tunnel_reachable_def .
qed

theorem closed_tunnel_is_cut_witness:
  "\<not> up_open (one Accepting Copying AllClosed (ssn True) False False 1) 0"
  using closed_tunnel_is_cut [OF one_reachable(2)] by (auto simp: one_def)

theorem closing_ends_witness:
  "\<exists>s'. tunnel_step\<^sup>*\<^sup>* (one Accepting Copying SocketClosed (ssn True) True True 1) s' \<and>
     sessions (lst s') = [] \<and> serving s' = Stopped"
proof -
  have "\<not> ln_open (one Accepting Copying SocketClosed (ssn True) True True 1)" by (simp add: one_def)
  from closing_ends [OF one_reachable(1) this] show ?thesis by blast
qed

end
