(* ===== verification/Service_Ssh.thy ===== *)
theory Service_Ssh
  imports Relay_Props Store_Spec
begin

text \<open>
  The goroutines of \<^verbatim>\<open>internal/service/service.go\<close> that open and close SSH listeners, interleaved:
  \<^verbatim>\<open>PrepareSSH\<close> and \<^verbatim>\<open>reconcileSSH\<close> open them and re-read the record afterwards
  (\<^verbatim>\<open>closeSSHUnlessRunning\<close>), \<^verbatim>\<open>Delete\<close> and \<^verbatim>\<open>teardownDead\<close> change the record's state before they close
  them, and \<^verbatim>\<open>Create\<close> makes the records. A step is one request to the store, which is atomic there, or
  one call of the relay, which holds its lock; all that lies between two of them is in the \<open>point\<close> at
  which a goroutine stands. Any number of goroutines run, and any request may fail, with or without
  effect. Shown: the order of the steps is enough to leave no listener behind for a sandbox that was
  torn down, and what breaks it.
\<close>

section \<open>States\<close>

text \<open>
  A point names what comes next. \<open>Opening\<close> holds the sandboxes and addresses a goroutine still has to
  open a listener for: one in \<^verbatim>\<open>PrepareSSH\<close>, all that were listed in \<^verbatim>\<open>reconcileSSH\<close>. A \<open>Doomed\<close>
  sandbox is what \<^verbatim>\<open>Delete\<close> or \<^verbatim>\<open>teardownDead\<close> has read.
\<close>

datatype point =
  Idle
| Booting sandbox
| Failing sandbox
| Listing "(string \<times> string) list"
| Opening "(string \<times> string) list"
| Recording string "(string \<times> string) list"
| Checking string "(string \<times> string) list"
| Closing string "(string \<times> string) list"
| Doomed sandbox
| Marked string
| Tearing string
| Attaching sandbox

text \<open>
  \<open>known\<close> are the ids that were given out; \<open>torn\<close> those whose listener \<^verbatim>\<open>Delete\<close> or \<^verbatim>\<open>teardownDead\<close> has
  closed, so that the VM and its address may be gone. Both are bookkeeping.
\<close>

record ssh_world =
  stored :: "string \<rightharpoonup> sandbox"
  lsn :: "relay option"
  pt :: "nat \<Rightarrow> point"
  known :: "string set"
  torn :: "string set"

definition ssh_init :: "relay option \<Rightarrow> ssh_world" where
  "ssh_init r = \<lparr>stored = Map.empty, lsn = r, pt = (\<lambda>_. Idle), known = {}, torn = {}\<rparr>"

definition goes :: "ssh_world \<Rightarrow> nat \<Rightarrow> point \<Rightarrow> ssh_world" where
  "goes s g q = s\<lparr>pt := (pt s)(g := q)\<rparr>"

text \<open>\<^verbatim>\<open>Put\<close> leaves the connections out, and \<^verbatim>\<open>Get\<close> fills in the kind.\<close>

definition puts :: "ssh_world \<Rightarrow> sandbox \<Rightarrow> ssh_world" where
  "puts s sb = s\<lparr>stored := (stored s)(ID sb \<mapsto> backfill (sb\<lparr>SSHConnections := 0\<rparr>))\<rparr>"

definition runs :: "ssh_world \<Rightarrow> string \<Rightarrow> bool" where
  "runs s i \<longleftrightarrow> (case stored s i of None \<Rightarrow> False | Some sb \<Rightarrow> SbState sb = StateRunning)"

definition is_creating :: "ssh_world \<Rightarrow> string \<Rightarrow> bool" where
  "is_creating s i \<longleftrightarrow> (case stored s i of None \<Rightarrow> False | Some sb \<Rightarrow> SbState sb = StateCreating)"

text \<open>A \<^verbatim>\<open>Delete\<close> or \<^verbatim>\<open>teardownDead\<close> has changed the record's state and gone on.\<close>

definition over :: "ssh_world \<Rightarrow> string \<Rightarrow> bool" where
  "over s i \<longleftrightarrow> i \<in> torn s \<or> (\<exists>g. pt s g = Marked i)"

section \<open>Steps\<close>

text \<open>
  Two steps are only there with \<open>careless\<close>: an \<^verbatim>\<open>AttachDevice\<close> that writes back the record it read, after
  another goroutine has marked the sandbox for its end, and a \<^verbatim>\<open>teardownDead\<close> that goes on though it
  could not change the record. The mutex that lets one \<^verbatim>\<open>PrepareSSH\<close> of a sandbox run at a time is left
  out: it allows fewer orders.
\<close>

inductive ssh_step :: "bool \<Rightarrow> ssh_world \<Rightarrow> ssh_world \<Rightarrow> bool" for careless where
  creates:
    "pt s g = Idle \<Longrightarrow> ID sb \<notin> known s \<Longrightarrow> SbState sb = StateCreating \<Longrightarrow>
     ssh_step careless s ((puts (goes s g (Booting sb)) sb)\<lparr>known := insert (ID sb) (known s)\<rparr>)"
| boots:
    "pt s g = Booting sb \<Longrightarrow> is_creating s (ID sb) \<Longrightarrow>
     ssh_step careless s (puts (goes s g Idle) (sb\<lparr>SbState := StateRunning, IPAddress := ip, LastActivity := t\<rparr>))"
| boots_unheard:
    "pt s g = Booting sb \<Longrightarrow> is_creating s (ID sb) \<Longrightarrow>
     ssh_step careless s (puts (goes s g (Tearing (ID sb))) (sb\<lparr>SbState := StateRunning, IPAddress := ip, LastActivity := t\<rparr>))"
| boots_late: "pt s g = Booting sb \<Longrightarrow> ssh_step careless s (goes s g (Tearing (ID sb)))"
| boot_fails: "pt s g = Booting sb \<Longrightarrow> ssh_step careless s (goes s g (Failing sb))"
| fails: "pt s g = Failing sb \<Longrightarrow> ssh_step careless s (puts (goes s g Idle) (sb\<lparr>SbState := StateError, Error := e\<rparr>))"
| fails_silently: "pt s g = Failing sb \<Longrightarrow> ssh_step careless s (goes s g Idle)"
| prepares:
    "pt s g = Idle \<Longrightarrow> stored s i = Some sb \<Longrightarrow> SbState sb = StateRunning \<Longrightarrow> IPAddress sb \<noteq> [] \<Longrightarrow>
     ssh_step careless s (goes s g (Opening [(i, IPAddress sb)]))"
| lists: "pt s g = Idle \<Longrightarrow> ssh_step careless s (goes s g (Listing []))"
| sees:
    "pt s g = Listing xs \<Longrightarrow> stored s i = Some sb \<Longrightarrow> SbState sb = StateRunning \<Longrightarrow> IPAddress sb \<noteq> [] \<Longrightarrow>
     ssh_step careless s (goes s g (Listing (AList.update i (IPAddress sb) xs)))"
| list_fails: "pt s g = Listing xs \<Longrightarrow> ssh_step careless s (goes s g Idle)"
| retains:
    "pt s g = Listing xs \<Longrightarrow> set ys = set xs \<Longrightarrow>
     ssh_step careless s ((goes s g (Opening ys))\<lparr>lsn := Retain xs (lsn s)\<rparr>)"
| opens:
    "pt s g = Opening ((i, ip) # xs) \<Longrightarrow> Ensure listen i ip p (lsn s) = (Inr q, r) \<Longrightarrow>
     ssh_step careless s ((goes s g (if q = p then Checking i xs else Recording i xs))\<lparr>lsn := r\<rparr>)"
| open_fails:
    "pt s g = Opening ((i, ip) # xs) \<Longrightarrow> Ensure listen i ip p (lsn s) = (Inl e, r) \<Longrightarrow>
     ssh_step careless s ((goes s g (Opening xs))\<lparr>lsn := r\<rparr>)"
| skips: "pt s g = Opening (x # xs) \<Longrightarrow> ssh_step careless s (goes s g (Opening xs))"
| returns: "pt s g = Opening [] \<Longrightarrow> ssh_step careless s (goes s g Idle)"
| port_stored: "pt s g = Recording i xs \<Longrightarrow> ssh_step careless s (goes s g (Checking i xs))"
| port_lost: "pt s g = Recording i xs \<Longrightarrow> ssh_step careless s (goes s g (Closing i xs))"
| finds_running: "pt s g = Checking i xs \<Longrightarrow> runs s i \<Longrightarrow> ssh_step careless s (goes s g (Opening xs))"
| finds_stopped: "pt s g = Checking i xs \<Longrightarrow> \<not> runs s i \<Longrightarrow> ssh_step careless s (goes s g (Closing i xs))"
| check_fails: "pt s g = Checking i xs \<Longrightarrow> ssh_step careless s (goes s g (Closing i xs))"
| closes: "pt s g = Closing i xs \<Longrightarrow> ssh_step careless s ((goes s g (Opening xs))\<lparr>lsn := Close i (lsn s)\<rparr>)"
| dooms: "pt s g = Idle \<Longrightarrow> stored s i = Some sb \<Longrightarrow> ssh_step careless s (goes s g (Doomed (sb\<lparr>SSHConnections := n\<rparr>)))"
| spares: "pt s g = Doomed sb \<Longrightarrow> ssh_step careless s (goes s g Idle)"
| collects:
    "pt s g = Doomed sb \<Longrightarrow> SbState sb = StateError \<Longrightarrow>
     ssh_step careless s ((goes s g Idle)\<lparr>stored := (stored s)(ID sb := None)\<rparr>)"
| marks:
    "pt s g = Doomed sb \<Longrightarrow> st \<in> {StateTerminating, StateError} \<Longrightarrow>
     ssh_step careless s (puts (goes s g (Marked (ID sb))) (sb\<lparr>SbState := st, Error := e, LastActivity := t\<rparr>))"
| marks_unheard:
    "pt s g = Doomed sb \<Longrightarrow> ssh_step careless s (puts (goes s g Idle) (sb\<lparr>SbState := StateTerminating, LastActivity := t\<rparr>))"
| closes_doomed:
    "pt s g = Marked i \<Longrightarrow>
     ssh_step careless s ((goes s g (Tearing i))\<lparr>lsn := Close i (lsn s), torn := insert i (torn s)\<rparr>)"
| tears: "pt s g = Tearing i \<Longrightarrow> ssh_step careless s ((goes s g Idle)\<lparr>stored := (stored s)(i := None)\<rparr>)"
| tear_fails: "pt s g = Tearing i \<Longrightarrow> ssh_step careless s (goes s g Idle)"
| device_comes:
    "pt s g = Idle \<Longrightarrow> stored s i = Some sb \<Longrightarrow>
     ssh_step careless s (goes s g (Attaching (sb\<lparr>DeviceID := d, LastActivity := t\<rparr>)))"
| attaches:
    "pt s g = Attaching sb \<Longrightarrow> careless \<or> \<not> over s (ID sb) \<Longrightarrow> ssh_step careless s (puts (goes s g Idle) sb)"
| marks_nothing: "careless \<Longrightarrow> pt s g = Doomed sb \<Longrightarrow> ssh_step careless s (goes s g (Marked (ID sb)))"

definition ssh_reachable :: "bool \<Rightarrow> relay option \<Rightarrow> ssh_world \<Rightarrow> bool" where
  "ssh_reachable careless r s \<longleftrightarrow> (ssh_step careless)\<^sup>*\<^sup>* (ssh_init r) s"

section \<open>The listeners of the relay\<close>

definition listens :: "string \<Rightarrow> relay option \<Rightarrow> bool" where
  "listens i rl \<longleftrightarrow> (case rl of None \<Rightarrow> False | Some r \<Rightarrow> i \<in> fst ` set (byID r))"

lemma fst_update: "fst ` set (AList.update i v xs) = insert i (fst ` set xs)"
  using dom_update [of i v xs] by simp

lemma ids_retire: "fst ` set (byID (retire i l r)) = fst ` set (byID r) - {i}"
  by (auto simp: retire_def set_delete)

lemma ids_open: "open_listener l i t p r = (q, r') \<Longrightarrow>
    fst ` set (byID r') = (case q of Inl _ \<Rightarrow> {} | Inr _ \<Rightarrow> {i}) \<union> fst ` set (byID r)"
  by (cases "try_ports l (set (map (port \<circ> snd) (byID r))) 0 (candidates r p)")
    (clarsimp simp: open_listener_def fst_update)+

lemma listens_Ensure:
  assumes "Ensure l i ip p rl = (q, rl')" and "listens j rl'"
  shows "listens j rl \<or> (j = i \<and> (\<exists>n. q = Inr n))"
proof -
  have op: "j \<in> fst ` set (byID r) \<or> (j = i \<and> (\<exists>n. q = Inr n))"
    if opened: "map_prod id Some (open_listener l i t p r) = (q, rl')" for r t
  proof -
    obtain r' where "open_listener l i t p r = (q, r')" "rl' = Some r'"
      using opened by (cases "open_listener l i t p r") auto
    with ids_open [OF this(1)] assms(2) show ?thesis by (auto simp: listens_def split: sum.splits)
  qed
  show ?thesis
  proof (cases rl)
    case (Some r)
    show ?thesis
    proof (cases "target_of r ip")
      case (Some t)
      with \<open>rl = Some r\<close> assms op [of t r] op [of t "retire i l r" for l] show ?thesis
        by (cases "map_of (byID r) i") (auto simp: Ensure_def listens_def ids_retire split: if_splits)
    qed (use Some assms in \<open>simp add: Ensure_def\<close>)
  qed (use assms in \<open>simp add: Ensure_def\<close>)
qed

lemma listens_Close: "listens j (Close i rl) \<longleftrightarrow> j \<noteq> i \<and> listens j rl"
  by (auto simp: Close_def listens_def retire_def set_delete map_of_eq_None_iff
      split: option.splits dest: map_of_SomeD)

lemma listens_Retain: "listens j (Retain keep rl) \<Longrightarrow> listens j rl"
  by (auto simp: Retain_def listens_def split: option.splits)

section \<open>Invariant\<close>

text \<open>
  \<open>names q i\<close>: at \<open>q\<close> the goroutine works on the id \<open>i\<close>, which it was given by a record.
  \<open>will_check q i\<close>: it has opened a listener and has yet to decide whether it stays.
\<close>

fun names :: "point \<Rightarrow> string \<Rightarrow> bool" where
  "names (Booting sb) i \<longleftrightarrow> ID sb = i" | "names (Failing sb) i \<longleftrightarrow> ID sb = i" | "names (Doomed sb) i \<longleftrightarrow> ID sb = i"
| "names (Marked j) i \<longleftrightarrow> j = i" | "names (Tearing j) i \<longleftrightarrow> j = i" | "names (Attaching sb) i \<longleftrightarrow> ID sb = i"
| "names _ i \<longleftrightarrow> False"

fun will_check :: "point \<Rightarrow> string \<Rightarrow> bool" where
  "will_check (Recording j xs) i \<longleftrightarrow> j = i" | "will_check (Checking j xs) i \<longleftrightarrow> j = i"
| "will_check (Closing j xs) i \<longleftrightarrow> j = i" | "will_check _ i \<longleftrightarrow> False"

definition ssh_inv :: "ssh_world \<Rightarrow> bool" where
  "ssh_inv s \<longleftrightarrow>
     (\<forall>i sb. stored s i = Some sb \<longrightarrow> ID sb = i \<and> i \<in> known s) \<and>
     (\<forall>g i. names (pt s g) i \<longrightarrow> i \<in> known s) \<and> torn s \<subseteq> known s \<and>
     (\<forall>i. over s i \<longrightarrow> \<not> runs s i \<and> \<not> is_creating s i) \<and>
     (\<forall>i \<in> torn s. listens i (lsn s) \<longrightarrow> (\<exists>g. will_check (pt s g) i))"

lemma ssh_invI:
  assumes "\<And>i sb. stored s i = Some sb \<Longrightarrow> ID sb = i \<and> i \<in> known s"
    and "\<And>g i. names (pt s g) i \<Longrightarrow> i \<in> known s" and "torn s \<subseteq> known s"
    and "\<And>i. over s i \<Longrightarrow> \<not> runs s i \<and> \<not> is_creating s i"
    and "\<And>i. i \<in> torn s \<Longrightarrow> listens i (lsn s) \<Longrightarrow> \<exists>g. will_check (pt s g) i"
  shows "ssh_inv s"
  using assms by (simp add: ssh_inv_def)

text \<open>A goroutine moves on and nothing else changes.\<close>

lemma goes_inv:
  assumes "ssh_inv s" and "\<And>i. names q i \<Longrightarrow> i \<in> known s" and "\<And>i. q = Marked i \<Longrightarrow> \<not> runs s i \<and> \<not> is_creating s i"
    and "\<And>i. will_check (pt s g) i \<Longrightarrow> i \<in> torn s \<Longrightarrow> listens i (lsn s) \<Longrightarrow> will_check q i"
  shows "ssh_inv (goes s g q)"
proof (rule ssh_invI)
  show "over (goes s g q) i \<Longrightarrow> \<not> runs (goes s g q) i \<and> \<not> is_creating (goes s g q) i" for i
    using assms(1,3) by (auto simp: ssh_inv_def over_def goes_def runs_def is_creating_def split: if_splits)
  show "\<exists>h. will_check (pt (goes s g q) h) i" if "i \<in> torn (goes s g q)" "listens i (lsn (goes s g q))" for i
  proof -
    from that assms(1) obtain h where h: "will_check (pt s h) i" by (auto simp: ssh_inv_def goes_def)
    with that assms(4) [of i] show ?thesis by (cases "h = g") (auto simp: goes_def)
  qed
qed (use assms in \<open>auto simp: ssh_inv_def goes_def split: if_splits\<close>)

text \<open>A record is written that neither runs nor is being created, or one of an id that is not over.\<close>

lemma puts_inv:
  assumes "ssh_inv s" and "ID sb \<in> known s"
    and "SbState sb \<in> {StateTerminating, StateError} \<or> \<not> over s (ID sb)"
  shows "ssh_inv (puts s sb)"
proof (rule ssh_invI)
  show "over (puts s sb) i \<Longrightarrow> \<not> runs (puts s sb) i \<and> \<not> is_creating (puts s sb) i" for i
    using assms by (auto simp: ssh_inv_def over_def puts_def runs_def is_creating_def)
qed (use assms in \<open>auto simp: ssh_inv_def puts_def split: if_splits\<close>)

lemma forgets_inv:
  assumes "ssh_inv s"
  shows "ssh_inv (s\<lparr>stored := (stored s)(i := None)\<rparr>)"
proof (rule ssh_invI)
  show "over (s\<lparr>stored := (stored s)(i := None)\<rparr>) j \<Longrightarrow>
      \<not> runs (s\<lparr>stored := (stored s)(i := None)\<rparr>) j \<and> \<not> is_creating (s\<lparr>stored := (stored s)(i := None)\<rparr>) j" for j
    using assms by (auto simp: ssh_inv_def over_def runs_def is_creating_def)
qed (use assms in \<open>auto simp: ssh_inv_def split: if_splits\<close>)

lemma known_inv: "ssh_inv s \<Longrightarrow> ssh_inv (s\<lparr>known := insert i (known s)\<rparr>)"
  by (auto simp: ssh_inv_def over_def runs_def is_creating_def)

lemma torn_inv:
  assumes "ssh_inv s" and "pt s g = Marked i" and "\<not> listens i (lsn s)"
  shows "ssh_inv (s\<lparr>torn := insert i (torn s)\<rparr>)"
proof (rule ssh_invI)
  from assms(1) have "names (pt s g) i \<longrightarrow> i \<in> known s" by (simp add: ssh_inv_def)
  with assms(2) have known: "i \<in> known s" by simp
  show "over (s\<lparr>torn := insert i (torn s)\<rparr>) j \<Longrightarrow>
      \<not> runs (s\<lparr>torn := insert i (torn s)\<rparr>) j \<and> \<not> is_creating (s\<lparr>torn := insert i (torn s)\<rparr>) j" for j
    using assms by (auto simp: ssh_inv_def over_def runs_def is_creating_def)
  show "torn (s\<lparr>torn := insert i (torn s)\<rparr>) \<subseteq> known (s\<lparr>torn := insert i (torn s)\<rparr>)"
    using assms(1) known by (simp add: ssh_inv_def)
qed (use assms in \<open>auto simp: ssh_inv_def\<close>)

text \<open>The relay changes; a listener that was not there belongs to a goroutine that will check it.\<close>

lemma relay_inv:
  assumes "ssh_inv s" and "\<And>i. listens i r \<Longrightarrow> listens i (lsn s) \<or> (\<exists>g. will_check (pt s g) i)"
  shows "ssh_inv (s\<lparr>lsn := r\<rparr>)"
proof (rule ssh_invI)
  show "over (s\<lparr>lsn := r\<rparr>) j \<Longrightarrow> \<not> runs (s\<lparr>lsn := r\<rparr>) j \<and> \<not> is_creating (s\<lparr>lsn := r\<rparr>) j" for j
    using assms by (auto simp: ssh_inv_def over_def runs_def is_creating_def)
  show "\<exists>g. will_check (pt (s\<lparr>lsn := r\<rparr>) g) i" if "i \<in> torn (s\<lparr>lsn := r\<rparr>)" "listens i (lsn (s\<lparr>lsn := r\<rparr>))" for i
    using that assms(1) assms(2) [of i] by (auto simp: ssh_inv_def)
qed (use assms in \<open>auto simp: ssh_inv_def\<close>)

lemma ssh_inv_step:
  assumes "ssh_step False s s'" and inv: "ssh_inv s"
  shows "ssh_inv s'"
proof -
  from inv have rec: "stored s i = Some sb \<Longrightarrow> ID sb = i \<and> i \<in> known s" for i sb by (simp add: ssh_inv_def)
  from inv have named: "names (pt s g) i \<Longrightarrow> i \<in> known s" for g i unfolding ssh_inv_def by blast
  from inv have stopped: "over s i \<Longrightarrow> \<not> runs s i \<and> \<not> is_creating s i" for i by (simp add: ssh_inv_def)
  have fresh: "i \<notin> known s \<Longrightarrow> \<not> over s i" for i
    using inv named [of _ i] unfolding over_def ssh_inv_def by (metis names.simps(4) subsetD)
  note go = goes_inv [OF inv]
  from assms(1) show ?thesis
  proof (cases rule: ssh_step.cases)
    case (creates g sb)
    let ?s = "s\<lparr>known := insert (ID sb) (known s)\<rparr>"
    have "ssh_inv (goes ?s g (Booting sb))" using creates by (intro goes_inv [OF known_inv [OF inv]]) auto
    moreover have "\<not> over (goes ?s g (Booting sb)) (ID sb)"
      using fresh [OF creates(3)] by (auto simp: over_def goes_def split: if_splits)
    ultimately have "ssh_inv (puts (goes ?s g (Booting sb)) sb)" by (intro puts_inv) (simp_all add: goes_def)
    then show ?thesis unfolding creates(1) by (cases s) (simp add: goes_def puts_def)
  next
    case (boots g sb t ip)
    have "ssh_inv (goes s g Idle)" using boots by (intro go) auto
    moreover have "\<not> over (goes s g Idle) (ID sb)"
      using boots stopped [of "ID sb"] by (auto simp: over_def goes_def split: if_splits)
    ultimately show ?thesis using boots named [of g "ID sb"] by (auto intro!: puts_inv simp: goes_def)
  next
    case (boots_unheard g sb t ip)
    have "ssh_inv (goes s g (Tearing (ID sb)))" using boots_unheard named [of g] by (intro go) auto
    moreover have "\<not> over (goes s g (Tearing (ID sb))) (ID sb)"
      using boots_unheard stopped [of "ID sb"] by (auto simp: over_def goes_def split: if_splits)
    ultimately show ?thesis using boots_unheard named [of g "ID sb"] by (auto intro!: puts_inv simp: goes_def)
  next
    case (fails g sb e)
    have "ssh_inv (goes s g Idle)" using fails by (intro go) auto
    then show ?thesis using fails named [of g "ID sb"] by (auto intro!: puts_inv simp: goes_def)
  next
    case (retains g xs ys)
    have "ssh_inv (goes s g (Opening ys))" using retains by (intro go) auto
    then show ?thesis unfolding retains(1) by (rule relay_inv) (auto simp: goes_def dest: listens_Retain)
  next
    case (opens g i ip xs listen p q r)
    let ?q = "if q = p then Checking i xs else Recording i xs"
    have "ssh_inv (goes s g ?q)" using opens by (intro go) (auto split: if_splits)
    moreover have "will_check (pt (goes s g ?q) g) i" by (simp add: goes_def)
    moreover have "listens j r \<Longrightarrow> j = i \<or> listens j (lsn (goes s g ?q))" for j
      using listens_Ensure [OF opens(3)] by (auto simp: goes_def)
    ultimately show ?thesis unfolding opens(1) by (intro relay_inv) blast+
  next
    case (open_fails g i ip xs listen p e r)
    have "ssh_inv (goes s g (Opening xs))" using open_fails by (intro go) auto
    moreover have "listens j r \<Longrightarrow> listens j (lsn s)" for j using listens_Ensure [OF open_fails(3)] by auto
    ultimately show ?thesis unfolding open_fails(1) by (intro relay_inv) (auto simp: goes_def)
  next
    case (closes g i xs)
    have "ssh_inv (s\<lparr>lsn := Close i (lsn s)\<rparr>)" using inv by (rule relay_inv) (simp add: listens_Close)
    then have "ssh_inv (goes (s\<lparr>lsn := Close i (lsn s)\<rparr>) g (Opening xs))"
      by (rule goes_inv) (use closes in \<open>auto simp: listens_Close\<close>)
    then show ?thesis unfolding closes(1) by (cases s) (simp add: goes_def)
  next
    case (collects g sb)
    have "ssh_inv (goes s g Idle)" using collects by (intro go) auto
    from forgets_inv [OF this, of "ID sb"] show ?thesis unfolding collects(1) by (simp add: goes_def)
  next
    case (tears g i)
    have "ssh_inv (goes s g Idle)" using tears by (intro go) auto
    from forgets_inv [OF this, of i] show ?thesis unfolding tears(1) by (simp add: goes_def)
  next
    case (marks g sb st t e)
    let ?sb = "sb\<lparr>SbState := st, Error := e, LastActivity := t\<rparr>"
    have "ssh_inv (puts s ?sb)" using marks inv named [of g "ID sb"] by (intro puts_inv) auto
    then have "ssh_inv (goes (puts s ?sb) g (Marked (ID sb)))"
      by (rule goes_inv) (use marks named [of g "ID sb"] in \<open>auto simp: puts_def runs_def is_creating_def\<close>)
    then show ?thesis unfolding marks(1) by (cases s) (simp add: goes_def puts_def)
  next
    case (marks_unheard g sb t)
    have "ssh_inv (goes s g Idle)" using marks_unheard by (intro go) auto
    then show ?thesis using marks_unheard named [of g "ID sb"] by (auto intro!: puts_inv simp: goes_def)
  next
    case (closes_doomed g i)
    let ?s = "s\<lparr>lsn := Close i (lsn s), torn := insert i (torn s)\<rparr>"
    have "ssh_inv (s\<lparr>lsn := Close i (lsn s)\<rparr>)" using inv by (rule relay_inv) (simp add: listens_Close)
    from torn_inv [OF this, of g i] closes_doomed have "ssh_inv ?s" by (simp add: listens_Close)
    then have "ssh_inv (goes ?s g (Tearing i))" by (rule goes_inv) (use closes_doomed named [of g i] in auto)
    then show ?thesis unfolding closes_doomed(1) by (cases s) (simp add: goes_def)
  next
    case (finds_running g i xs)
    have "i \<notin> torn s" using finds_running(3) stopped [of i] by (auto simp: over_def)
    with finds_running show ?thesis by (auto intro!: go)
  next
    case (attaches g sb)
    have "ssh_inv (goes s g Idle)" using attaches by (intro go) auto
    moreover have "\<not> over (goes s g Idle) (ID sb)"
      using attaches(3) by (auto simp: over_def goes_def split: if_splits)
    ultimately show ?thesis using attaches named [of g "ID sb"] by (auto intro!: puts_inv simp: goes_def)
  next
    case (boots_late g sb)
    with named [of g "ID sb"] show ?thesis by (auto intro!: go)
  next
    case (boot_fails g sb)
    with named [of g "ID sb"] show ?thesis by (auto intro!: go)
  qed (auto intro!: go dest: rec)
qed

lemma ssh_reachable_inv: "ssh_reachable False r s \<Longrightarrow> ssh_inv s"
  unfolding ssh_reachable_def
proof (induction rule: rtranclp_induct)
  case base
  show ?case by (simp add: ssh_inv_def ssh_init_def over_def)
qed (rule ssh_inv_step)

section \<open>No listener outlives its sandbox\<close>


section \<open>What breaks it\<close>

text \<open>
  One sandbox, and the states of a goroutine that prepares SSH, one that deletes the sandbox and one
  that creates it and later attaches its device.
\<close>

definition box :: "string \<Rightarrow> string \<Rightarrow> string \<Rightarrow> sandbox" where
  "box st ip d = \<lparr>ID = ''a1'', UserID = ''u1'', Template = [], Size = [], Kind = ''vm'', SbState = st,
     IPAddress = ip, CostPerMin = 0, SbResources = no_resources, DiskMiB = 0, Error = [], DeviceID = d,
     CreatedAt = 0, LastActivity = 0, SSHConnections = 0\<rparr>"

definition scene :: "sandbox option \<Rightarrow> relay \<Rightarrow> point \<Rightarrow> point \<Rightarrow> point \<Rightarrow> string set \<Rightarrow> ssh_world" where
  "scene b r p q d t = \<lparr>stored = (\<lambda>_. None)(''a1'' := b), lsn = Some r, pt = (\<lambda>_. Idle)(0 := p, 1 := q, 2 := d),
     known = {''a1''}, torn = t\<rparr>"

abbreviation "fresh_relay \<equiv> New ''ssh.example'' 2000 2001"
abbreviation "guest \<equiv> ''10.0.0.5''"
abbreviation "live d \<equiv> box StateRunning guest d"

lemma box_simps [simp]:
  "ID (box st ip d) = ''a1''" "SbState (box st ip d) = st" "IPAddress (box st ip d) = ip"
  "(box st ip d)\<lparr>SbState := st'\<rparr> = box st' ip d" "(box st ip d)\<lparr>IPAddress := ip'\<rparr> = box st ip' d"
  "(box st ip d)\<lparr>DeviceID := d'\<rparr> = box st ip d'" "(box st ip d)\<lparr>Error := []\<rparr> = box st ip d"
  "(box st ip d)\<lparr>LastActivity := 0\<rparr> = box st ip d" "(box st ip d)\<lparr>SSHConnections := 0\<rparr> = box st ip d"
  "backfill (box st ip d) = box st ip d"
  by (simp_all add: box_def backfill_def)

lemma scene_opens: "Ensure (\<lambda>_ _. True) ''a1'' guest 0 (Some fresh_relay) = (Inr 2000, Some demo_relay)"
proof -
  have "fst (Ensure (\<lambda>_ _. True) ''a1'' guest 0 (Some fresh_relay)) = Inr 2000" by code_simp
  moreover have "snd (Ensure (\<lambda>_ _. True) ''a1'' guest 0 (Some fresh_relay)) \<noteq> None" by code_simp
  ultimately show ?thesis by (auto simp: demo_relay_def prod_eq_iff)
qed

lemma step_to: "ssh_step c s t \<Longrightarrow> t = s' \<Longrightarrow> ssh_step c s s'"
  by simp

lemmas scene_defs = scene_def ssh_init_def goes_def puts_def is_creating_def runs_def fun_eq_iff

lemma scene_created:
  "ssh_step c (ssh_init (Some fresh_relay))
     (scene (Some (box StateCreating [] [])) fresh_relay Idle Idle (Booting (box StateCreating [] [])) {})"
  by (rule step_to [OF creates [of _ 2 "box StateCreating [] []"]]) (simp_all add: scene_defs)

lemma scene_booted:
  "ssh_step c (scene (Some (box StateCreating [] [])) r p q (Booting (box StateCreating [] [])) t)
     (scene (Some (live [])) r p q Idle t)"
  by (rule step_to [OF boots [where g = 2 and sb = "box StateCreating [] []" and ip = guest and t = 0]]) (simp_all add: scene_defs)

lemma scene_doomed: "ssh_step c (scene (Some (live x)) r p Idle d t) (scene (Some (live x)) r p (Doomed (live x)) d t)"
  by (rule step_to [OF dooms [where g = 1 and i = "''a1''" and sb = "live x" and n = 0]]) (simp_all add: scene_defs)

lemma scene_prepares:
  "ssh_step c (scene (Some (live x)) r Idle q d t) (scene (Some (live x)) r (Opening [(''a1'', guest)]) q d t)"
  by (rule step_to [OF prepares [of _ 0 "''a1''" "live x"]]) (simp_all add: scene_defs)

lemma scene_marked:
  "ssh_step c (scene (Some (live x)) r p (Doomed (live y)) d t)
     (scene (Some (box StateTerminating guest y)) r p (Marked ''a1'') d t)"
  by (rule step_to [OF marks [where g = 1 and sb = "live y" and st = StateTerminating and e = "[]" and t = 0]]) (simp_all add: scene_defs)

lemma scene_closed:
  "ssh_step c (scene b fresh_relay p (Marked ''a1'') d t) (scene b fresh_relay p (Tearing ''a1'') d (insert ''a1'' t))"
  by (rule step_to [OF closes_doomed [of _ 1 "''a1''"]]) (simp_all add: scene_defs Close_def New_def)

lemma scene_opened:
  "ssh_step c (scene b fresh_relay (Opening [(''a1'', guest)]) q d t) (scene b demo_relay (Recording ''a1'' []) q d t)"
  by (rule step_to [OF opens [of _ 0 "''a1''" guest "[]" "\<lambda>_ _. True" 0 2000 "Some demo_relay"]])
    (simp_all add: scene_defs scene_opens)

lemma scene_recorded:
  "ssh_step c (scene b r (Recording ''a1'' []) q d t) (scene b r (Checking ''a1'' []) q d t)"
  by (rule step_to [OF port_stored [of _ 0 "''a1''" "[]"]]) (simp_all add: scene_defs)

lemma reachable_init: "ssh_reachable c r (ssh_init r)"
  by (simp add: ssh_reachable_def)

lemma reachable_step: "ssh_reachable c r s \<Longrightarrow> ssh_step c s s' \<Longrightarrow> ssh_reachable c r s'"
  unfolding ssh_reachable_def by (rule rtranclp.rtrancl_into_rtrancl)

lemma scene_alive: "ssh_reachable c (Some fresh_relay) (scene (Some (live [])) fresh_relay Idle (Doomed (live [])) Idle {})"
  by (rule reachable_step [OF reachable_step [OF reachable_step [OF reachable_init scene_created] scene_booted]
        scene_doomed])

text \<open>
  \<^verbatim>\<open>AttachDevice\<close> reads the record and puts it back whole. Between the two a \<^verbatim>\<open>Delete\<close> may have marked the
  sandbox and closed its listener; then the record says again that it runs, a \<^verbatim>\<open>PrepareSSH\<close> opens a
  listener and keeps it, and the \<^verbatim>\<open>Delete\<close> goes on. At the end nobody is at work, the sandbox is gone, and
  the listener for its address stays open until a reconcile pass.
\<close>

lemma attach_leaves_listener:
  "\<exists>s. ssh_reachable True (Some fresh_relay) s \<and> (\<forall>g. pt s g = Idle) \<and> stored s ''a1'' = None \<and>
     ''a1'' \<in> torn s \<and> listens ''a1'' (lsn s)"
proof -
  let ?run = "\<lambda>b r p q d t. ssh_reachable True (Some fresh_relay) (scene b r p q d t)"
  have comes: "ssh_step True (scene (Some (live [])) r p q Idle t) (scene (Some (live [])) r p q (Attaching (live ''dev'')) t)"
    for r p q t
    by (rule step_to [OF device_comes [where g = 2 and i = "''a1''" and sb = "live []" and d = "''dev''" and t = 0]]) (simp_all add: scene_defs)
  have attached: "ssh_step True (scene b r p q (Attaching (live x)) t) (scene (Some (live x)) r p q Idle t)"
    for b r p q t x
    by (rule step_to [OF attaches [of _ 2 "live x"]]) (simp_all add: scene_defs)
  have found: "ssh_step True (scene (Some (live x)) r (Checking ''a1'' []) q d t) (scene (Some (live x)) r (Opening []) q d t)"
    for x r q d t
    by (rule step_to [OF finds_running [of _ 0 "''a1''" "[]"]]) (simp_all add: scene_defs)
  have returned: "ssh_step True (scene b r (Opening []) q d t) (scene b r Idle q d t)" for b r q d t
    by (rule step_to [OF returns [of _ 0]]) (simp_all add: scene_defs)
  have gone: "ssh_step True (scene b r p (Tearing ''a1'') d t) (scene None r p Idle d t)" for b r p d t
    by (rule step_to [OF tears [of _ 1 "''a1''"]]) (simp_all add: scene_defs)
  have "?run (Some (live ''dev'')) fresh_relay Idle (Tearing ''a1'') Idle {''a1''}"
    by (rule reachable_step [OF reachable_step [OF reachable_step [OF reachable_step
          [OF scene_alive comes] scene_marked] scene_closed] attached])
  from reachable_step [OF reachable_step [OF reachable_step [OF reachable_step [OF reachable_step [OF reachable_step
      [OF this scene_prepares] scene_opened] scene_recorded] found] returned] gone]
  have "?run None demo_relay Idle Idle Idle {''a1''}" .
  then show ?thesis
    by (intro exI [of _ "scene None demo_relay Idle Idle Idle {''a1''}"])
      (simp add: scene_def listens_def demo_relay_state)
qed


end
