(* ===== verification/Service_Ssh_Runs.thy ===== *)
theory Service_Ssh_Runs
  imports Service_Ssh Service_Eviction
begin

text \<open>
  The programs of \<open>Service\<close> are what \<open>Service_Ssh\<close> interleaves: on a server that answers, each run of
  \<^verbatim>\<open>closeSSHUnlessRunning\<close>, \<^verbatim>\<open>reconcileSSH\<close>, \<^verbatim>\<open>PrepareSSH\<close>, \<^verbatim>\<open>Delete\<close> and \<^verbatim>\<open>teardownDead\<close> is a sequence of
  steps of one goroutine there, with the same records and the same relay.
\<close>

section \<open>Steps of one goroutine\<close>

definition own_step :: "nat \<Rightarrow> ssh_world \<Rightarrow> ssh_world \<Rightarrow> bool" where
  "own_step g S S' \<longleftrightarrow> ssh_step False S S' \<and> (\<exists>q. pt S' = (pt S)(g := q))"

definition run_to :: "ssh_world \<Rightarrow> nat \<Rightarrow> point \<Rightarrow> ssh_world \<Rightarrow> bool" where
  "run_to S g q S' \<longleftrightarrow> (own_step g)\<^sup>*\<^sup>* S S' \<and> pt S' g = q"

lemma run_to_self: "pt S g = q \<Longrightarrow> run_to S g q S"
  by (simp add: run_to_def)

lemma run_to_step:
  "run_to S g q S1 \<Longrightarrow> ssh_step False S1 S2 \<Longrightarrow> pt S2 = (pt S1)(g := q') \<Longrightarrow> run_to S g q' S2"
  unfolding run_to_def own_step_def by (auto intro: rtranclp.rtrancl_into_rtrancl)

lemma run_to_at: "run_to S g q S1 \<Longrightarrow> pt S1 g = q"
  by (simp add: run_to_def)

definition mirrors :: "('r \<Rightarrow> keyspace) \<Rightarrow> ssh_world \<Rightarrow> ('r, 'v, 'h) world \<Rightarrow> bool" where
  "mirrors ks S w \<longleftrightarrow> stored S = recs (inv_of ks (rdb w)) \<and> lsn S = ssh w"

definition is_run ::
  "('r \<Rightarrow> keyspace) \<Rightarrow> ssh_world \<Rightarrow> nat \<Rightarrow> ('r, 'v, 'h) world \<Rightarrow> ('r, 'v, 'h, 'a) svc \<Rightarrow> bool" where
  "is_run ks S g w m \<longleftrightarrow> (\<exists>S'. run_to S g Idle S' \<and> mirrors ks S' (snd (run_state m w)))"

context calm_service
begin

text \<open>
  From \<open>S\<close> on, the steps of the goroutine \<open>g\<close> have led to \<open>q\<close> and to the records \<open>R\<close> and the relay of
  the world \<open>w\<close>.
\<close>

definition stands :: "ssh_world \<Rightarrow> nat \<Rightarrow> point \<Rightarrow> (string \<rightharpoonup> sandbox) \<Rightarrow> ('r, 'v, 'h) world \<Rightarrow> bool" where
  "stands S g q R w \<longleftrightarrow> good_w w \<and> recs (invw w) = R \<and>
     (\<exists>S'. run_to S g q S' \<and> stored S' = R \<and> lsn S' = ssh w)"

lemma stands_good: "stands S g q R w \<Longrightarrow> good_w w" "stands S g q R w \<Longrightarrow> recs (invw w) = R"
  by (simp_all add: stands_def)

lemma stands_to:
  assumes w: "stands S g q R w"
    and step: "\<And>S'. pt S' g = q \<Longrightarrow> stored S' = R \<Longrightarrow> lsn S' = ssh w \<Longrightarrow> ssh_step False S' (f S')"
    and "good_w w'" and "recs (invw w') = R'"
    and f: "\<And>S'. pt S' g = q \<Longrightarrow> stored S' = R \<Longrightarrow> lsn S' = ssh w \<Longrightarrow>
      pt (f S') = (pt S')(g := q') \<and> stored (f S') = R' \<and> lsn (f S') = ssh w'"
  shows "stands S g q' R' w'"
proof -
  from w obtain S' where S': "run_to S g q S'" "stored S' = R" "lsn S' = ssh w" by (auto simp: stands_def)
  note at = run_to_at [OF S'(1)] S'(2,3)
  from run_to_step [OF S'(1) step [OF at]] f [OF at] assms(3,4) show ?thesis by (auto simp: stands_def)
qed

text \<open>A step at which the goroutine only moves on.\<close>

lemma stands_goes:
  assumes w: "stands S g q R w"
    and step: "\<And>S'. pt S' g = q \<Longrightarrow> stored S' = R \<Longrightarrow> ssh_step False S' (goes S' g q')"
  shows "stands S g q' R w"
  by (rule stands_to [OF w step stands_good [OF w]]) (simp_all add: goes_def)

lemma stands_parts:
  "stands S g q R w \<Longrightarrow> wp (on_vms f) (\<lambda>_. stands S g q R) w" "stands S g q R w \<Longrightarrow> wp (ask h) (\<lambda>_. stands S g q R) w"
  "stands S g q R w \<Longrightarrow> wp (forget_prep i) (\<lambda>_. stands S g q R) w"
  "stands S g q R w \<Longrightarrow> wp (modify (\<lambda>w. w\<lparr>sshPrep := insert i (sshPrep w)\<rparr>)) (\<lambda>_. stands S g q R) w"
  "stands S g q R w \<Longrightarrow> wp (connections E i) (\<lambda>_. stands S g q R) w"
  by (simp_all add: stands_def wp_on_vms wp_ask wp_forget_prep wp_modify connections_def wp_bind wp_gets wp_return)

lemmas stands_binds = stands_parts [THEN wp_bindI]

lemma Get_stands:
  "stands S g q R w \<Longrightarrow> sid i \<Longrightarrow>
   wp (on_store (Get (rds E) cx i)) (\<lambda>r w'. stands S g q R w' \<and> r = Inr (R i) \<and> ssh w' = ssh w) w"
  by (rule wp_mono [OF Get_C]) (auto simp: stands_def)

lemma SSHPort_stands:
  "stands S g q R w \<Longrightarrow> wp (on_store (SSHPort (rds E) cx i)) (\<lambda>_ w'. stands S g q R w' \<and> ssh w' = ssh w) w"
  unfolding wp_on_store
  by (rule wp_mono [OF SSHPort_calm [OF calm good_worldD(1)]]) (auto simp: stands_def)

lemma SetSSHPort_stands:
  assumes w: "stands S g (Recording i xs) R w" and "in_int64 p"
  shows "wp (on_store (SetSSHPort (rds E) cx i p)) (\<lambda>e w'. stands S g (Checking i xs) R w' \<and> e = None) w"
proof -
  have "stands S g (Checking i xs) R w" by (rule stands_goes [OF w port_stored])
  then show ?thesis
    unfolding wp_on_store
    by (intro wp_mono [OF SetSSHPort_calm [OF calm good_worldD(1) [OF stands_good(1) [OF w]] assms(2)]])
      (auto simp: stands_def spec_set_port_def)
qed

section \<open>Opening a listener\<close>

lemma close_stands:
  assumes w: "stands S g (Closing i xs) R w"
  shows "wp (close_ssh i) (\<lambda>_. stands S g (Opening xs) R) w"
  unfolding wp_close_ssh
  by (rule stands_to [OF w closes]) (use stands_good [OF w] in \<open>simp_all add: goes_def ssh_ok_Close\<close>)

lemma closeSSHUnlessRunning_stands:
  assumes w: "stands S g (Checking i xs) R w" and i: "sid i"
  shows "wp (closeSSHUnlessRunning E i) (\<lambda>_. stands S g (Opening xs) R) w"
  unfolding closeSSHUnlessRunning_def
proof (rule wp_bindI [OF Get_stands [OF w i]], goal_cases)
  case (1 r w1)
  then have w1: "stands S g (Checking i xs) R w1" and r: "r = Inr (R i)" by auto
  have stopped: "wp (close_ssh i \<bind> (\<lambda>_. ret b)) (\<lambda>_. stands S g (Opening xs) R) w1" for b :: bool
    by (rule wp_bindI [OF close_stands [OF stands_goes [OF w1 check_fails]]]) (simp_all add: wp_return)
  show ?case
  proof (cases "R i")
    case (Some cur)
    have "stands S g (Opening xs) R w1" if "SbState cur = StateRunning"
      by (rule stands_goes [OF w1 finds_running]) (use Some that in \<open>auto simp: runs_def\<close>)
    then show ?thesis using stopped by (simp add: r Some wp_return)
  qed (use stopped in \<open>simp add: r\<close>)
qed

lemma ensure_stands:
  assumes w: "stands S g (Opening ((i, ip) # xs)) R w"
  shows "wp (ensure_listener E i ip p) (\<lambda>r w'. case r of
      Inl _ \<Rightarrow> stands S g (Opening xs) R w'
    | Inr q \<Rightarrow> in_int64 q \<and> stands S g (if q = p then Checking i xs else Recording i xs) R w') w"
proof -
  obtain r rl where en: "Ensure (may_listen E (asked w)) i ip p (ssh w) = (r, rl)" by fastforce
  have ok: "ssh_ok rl" using ssh_ok_Ensure [of "ssh w" "may_listen E (asked w)" i ip p] stands_good(1) [OF w] en by simp
  let ?w = "w\<lparr>asked := Suc (asked w), ssh := rl\<rparr>"
  have w': "good_w ?w" "recs (invw ?w) = R" using stands_good [OF w] ok by simp_all
  have "case r of Inl _ \<Rightarrow> stands S g (Opening xs) R ?w
    | Inr q \<Rightarrow> in_int64 q \<and> stands S g (if q = p then Checking i xs else Recording i xs) R ?w"
  proof (cases r)
    case (Inl e)
    have "stands S g (Opening xs) R ?w"
      by (rule stands_to [OF w open_fails w']) (use en Inl in \<open>simp_all add: goes_def\<close>)
    with Inl show ?thesis by simp
  next
    case (Inr q)
    have "stands S g (if q = p then Checking i xs else Recording i xs) R ?w"
      by (rule stands_to [OF w opens w']) (use en Inr in \<open>simp_all add: goes_def\<close>)
    moreover have "in_int64 q" by (rule Ensure_int64 [of "ssh w" "may_listen E (asked w)" i ip p]) (use en Inr stands_good(1) [OF w] in simp_all)
    ultimately show ?thesis using Inr by simp
  qed
  then show ?thesis by (simp add: ensure_listener_def wp_bind wp_ask wp_on_ssh en)
qed

lemma skip_stands: "stands S g (Opening (x # xs)) R w \<Longrightarrow> stands S g (Opening xs) R w"
  by (rule stands_goes [OF _ skips])

lemma return_stands: "stands S g (Opening []) R w \<Longrightarrow> stands S g Idle R w"
  by (rule stands_goes [OF _ returns])

lemma reopen_ssh_stands:
  assumes w: "stands S g (Opening (x # xs)) R w" and i: "sid (fst x)"
  shows "wp (reopen_ssh E x) (\<lambda>_. stands S g (Opening xs) R) w"
proof -
  obtain i ip where x: "x = (i, ip)" by fastforce
  have checked: "wp (closeSSHUnlessRunning E i \<bind> (\<lambda>_. ret ())) (\<lambda>_. stands S g (Opening xs) R) w2"
    if "stands S g (Checking i xs) R w2" for w2
    using closeSSHUnlessRunning_stands [OF that] i x by (intro wp_bindI) (auto simp: wp_return)
  show ?thesis
    unfolding reopen_ssh_def x prod.case
  proof (rule wp_bindI [OF SSHPort_stands [OF w [unfolded x]]], goal_cases)
    case (1 p w1)
    then have w1: "stands S g (Opening ((i, ip) # xs)) R w1" by simp
    show ?case
      by (auto simp: wp_return skip_stands [OF w1] split: sum.split
          intro!: wp_bindI [OF ensure_stands [OF w1]] wp_bindI [OF SetSSHPort_stands] checked)
  qed
qed

section \<open>Reconciliation\<close>

lemma for_each_reopen:
  "stands S g (Opening xs) R w \<Longrightarrow> \<forall>x \<in> set xs. sid (fst x) \<Longrightarrow>
   wp (for_each xs (reopen_ssh E)) (\<lambda>_. stands S g (Opening []) R) w"
  by (induction xs arbitrary: w) (auto simp: wp_return intro!: wp_bindI [OF reopen_ssh_stands])

lemma sees_all:
  assumes "stands S g (Listing m) R w" and "\<forall>sb \<in> set sbs. R (ID sb) = Some sb"
  shows "stands S g (Listing (fold (\<lambda>sb m. if SbState sb = StateRunning \<and> IPAddress sb \<noteq> []
           then AList.update (ID sb) (IPAddress sb) m else m) sbs m)) R w"
  using assms
proof (induction sbs arbitrary: m)
  case (Cons sb sbs)
  show ?case
  proof (cases "SbState sb = StateRunning \<and> IPAddress sb \<noteq> []")
    case True
    have "stands S g (Listing (AList.update (ID sb) (IPAddress sb) m)) R w"
      by (rule stands_goes [OF Cons.prems(1) sees]) (use True Cons.prems(2) in simp_all)
    from Cons.IH [OF this] Cons.prems(2) True show ?thesis by simp
  next
    case False
    from Cons.IH [OF Cons.prems(1)] Cons.prems(2) show ?thesis by (simp only: fold_simps False if_False) simp
  qed
qed simp

lemma running_ips_ids: "(i, ip) \<in> set (running_ips sbs) \<Longrightarrow> \<exists>sb \<in> set sbs. ID sb = i"
proof -
  have "fst ` set (fold (\<lambda>sb m. if SbState sb = StateRunning \<and> IPAddress sb \<noteq> []
      then AList.update (ID sb) (IPAddress sb) m else m) sbs m) \<subseteq> ID ` set sbs \<union> fst ` set m" for m
  proof (induction sbs arbitrary: m)
    case (Cons a sbs)
    from Cons.IH [of m] Cons.IH [of "AList.update (ID a) (IPAddress a) m"] show ?case
      by (simp add: fst_update) blast
  qed simp
  from this [of "[]"] show "(i, ip) \<in> set (running_ips sbs) \<Longrightarrow> \<exists>sb \<in> set sbs. ID sb = i"
    unfolding running_ips_def by force
qed

lemma List_stands:
  assumes w: "stands S g q R w"
  shows "wp (on_store (ListSandboxes (rds E) cx [])) (\<lambda>r w'. stands S g q R w' \<and> ssh w' = ssh w \<and>
     (\<exists>sbs. r = Inr sbs \<and> (\<forall>sb \<in> set sbs. R (ID sb) = Some sb \<and> sid (ID sb)))) w"
  unfolding wp_on_store
proof (rule wp_mono [OF List_calm [OF calm good_worldD(1) [OF stands_good(1) [OF w]]]], goal_cases)
  case (1 r c)
  then obtain "is" where c: "good_conn own ks c" "inv_of ks c = invw w"
    and r: "r = Inr (map (the \<circ> recs (invw w)) is)" "set is = listed [] (invw w)" by blast
  have "R (ID sb) = Some sb \<and> sid (ID sb)" if sb: "sb \<in> set (map (the \<circ> recs (invw w)) is)" for sb
  proof -
    from sb r(2) listed_dom [OF consistent_inv [OF good_worldD(1) [OF stands_good(1) [OF w]]], of "[]"]
    obtain i where "recs (invw w) i = Some sb" by (auto simp: dom_def)
    with inv_rec [OF good_worldD(1) [OF stands_good(1) [OF w]] this] stands_good(2) [OF w] show ?thesis by auto
  qed
  with c r w show ?case by (auto simp: stands_def)
qed

lemma reconcileSSH_stands:
  assumes w: "stands S g Idle R w" and order: "\<forall>k m. set (map_range E k m) = set m"
  shows "wp (reconcileSSH E) (\<lambda>_. stands S g Idle R) w"
proof (cases "ssh w")
  case None
  then show ?thesis using w by (simp add: reconcileSSH_def wp_bind wp_gets wp_return)
next
  case (Some r)
  have start: "stands S g (Listing []) R w" by (rule stands_goes [OF w lists])
  have "wp (do { l \<leftarrow> on_store (ListSandboxes (rds E) Caller []);
            case l of
              Inl _ \<Rightarrow> ret ()
            | Inr sbs \<Rightarrow>
                do { _ \<leftarrow> on_ssh (\<lambda>r. ((), Retain (running_ips sbs) r));
                     order \<leftarrow> ask (map_range E);
                     for_each (order (running_ips sbs)) (reopen_ssh E) } }) (\<lambda>_. stands S g Idle R) w"
  proof (rule wp_bindI [OF List_stands [OF start]], goal_cases)
    case (1 l w1)
    then obtain sbs where w1: "stands S g (Listing []) R w1" and l: "l = Inr sbs"
      and sbs: "\<forall>sb \<in> set sbs. R (ID sb) = Some sb" "\<forall>sb \<in> set sbs. sid (ID sb)" by blast
    let ?run = "running_ips sbs"
    have w2: "stands S g (Listing ?run) R w1" using sees_all [OF w1 sbs(1)] by (simp add: running_ips_def)
    have w3: "stands S g (Opening (map_range E k ?run)) R (w1\<lparr>ssh := Retain ?run (ssh w1)\<rparr>)" for k
      by (rule stands_to [OF w2 retains [where ys = "map_range E k ?run"]])
        (use order stands_good [OF w2] in \<open>simp_all add: goes_def ssh_ok_Retain\<close>)
    have ids: "\<forall>x \<in> set (map_range E k ?run). sid (fst x)" for k
      using order sbs(2) running_ips_ids by fastforce
    have w4: "stands S g (Opening (map_range E (asked w1) ?run)) R (w1\<lparr>ssh := Retain ?run (ssh w1), asked := Suc (asked w1)\<rparr>)"
      using w3 [of "asked w1"] by (simp add: stands_def)
    from wp_mono [OF for_each_reopen [OF w4 ids] return_stands] show ?case
      by (simp add: l wp_bind wp_on_ssh wp_ask)
  qed
  then show ?thesis by (simp add: reconcileSSH_def Let_def wp_bind wp_gets Some)
qed

section \<open>Preparation\<close>

lemma ensure_idle:
  assumes w: "stands S g Idle R w" and sb: "R i = Some sb" "SbState sb = StateRunning" "IPAddress sb \<noteq> []"
  shows "wp (ensure_listener E i (IPAddress sb) p) (\<lambda>r w'. case r of
      Inl _ \<Rightarrow> stands S g Idle R w'
    | Inr q \<Rightarrow> in_int64 q \<and> stands S g (if q = p then Checking i [] else Recording i []) R w') w"
proof -
  have "stands S g (Opening [(i, IPAddress sb)]) R w"
    by (rule stands_goes [OF w prepares]) (use sb in auto)
  from ensure_stands [OF this] show ?thesis by (rule wp_mono) (auto split: sum.splits intro: return_stands)
qed

lemma PrepareSSH_stands:
  assumes w: "stands S g Idle R w" and i: "sid i"
  shows "wp (PrepareSSH E who i) (\<lambda>_. stands S g Idle R) w"
proof -
  have checked: "wp (closeSSHUnlessRunning E i \<bind> f) (\<lambda>_. stands S g Idle R) w1"
    if "stands S g (Checking i []) R w1" and "\<And>b w2. stands S g Idle R w2 \<Longrightarrow> wp (f b) (\<lambda>_. stands S g Idle R) w2"
    for f :: "bool \<Rightarrow> ('r, 'v, 'h, goerr + ssh_endpoint) svc" and w1
    by (rule wp_bindI [OF closeSSHUnlessRunning_stands [OF that(1) i]]) (rule that(2) [OF return_stands])
  show ?thesis
    unfolding PrepareSSH_def wp_bind [of "gets ssh"] wp_gets Let_def
    by (auto intro!: stands_binds wp_bindI [OF Get_stands] wp_bindI [OF SSHPort_stands] wp_bindI [OF ensure_idle]
        wp_bindI [OF SetSSHPort_stands] checked w i simp: wp_return split: option.split sum.split)
qed

section \<open>The end of a sandbox\<close>

lemma Put_stands:
  assumes w: "stands S g (Doomed sb) R w" and "lawful_rec own sb" and "st \<in> {StateTerminating, StateError}"
    and sb': "sb' = sb\<lparr>SbState := st, Error := e, LastActivity := t\<rparr>"
  shows "wp (on_store (Put (rds E) cx sb'))
     (\<lambda>r w'. r = None \<and> (\<exists>R'. stands S g (Marked (ID sb)) R' w')) w"
proof (rule wp_mono [OF Put_C [OF stands_good(1) [OF w]]], goal_cases)
  case (2 r w')
  from 2 have w': "good_w w'" "recs (invw w') = R(ID sb \<mapsto> backfill (sb'\<lparr>SSHConnections := 0\<rparr>))"
    using stands_good(2) [OF w] by (auto simp: spec_put_def Let_def sb')
  have "stands S g (Marked (ID sb)) (R(ID sb \<mapsto> backfill (sb'\<lparr>SSHConnections := 0\<rparr>))) w'"
    by (rule stands_to [OF w marks [where st = st and e = e and t = t] w'])
      (use 2 assms(3) sb' in \<open>auto simp: goes_def puts_def\<close>)
  with 2 show ?case by blast
qed (use assms in simp)

lemma close_marked: "stands S g (Marked i) R w \<Longrightarrow> wp (close_ssh i) (\<lambda>_. stands S g (Tearing i) R) w"
  unfolding wp_close_ssh
  by (rule stands_to [OF _ closes_doomed]) (auto simp: goes_def ssh_ok_Close stands_good)

lemma tear_stands:
  assumes w: "stands S g (Tearing i) R w" and i: "sid i"
  shows "wp (on_store (Delete (rds E) cx i)) (\<lambda>_ w'. \<exists>R'. stands S g Idle R' w') w"
proof (rule wp_mono [OF Delete_C [OF stands_good(1) [OF w] i]], goal_cases)
  case (1 r w')
  then have w': "good_w w'" "recs (invw w') = R(i := None)"
    using stands_good(2) [OF w] by (auto simp: spec_delete_def fun_eq_iff)
  have "stands S g Idle (R(i := None)) w'"
    by (rule stands_to [OF w tears w']) (use 1 in \<open>auto simp: goes_def\<close>)
  then show ?case by blast
qed

lemma finishTeardown_stands:
  assumes w: "stands S g (Tearing i) R w" and i: "sid i"
  shows "wp (finishTeardown E i) (\<lambda>_ w'. \<exists>R'. stands S g Idle R' w') w"
proof -
  have fails: "\<exists>R'. stands S g Idle R' w1" if "stands S g (Tearing i) R w1" for w1
    by (rule exI [of _ R], rule stands_goes [OF that tear_fails])
  show ?thesis
    unfolding finishTeardown_def
    by (auto intro!: stands_binds w tear_stands [OF _ i] fails simp: wp_return split: option.split)
qed

lemma teardownDead_stands:
  assumes w: "stands S g (Doomed sb) R w" and sb: "lawful_rec own sb"
  shows "wp (teardownDead E sb) (\<lambda>_ w'. \<exists>R'. stands S g Idle R' w') w"
proof -
  have i: "sid (ID sb)" using sb by (simp add: lawful_rec_def)
  have ending: "wp (finishTeardown E (ID sb) \<bind> (\<lambda>_. ret ())) (\<lambda>_ w'. \<exists>R'. stands S g Idle R' w') w1"
    if "stands S g (Tearing (ID sb)) R1 w1" for R1 w1
    by (rule wp_bindI [OF finishTeardown_stands [OF that i]]) (simp add: wp_return)
  show ?thesis
    unfolding teardownDead_def
    by (auto intro!: stands_binds w wp_bindI [OF Put_stands [OF _ sb _ refl]] wp_bindI [OF close_marked] ending)
qed

lemma SvcDelete_stands:
  assumes w: "stands S g Idle R w" and i: "sid i"
  shows "wp (SvcDelete E who i) (\<lambda>_ w'. \<exists>R'. stands S g Idle R' w') w"
proof -
  have R: "R j = Some sb \<Longrightarrow> lawful_rec own sb \<and> ID sb = j" for j sb
    using inv_rec [OF good_worldD(1) [OF stands_good(1) [OF w]]] stands_good(2) [OF w] by (auto simp: lawful_rec_def)
  have marked_sb: "(sb::sandbox)\<lparr>SbState := StateTerminating, LastActivity := t\<rparr> =
      sb\<lparr>SbState := StateTerminating, Error := Error sb, LastActivity := t\<rparr>" for sb t by (cases sb) simp
  have same: "\<exists>m. (sb::sandbox)\<lparr>SSHConnections := n\<rparr> = sb\<lparr>SSHConnections := m\<rparr>" for sb n by blast
  have got: "wp (SvcGet E who i) (\<lambda>r w'. stands S g Idle R w' \<and>
      (\<forall>sb'. r = Inr sb' \<longrightarrow> (\<exists>sb n. R i = Some sb \<and> sb' = sb\<lparr>SSHConnections := n\<rparr>))) w"
    unfolding SvcGet_def
    by (auto intro!: wp_bindI [OF Get_stands [OF w i]] stands_binds same simp: wp_return split: option.split)
  have marked: "wp (on_store (Put (rds E) Caller (sb\<lparr>SbState := StateTerminating, LastActivity := t\<rparr>)))
      (\<lambda>r w'. r = None \<and> (\<exists>R'. stands S g (Marked (ID sb)) R' w')) w1"
    if w1: "stands S g Idle R w1" and sb: "R i = Some sb0" "sb = sb0\<lparr>SSHConnections := n\<rparr>" for sb0 sb n t w1
  proof -
    have "stands S g (Doomed sb) R w1" unfolding sb(2) by (rule stands_goes [OF w1 dooms [where i = i]]) (simp_all add: sb(1))
    from Put_stands [OF this _ _ marked_sb [where sb = sb and t = t]] R [OF sb(1)] sb(2) show ?thesis by simp
  qed
  show ?thesis
    unfolding SvcDelete_def
  proof (rule wp_bindI [OF got], goal_cases)
    case (1 r w1)
    show ?case
    proof (cases r)
      case (Inr sb)
      with 1 obtain sb0 n where sb: "R i = Some sb0" "sb = sb0\<lparr>SSHConnections := n\<rparr>" and w1: "stands S g Idle R w1" by blast
      have id: "ID sb = i" using R [OF sb(1)] sb(2) by simp
      show ?thesis
        unfolding Inr sum.case
        by (auto intro!: stands_binds w1 wp_bindI [OF marked [OF _ sb]] wp_bindI [OF close_marked]
            finishTeardown_stands i simp: id)
    qed (use 1 in \<open>auto simp: wp_return\<close>)
  qed
qed

section \<open>The refinement\<close>

lemma is_runI: "wp m (\<lambda>_ w'. \<exists>R'. stands S g Idle R' w') w \<Longrightarrow> is_run ks S g w m"
  by (auto simp: wp_def is_run_def mirrors_def stands_def)

lemma ssh_programs_run:
  assumes w: "good_w w" "mirrors ks S w" "pt S g = Idle" and i: "sid i"
    and order: "\<forall>k m. set (map_range E k m) = set m"
  shows "is_run ks S g w (PrepareSSH E who i)" "is_run ks S g w (SvcDelete E who i)" "is_run ks S g w (reconcileSSH E)"
    "stored S i = Some sb \<Longrightarrow> is_run ks S g w (teardownDead E sb)"
proof -
  have start: "stands S g Idle (stored S) w"
    using w run_to_self [of S g Idle] by (auto simp: stands_def mirrors_def)
  show "is_run ks S g w (PrepareSSH E who i)"
    by (rule is_runI [OF wp_mono [OF PrepareSSH_stands [OF start i]]]) blast
  show "is_run ks S g w (reconcileSSH E)"
    by (rule is_runI [OF wp_mono [OF reconcileSSH_stands [OF start order]]]) blast
  show "is_run ks S g w (SvcDelete E who i)"
    by (rule is_runI [OF SvcDelete_stands [OF start i]])
  assume sb: "stored S i = Some sb"
  with inv_rec [OF good_worldD(1) [OF w(1)]] stands_good(2) [OF start] have "lawful_rec own sb"
    by (auto simp: lawful_rec_def)
  moreover have "sb\<lparr>SSHConnections := SSHConnections sb\<rparr> = sb" by (cases sb) simp
  then have "stands S g (Doomed sb) (stored S) w"
    using stands_goes [OF start dooms [where i = i and sb = sb and n = "SSHConnections sb"]] sb by simp
  ultimately show "is_run ks S g w (teardownDead E sb)" by (intro is_runI teardownDead_stands)
qed

end

text \<open>
  C35. The service's programs are the steps that \<open>Service_Ssh\<close> interleaves. On a server that answers,
  from any state whose records and relay are those of the world, a complete run of \<^verbatim>\<open>PrepareSSH\<close>, of
  \<^verbatim>\<open>Delete\<close>, of \<^verbatim>\<open>reconcileSSH\<close>, and of \<^verbatim>\<open>teardownDead\<close> on a record that was read, is a sequence of steps of
  one goroutine, from idle to idle, to a state with the records and the relay of the world it ends in.
\<close>

theorem ssh_programs_are_runs:
  assumes "calm_service E ks own" and "good_world own ks w" and "mirrors ks S w"
    and "pt S g = Idle" and "sid i" and "\<forall>k m. set (map_range E k m) = set m"
  shows "is_run ks S g w (PrepareSSH E who i) \<and> is_run ks S g w (SvcDelete E who i) \<and>
         is_run ks S g w (reconcileSSH E) \<and>
         (\<forall>sb. stored S i = Some sb \<longrightarrow> is_run ks S g w (teardownDead E sb))"
  using calm_service.ssh_programs_run [OF assms] by blast

theorem ssh_programs_are_runs_witness:
  "is_run mem_ks (ssh_init None\<lparr>stored := recs (inv_of mem_ks demo_conn), lsn := Some svc_relay\<rparr>) 0 (demo_world [])
     (SvcDelete demo_E admin_identity ''a1'')"
proof -
  let ?S = "ssh_init None\<lparr>stored := recs (inv_of mem_ks demo_conn), lsn := Some svc_relay\<rparr>"
  have i: "sid ''a1''" by (simp add: sid_def hex_char_def is_digit_def)
  have S: "mirrors mem_ks ?S (demo_world [])" "pt ?S 0 = Idle" by (simp_all add: mirrors_def ssh_init_def)
  have "\<forall>k m. set (map_range demo_E k m) = set m" by simp
  from ssh_programs_are_runs [OF demo_calm.calm_service_axioms good_demo_world S i this] show ?thesis by blast
qed

end
