(* ===== verification/Store_Api.thy ===== *)
theory Store_Api
  imports Store_Props "HOL-Library.Multiset"
begin

text \<open>
  The methods of \<^verbatim>\<open>Store\<close> as one interface: an abstract machine over the inventory, with the result
  each method owes its caller, and the proof that on a server nobody else writes to every sequence of
  methods gives exactly these results and this inventory. In particular no method ever meets a value
  of the wrong Redis type, or a record it cannot decode: the errors left are those of the network.
  A listing is compared as a multiset, as Redis does not order its sets.
\<close>

section \<open>The abstract store\<close>

datatype store_method =
  MPut sandbox | MReserve sandbox | MRunning sandbox | MGet string | MDelete string
| MRelease string string | MPurge string | MSetPort string int | MPort string | MSlot string
| MList string | MScan string

datatype store_result =
  Done | Refused | Reserved bool | Found "sandbox option" | Holder string | Port int
| Records "sandbox multiset"

definition records_of :: "string \<Rightarrow> inventory \<Rightarrow> sandbox multiset" where
  "records_of u a = image_mset (the \<circ> recs a) (mset_set (listed u a))"

fun spec_method :: "store_method \<Rightarrow> inventory \<Rightarrow> store_result \<times> inventory" where
  "spec_method (MPut sb) a = (Done, spec_put sb a)"
| "spec_method (MReserve sb) a = (case spec_reserve sb a of (b, a') \<Rightarrow> (Reserved b, a'))"
| "spec_method (MRunning sb) a = (case spec_put_running sb a of (b, a') \<Rightarrow> (if b then Done else Refused, a'))"
| "spec_method (MGet i) a = (Found (recs a i), a)"
| "spec_method (MDelete i) a =
     (Done, case recs a i of None \<Rightarrow> a | Some sb \<Rightarrow> spec_delete i (UserID sb) a)"
| "spec_method (MRelease u i) a = (Done, snd (spec_release u i a))"
| "spec_method (MPurge u) a = (Done, spec_purge u a)"
| "spec_method (MSetPort i p) a = (Done, spec_set_port i p a)"
| "spec_method (MPort i) a = (Port (case ports a i of None \<Rightarrow> 0 | Some p \<Rightarrow> p), a)"
| "spec_method (MSlot u) a = (Holder (case slots a u of None \<Rightarrow> [] | Some i \<Rightarrow> i), a)"
| "spec_method (MList u) a = (Records (records_of u a), a)"
| "spec_method (MScan u) a = (Records (filter_mset (\<lambda>sb. UserID sb = u) (records_of [] a)), a)"

fun lawful_method :: "(string \<Rightarrow> string) \<Rightarrow> store_method \<Rightarrow> bool" where
  "lawful_method own (MPut sb) \<longleftrightarrow> lawful own (QPut sb)"
| "lawful_method own (MReserve sb) \<longleftrightarrow> lawful own (QReserve sb)"
| "lawful_method own (MRunning sb) \<longleftrightarrow> lawful own (QRunning sb)"
| "lawful_method own (MGet i) \<longleftrightarrow> sid i"
| "lawful_method own (MDelete i) \<longleftrightarrow> sid i"
| "lawful_method own (MSetPort i p) \<longleftrightarrow> in_int64 p"
| "lawful_method own _ \<longleftrightarrow> True"

section \<open>The methods behind the interface\<close>

definition no_value :: "('s, goerr option) state \<Rightarrow> ('s, goerr + store_result) state" where
  "no_value m = do { e \<leftarrow> m; ret (case e of None \<Rightarrow> Inr Done | Some x \<Rightarrow> Inl x) }"

definition value_of :: "('a \<Rightarrow> store_result) \<Rightarrow> ('s, goerr + 'a) state \<Rightarrow> ('s, goerr + store_result) state" where
  "value_of f m = do { r \<leftarrow> m; ret (case r of Inl e \<Rightarrow> Inl e | Inr x \<Rightarrow> Inr (f x)) }"

definition deleted_meanwhile :: "sandbox \<Rightarrow> goerr" where
  "deleted_meanwhile sb = Foreign (''sandbox '' @ ID sb @ '' was deleted during creation'')"

fun run_method :: "'r redis_env \<Rightarrow> ctx \<Rightarrow> store_method \<Rightarrow> ('r conn, goerr + store_result) state" where
  "run_method E cx (MPut sb) = no_value (Put E cx sb)"
| "run_method E cx (MReserve sb) = value_of Reserved (ReserveUserSlot E cx sb)"
| "run_method E cx (MRunning sb) = do {
     e \<leftarrow> PutRunning E cx sb;
     ret (case e of None \<Rightarrow> Inr Done | Some x \<Rightarrow> if x = deleted_meanwhile sb then Inr Refused else Inl x) }"
| "run_method E cx (MGet i) = value_of Found (Get E cx i)"
| "run_method E cx (MDelete i) = no_value (Delete E cx i)"
| "run_method E cx (MRelease u i) = no_value (ReleaseUserSlot E cx u i)"
| "run_method E cx (MPurge u) = no_value (PurgeUserIndexes E cx u)"
| "run_method E cx (MSetPort i p) = no_value (SetSSHPort E cx i p)"
| "run_method E cx (MPort i) = value_of Port (SSHPort E cx i)"
| "run_method E cx (MSlot u) = value_of Holder (UserSlot E cx u)"
| "run_method E cx (MList u) = value_of (\<lambda>sbs. Records (mset sbs)) (ListSandboxes E cx u)"
| "run_method E cx (MScan u) = value_of (\<lambda>sbs. Records (mset sbs)) (ListByUserScan E cx u)"

fun run_methods :: "'r redis_env \<Rightarrow> (ctx \<times> store_method) list \<Rightarrow> ('r conn, (goerr + store_result) list) state" where
  "run_methods E [] = ret []"
| "run_methods E ((cx, m) # ms) = do { r \<leftarrow> run_method E cx m; rs \<leftarrow> run_methods E ms; ret (r # rs) }"

fun spec_methods :: "store_method list \<Rightarrow> inventory \<Rightarrow> store_result list \<times> inventory" where
  "spec_methods [] a = ([], a)"
| "spec_methods (m # ms) a =
     (case spec_method m a of (r, a1) \<Rightarrow> case spec_methods ms a1 of (rs, a2) \<Rightarrow> (r # rs, a2))"

section \<open>Every method is its abstract operation\<close>

lemma wp_no_value: "wp (no_value m) Q s \<longleftrightarrow> wp m (\<lambda>e. Q (case e of None \<Rightarrow> Inr Done | Some x \<Rightarrow> Inl x)) s"
  by (simp add: no_value_def wp_def split_beta)

lemma wp_value_of: "wp (value_of f m) Q s \<longleftrightarrow> wp m (\<lambda>r. Q (case r of Inl e \<Rightarrow> Inl e | Inr x \<Rightarrow> Inr (f x))) s"
  by (simp add: value_of_def wp_def split_beta)

lemma mset_listing:
  "distinct is \<Longrightarrow> set is = listed u a \<Longrightarrow> image_mset (the \<circ> recs a) (mset is) = records_of u a"
  by (simp add: records_of_def mset_set_set [symmetric])

context redis_client
begin

lemma PutRunning_calm_text:
  assumes "calm E" and "good_c c" and "lawful own (QRunning sb)"
  shows "wp (PutRunning E cx sb)
           (\<lambda>e c'. good_c c' \<and> inv c' = snd (spec_put_running sb (inv c)) \<and>
              e = (if fst (spec_put_running sb (inv c)) then None else Some (deleted_meanwhile sb))) c"
  unfolding PutRunning_def Let_def run_script_def wp_bind wp_return deleted_meanwhile_def
  by (rule wp_mono [OF running.calm_outcome [OF _ assms(1) _ assms(2)]])
    (use assms in \<open>auto simp: consistent_put_running bool_reply_def\<close>)

lemma Scan_calm:
  assumes "calm E" and "good_c c"
  shows "wp (ListByUserScan E cx u)
           (\<lambda>g c'. good_c c' \<and> inv c' = inv c \<and>
              (\<exists>sbs. g = Inr sbs \<and> mset sbs = filter_mset (\<lambda>sb. UserID sb = u) (records_of [] (inv c)))) c"
  unfolding ListByUserScan_def
  by (rule wp_bindI [OF List_calm [OF assms]])
    (auto simp: wp_return mset_filter [symmetric] simp flip: mset_listing)

lemma run_method_calm:
  assumes "calm E" and "good_c c" and "lawful_method own m"
  shows "wp (run_method E cx m)
           (\<lambda>r c'. good_c c' \<and> r = Inr (fst (spec_method m (inv c))) \<and> inv c' = snd (spec_method m (inv c))) c"
proof (cases m)
  case (MPut sb)
  show ?thesis
    unfolding MPut run_method.simps wp_no_value
    by (rule wp_mono [OF Put_calm [OF assms(1,2)]])
      (use assms(3) MPut in \<open>auto simp: split_beta mset_listing split: option.splits\<close>)
next
  case (MReserve sb)
  show ?thesis
    unfolding MReserve run_method.simps wp_value_of
    by (rule wp_mono [OF Reserve_calm [OF assms(1,2)]])
      (use assms(3) MReserve in \<open>auto simp: split_beta mset_listing split: option.splits\<close>)
next
  case (MRunning sb)
  show ?thesis
    unfolding MRunning run_method.simps wp_bind wp_return
    by (rule wp_mono [OF PutRunning_calm_text [OF assms(1,2)]])
      (use assms(3) MRunning in \<open>auto simp: split_beta mset_listing split: option.splits\<close>)
next
  case (MGet i)
  show ?thesis
    unfolding MGet run_method.simps wp_value_of
    by (rule wp_mono [OF Get_calm [OF assms(1,2)]])
      (use assms(3) MGet in \<open>auto simp: split_beta mset_listing split: option.splits\<close>)
next
  case (MDelete i)
  show ?thesis
    unfolding MDelete run_method.simps wp_no_value
    by (rule wp_mono [OF Delete_calm [OF assms(1,2)]])
      (use assms(3) MDelete inv_rec(3) [OF assms(2), of i] in \<open>auto simp: split_beta mset_listing split: option.splits\<close>)
next
  case (MRelease u i)
  show ?thesis
    unfolding MRelease run_method.simps wp_no_value
    by (rule wp_mono [OF Release_calm [OF assms(1,2)]])
      (use assms(3) MRelease in \<open>auto simp: split_beta mset_listing split: option.splits\<close>)
next
  case (MPurge u)
  show ?thesis
    unfolding MPurge run_method.simps wp_no_value
    by (rule wp_mono [OF Purge_calm [OF assms(1,2)]])
      (use assms(3) MPurge in \<open>auto simp: split_beta mset_listing split: option.splits\<close>)
next
  case (MSetPort i p)
  show ?thesis
    unfolding MSetPort run_method.simps wp_no_value
    by (rule wp_mono [OF SetSSHPort_calm [OF assms(1,2)]])
      (use assms(3) MSetPort in \<open>auto simp: split_beta mset_listing split: option.splits\<close>)
next
  case (MPort i)
  show ?thesis
    unfolding MPort run_method.simps wp_value_of
    by (rule wp_mono [OF SSHPort_calm [OF assms(1,2)]])
      (use assms(3) MPort in \<open>auto simp: split_beta mset_listing split: option.splits\<close>)
next
  case (MSlot u)
  show ?thesis
    unfolding MSlot run_method.simps wp_value_of
    by (rule wp_mono [OF UserSlot_calm [OF assms(1,2)]])
      (use assms(3) MSlot in \<open>auto simp: split_beta mset_listing split: option.splits\<close>)
next
  case (MList u)
  show ?thesis
    unfolding MList run_method.simps wp_value_of
    by (rule wp_mono [OF List_calm [OF assms(1,2)]])
      (use assms(3) MList in \<open>auto simp: split_beta mset_listing split: option.splits\<close>)
next
  case (MScan u)
  show ?thesis
    unfolding MScan run_method.simps wp_value_of
    by (rule wp_mono [OF Scan_calm [OF assms(1,2)]])
      (use assms(3) MScan in \<open>auto simp: split_beta mset_listing split: option.splits\<close>)
qed

end

text \<open>
  C25. The store is its specification. On a server nobody else writes to, any sequence of its methods,
  under any contexts, returns exactly the results of the abstract machine over the inventory, and
  leaves the inventory this machine leaves. Every result is a value: no method fails because a key
  holds another type than it expects, or a record that does not decode.
\<close>

theorem store_is_its_specification:
  assumes "redis_client E ks own" and "calm E" and "good_conn own ks c"
    and "list_all (\<lambda>(cx, m). lawful_method own m) ms"
  shows "\<exists>c'. run_state (run_methods E ms) c = (map Inr (fst (spec_methods (map snd ms) (inv_of ks c))), c') \<and>
           inv_of ks c' = snd (spec_methods (map snd ms) (inv_of ks c)) \<and> good_conn own ks c'"
  using assms(3,4)
proof (induction ms arbitrary: c)
  case (Cons x ms)
  obtain cx m where x: "x = (cx, m)" by (cases x)
  obtain r c1 where r1: "run_state (run_method E cx m) c = (r, c1)" by fastforce
  from redis_client.run_method_calm [OF assms(1,2) Cons.prems(1), of m cx] Cons.prems(2) x r1
  have c1: "good_conn own ks c1" "r = Inr (fst (spec_method m (inv_of ks c)))"
    "inv_of ks c1 = snd (spec_method m (inv_of ks c))" by (auto simp: wp_def)
  from Cons.IH [OF c1(1)] Cons.prems(2) obtain c2 where
    "run_state (run_methods E ms) c1 = (map Inr (fst (spec_methods (map snd ms) (inv_of ks c1))), c2)"
    "inv_of ks c2 = snd (spec_methods (map snd ms) (inv_of ks c1))" "good_conn own ks c2" by auto
  with r1 c1 show ?case by (auto simp: x split: prod.splits)
qed simp

section \<open>Requests and types\<close>

text \<open>The reply of an atomic request, for a transaction its first error.\<close>

fun reply_of :: "(rcmd \<Rightarrow> 'r \<Rightarrow> reply \<times> 'r) \<Rightarrow> request \<Rightarrow> 'r \<Rightarrow> reply" where
  "reply_of ex (QPut sb) r =
     (case fst (run_state (putTx ex sb (marshal (sb\<lparr>SSHConnections := 0\<rparr>))) r) of
        None \<Rightarrow> ROk | Some e \<Rightarrow> RErr (err_text e))"
| "reply_of ex (QReserve sb) r = reserve_reply ex sb r"
| "reply_of ex (QRunning sb) r = running_reply ex sb r"
| "reply_of ex (QDelete i u) r =
     fst (run_state (deleteSandbox ex (rec_key i) (sshPortKey i) activeKey (user_key u) allKey
            (slot_key u) (eventsChannel u) i (deleted_event i u)) r)"
| "reply_of ex (QRelease u i) r = fst (run_state (relIfOwner ex (slot_key u) (Text i)) r)"
| "reply_of ex (QPurge u) r = fst (ex (CDel [user_key u, slot_key u]) r)"
| "reply_of ex (QPort i p) r = fst (ex (CSet (sshPortKey i) (Text (dec_int p))) r)"
| "reply_of ex QCreated r = fst (ex (CIncr createdKey) r)"

definition overflow :: reply where
  "overflow = RErr ''ERR increment or decrement would overflow''"

context redis_server
begin

lemma incr_reply:
  assumes "well_typed (ks r)"
  shows "is_err (fst (exec (CIncr createdKey) r)) \<Longrightarrow> fst (exec (CIncr createdKey) r) = overflow"
  using well_typed_reads(7) [OF assms] incr_spec [of createdKey r]
  by (auto simp: port_ok_iff bulk_int_Some overflow_def split: if_splits)

lemma reply_typed:
  assumes wt: "well_typed (ks r)" and q: "lawful own q" and e: "is_err (reply_of exec q r)"
  shows "q = QCreated \<and> reply_of exec q r = overflow"
proof (cases q)
  case (QPut sb)
  with put_refines [OF wt, of sb] q e show ?thesis by (auto simp: wp_def)
next
  case (QReserve sb)
  with reserve_refines [OF wt, of sb] q e show ?thesis
    by (auto simp: wp_def map_prod_def split_beta reserve_reply_def bool_reply_def)
next
  case (QRunning sb)
  with put_running_refines [OF wt, of sb] q e show ?thesis
    by (auto simp: wp_def map_prod_def split_beta running_reply_def bool_reply_def)
next
  case (QDelete i u)
  with delete_refines [OF wt, of i u] q e show ?thesis by (auto simp: wp_def)
next
  case (QRelease u i)
  with release_refines [OF wt, of u i] e show ?thesis
    by (auto simp: wp_def map_prod_def split_beta bool_reply_def)
next
  case (QPurge u)
  with e show ?thesis by (simp add: del_spec)
next
  case (QPort i p)
  with e show ?thesis by (simp add: set_spec)
next
  case QCreated
  with incr_reply [OF wt] e show ?thesis by simp
qed

end

text \<open>
  C26. The types of the keys. However requests of any number of clients interleave, the keys of the
  schema keep their types (records that decode, slots that are ids, indexes that are sets, ports and
  the counter that are integers), and no request is answered with an error, of type or of decoding;
  the only error reply left is the counter's overflow.
\<close>

theorem requests_are_well_typed:
  assumes "redis_server ex ks" and "well_typed (ks r)" and "list_all (lawful own) (qs @ [q])"
  shows "well_typed (ks (fold (perform ex) (qs @ [q]) r)) \<and>
         reply_of ex q (fold (perform ex) qs r) \<in> {x. \<not> is_err x} \<union> (if q = QCreated then {overflow} else {})"
proof -
  have keep: "list_all (lawful own) ps \<Longrightarrow> well_typed (ks (fold (perform ex) ps r))" for ps
    using assms(2)
    by (induction ps arbitrary: r) (auto dest: redis_server.perform_refines [OF assms(1)])
  from assms(3) have "list_all (lawful own) qs" "lawful own q" by simp_all
  from redis_server.reply_typed [OF assms(1) keep [OF this(1)] this(2)]
  have "reply_of ex q (fold (perform ex) qs r) \<in> {x. \<not> is_err x} \<union> (if q = QCreated then {overflow} else {})"
    by auto
  with keep [OF assms(3)] show ?thesis by blast
qed

section \<open>Witnesses\<close>

definition demo_methods :: "(ctx \<times> store_method) list" where
  "demo_methods =
     [(Caller, MSlot ''alice''), (Detached, MRunning (demo_sb ''a1'' StateRunning)), (Caller, MDelete ''a1''),
      (Caller, MRunning (demo_sb ''a1'' StateRunning)), (Caller, MGet ''a1''), (Caller, MSlot ''alice'')]"

theorem store_is_its_specification_witness:
  "\<exists>c'. run_state (run_methods calm_env demo_methods) demo_conn =
     ([Inr (Holder ''a1''), Inr Done, Inr Done, Inr Refused, Inr (Found None), Inr (Holder [])], c')"
proof -
  have "list_all (\<lambda>(cx, m). lawful_method demo_own m) demo_methods"
    by (simp add: demo_methods_def sid_def hex_char_def is_digit_def StateRunning_def)
  from store_is_its_specification [OF calm_client.redis_client_axioms calm_calm_env demo_conn_good this]
  obtain c' where "run_state (run_methods calm_env demo_methods) demo_conn =
      (map Inr (fst (spec_methods (map snd demo_methods) (inv_of mem_ks demo_conn))), c')" by blast
  moreover have "fst (spec_methods (map snd demo_methods) (inv_of mem_ks demo_conn)) =
      [Holder ''a1'', Done, Done, Refused, Found None, Holder []]"
    by (simp add: demo_methods_def demo_inv spec_put_running_def spec_delete_def Let_def)
  ultimately show ?thesis by auto
qed

theorem requests_are_well_typed_witness:
  "\<not> is_err (reply_of mem_exec (QRunning (demo_sb ''a1'' StateRunning))
     (fold (perform mem_exec) [QReserve (demo_sb ''a1'' StateCreating)] empty_mem))"
  using requests_are_well_typed [OF mem.redis_server_axioms goodD(1) [OF good_empty],
      of demo_own "[QReserve (demo_sb ''a1'' StateCreating)]" "QRunning (demo_sb ''a1'' StateRunning)"]
  by simp

text \<open>
  The ids of the methods matter: the key of a record with the id \<^verbatim>\<open>all\<close>, which a request may name, is
  the index of all ids, and reading it is an error of the type, not a sandbox that is not found.
\<close>

lemma record_key_meets_index:
  "fst (run_state (Get calm_env Caller ''all'') demo_conn) \<noteq> Inr None"
proof -
  have "kv (mem_ks (server demo_conn)) allKey \<noteq> None"
  proof
    assume "kv (mem_ks (server demo_conn)) allKey = None"
    then have "all_ids (inv_of mem_ks demo_conn) = {}" by (simp add: inv_of_def inventory_of_def)
    then show False by (simp add: inv_of_def demo_conn_def demo_mem_state(2) spec_reserve_def)
  qed
  moreover have "set_ok (kv (mem_ks (server demo_conn)) allKey)"
    using goodD(1) [OF demo_mem_state(1)] unfolding well_typed_def by (simp add: demo_conn_def)
  ultimately obtain A where "kv (mem_ks (server demo_conn)) (rec_key ''all'') = Some (RSet A)"
    by (auto simp: set_ok_iff rec_key_def allKey_def)
  then have "fst (mem_exec (CGet (rec_key ''all'')) (server demo_conn)) = wrong_type"
    unfolding mem.get_spec(1) by auto
  then show ?thesis
    by (simp add: Get_def rdb_get_def rdb_do_def run_roundtrip calm_env_def Let_def split_beta)
qed

end
