(* ===== verification/Spec2Isabelle.thy ===== *)
theory Spec2Isabelle
  imports Service_Props Service_Eviction Api_Props Vm_Props Vm_Unpack Startup Userhome_Demo Relay_Session Service_Ssh_Runs Store_Api
begin

text \<open>
  \<^bold>\<open>The program.\<close> \<^verbatim>\<open>sandbox-manager\<close> runs one microVM sandbox per user. An HTTP server
  (\<^verbatim>\<open>internal/api\<close>) resolves the caller from a bearer token and calls the service
  (\<^verbatim>\<open>internal/service\<close>), which keeps the inventory in Redis (\<^verbatim>\<open>internal/store\<close>), the home disks as
  image files (\<^verbatim>\<open>internal/userhome\<close>), the VMs in containerd, Kata and CNI (\<^verbatim>\<open>internal/vm\<close>), and the
  SSH relay's ports (\<^verbatim>\<open>internal/sshrelay\<close>); enrollment tokens come from a backend
  (\<^verbatim>\<open>internal/backend\<close>), the settings from the environment (\<^verbatim>\<open>internal/config\<close>), and
  \<^verbatim>\<open>cmd/sandbox-manager\<close> starts it all. Several instances may share one Redis, and the service's
  operations run concurrently.

  \<^bold>\<open>How it is modelled.\<close> A method is a program of the library's state monad over the state of its
  component, with the name of its Go method (\<open>SvcDelete\<close>, \<open>VmDelete\<close> and the like where two packages
  use one name). A value and an error are a sum, an error alone an option, \<^verbatim>\<open>nil\<close> pointers are \<open>None\<close>,
  unsigned integers are words, and a \<^verbatim>\<open>float64\<close> is a rational number. What is not code of the
  repository is a parameter: a server that answers commands, a host that answers calls, a clock. The
  theorems hold for all of them, or under a locale that states the documented behaviour they need.

  \<^item> \<^bold>\<open>Prelude\<close>: Go errors, the weakest preconditions \<open>wp\<close> with the collections \<open>wp_simps\<close> and
    \<open>pres_intros\<close>, and \<open>zoom\<close>, which runs a component on its part of a larger state.
  \<^item> \<^bold>\<open>Go_Strings, Go_Net, Go_Url\<close>: the functions of \<^verbatim>\<open>strings\<close>, \<^verbatim>\<open>strconv\<close>, \<^verbatim>\<open>net\<close> and \<^verbatim>\<open>net/url\<close> the
    program calls.
  \<^item> \<^bold>\<open>Redis\<close>: the commands and their effect as the locale \<open>redis_server\<close>, scripts and transactions,
    round trips that may be refused, lose their reply or miss a deadline, and a server in memory.
  \<^item> \<^bold>\<open>Vm_Resources, Sandbox_Record\<close>: machine sizes and Kata's annotations; the JSON record.
  \<^item> \<^bold>\<open>Store\<close> (\<^verbatim>\<open>store.go\<close>): keys, scripts, methods, and \<open>ResolveIdentity\<close>. \<open>Store_Spec\<close> reads an
    abstract inventory off the keys; \<open>Store_Refine\<close> and \<open>Store_Invariant\<close> show that each request
    refines an operation on it and keeps it consistent; \<open>Store_Client\<close> (locales \<open>refined_request\<close>,
    \<open>redis_client\<close>) carries this to the methods, in any surroundings (\<open>_outcome\<close>) and on a quiet
    server (\<open>_calm\<close>); \<open>Store_Props\<close>, \<open>Store_Api\<close> and \<open>Identity_Props\<close> hold the theorems.
  \<^item> \<^bold>\<open>Relay\<close> (\<^verbatim>\<open>relay.go\<close>): the listeners and their sessions, with the reachable states in
    \<open>Relay_Props\<close>; \<open>Relay_Session\<close> is one listener with its goroutines and sockets, as a step
    relation.
  \<^item> \<^bold>\<open>Userhome\<close> (\<^verbatim>\<open>userhome.go\<close>): paths, growing and shrinking images; the file tools are a locale,
    instantiated in \<open>Userhome_Demo\<close>.
  \<^item> \<^bold>\<open>Service_State, Service\<close> (\<^verbatim>\<open>service.go\<close>): the world of the service and every method.
    \<open>Service_Invariant\<close> (locales \<open>kept\<close>, \<open>kept_create\<close>, \<open>service\<close>) shows once for all methods what
    they keep; \<open>Service_Calm\<close> and \<open>Service_Eviction\<close> (locale \<open>calm_service\<close>) what they do on a quiet
    server; \<open>Service_Props\<close> and \<open>Service_Safety\<close> hold the admission control, ownership and the life
    of a slot; \<open>Service_Ssh\<close> interleaves the goroutines that open and close SSH listeners with those that
    end a sandbox, as a step relation, and \<open>Service_Ssh_Runs\<close> shows that the programs of \<open>Service\<close> are
    runs of it. The VM manager behind the service's interface is the locale \<open>vm_manager\<close>.
  \<^item> \<^bold>\<open>Vm_Host, Vm_Manager\<close> (\<^verbatim>\<open>manager.go\<close>): the manager as programs that issue calls to the host; its
    state is the history of the calls and answers. \<open>Vm_Rollback\<close> follows resources through a history;
    \<open>Vm_Live\<close> shows, from what containerd documents (locale \<open>containerd\<close>), that the model of the
    manager satisfies \<open>vm_manager\<close>; \<open>Vm_Unpack\<close> is the unpack that creates share, as a step relation.
  \<^item> \<^bold>\<open>Api\<close> (\<^verbatim>\<open>api.go\<close>): routes, gates, handlers and status codes, with \<open>Api_Props\<close>.
  \<^item> \<^bold>\<open>Config\<close> (\<^verbatim>\<open>config.go\<close>), \<^bold>\<open>Backend\<close> (\<^verbatim>\<open>backend.go\<close>), \<^bold>\<open>Startup\<close> (\<^verbatim>\<open>main.go\<close>,
    \<^verbatim>\<open>rlimit_linux.go\<close>): the settings and their checks, the client that mints tokens, and the start of
    a process with the server as a sequence of requests and reconcile passes.

  \<^bold>\<open>What is shown.\<close>

  \<^item> The inventory. Every request refines an abstract operation under any interleaving, the keys keep
    their types, and on a quiet server the store is exactly its abstract machine. Every slot names a
    sandbox of its user, the indexes are exact, and this holds from the start of a process on, through
    every sequence of HTTP requests and reconcile passes.
  \<^item> The quota. One sandbox per user; a slot outlives its VM, is freed by a dead one, and never by a
    live or an unknown one. A sandbox deleted while it is being created cannot come back.
  \<^item> Creates. All or nothing for the record and the slot; nothing is left on the host by a create
    that failed; the admission's ledger balances and bounds the host's memory.
  \<^item> The host. Deleting releases every resource; cleaning up spares what may live; an exec sees no
    secret; only the sandbox's own VMM is killed; one unpack at a time.
  \<^item> Users. A request does one operation, on behalf of its token's identity; only an API key makes
    an admin; a caller reaches its own sandboxes only; its home is confined and its files survive. A sandbox's listener does not outlive it, nor an
    SSH connection its listener, and a closed listener's goroutines all end.
  \<^item> The edges. A configuration that loads is sound, the authorization URL keeps the device secret
    off the open network, minting is one authenticated request, and a process serves only after its
    checks.

  \<^bold>\<open>Bounds and fuel.\<close> No definition uses fuel. The only bounded loop is the retry of
  \<^verbatim>\<open>NewManager\<close>, whose bound of ten is the source's (\<open>startup_retries\<close>). \<^verbatim>\<open>ReconcileLoop\<close>, which
  does not end, is given the number of its passes.

  \<^bold>\<open>Not modelled.\<close>

  \<^item> The interleaving of goroutines on the fields of one \<open>Service\<close>. Between two requests to the store
    everything may change, the VM manager's state may change at any call, and the critical sections
    of the admission control, of the unpack, of a listener and of the SSH endpoints may interleave
    freely, but elsewhere the other fields change only by the operation at hand.
  \<^item> Times. A deadline is a context that is over or not at each call; the lengths of timeouts play
    no role.
  \<^item> \<^verbatim>\<open>go-redis\<close>' retries, the connection to containerd (\<^verbatim>\<open>containerd.New\<close>, \<^verbatim>\<open>NewNetwork\<close>), the bytes
    the relay copies, and log output.
  \<^item> Rounding of \<^verbatim>\<open>float64\<close> when a disk shrinks, Unicode space in \<^verbatim>\<open>TrimSpace\<close> and case folding beyond
    ASCII, the escapes of \<^verbatim>\<open>%q\<close>, the text of JSON errors, and the router's \<^verbatim>\<open>Allow\<close> header.
  \<^item> The error of \<^verbatim>\<open>http.ListenAndServe\<close>, and \<^verbatim>\<open>raiseFileLimit\<close> outside Linux, which is empty.
\<close>

end
